theory Spec2Isabelle
  imports Complex_Main "HOL-Library.Log_Nat"
begin

section \<open>Eth2DaiInstant: the order-construction service\<close>

text \<open>
  A shallow embedding of \<^verbatim>\<open>src/Eth2DaiInstantService.js\<close>. The class has three
  mutable instance fields (\<^verbatim>\<open>_slippage\<close>, \<^verbatim>\<open>_buyAmount\<close>, \<^verbatim>\<open>_payAmount\<close>) and talks to
  the services it receives by name (proxy, smartContract, token, allowance,
  transactionManager). The fields become a record that every method threads through; the
  services become a record of their answers; every call that leaves the class is
  appended to a log kept beside the fields, so that what was called, with which
  arguments and in which order is part of a method's result.
\<close>

subsection \<open>Strings\<close>

text \<open>
  JavaScript strings are modelled as \<^typ>\<open>string\<close>. The method names and token symbols of
  the source are ASCII; case conversion maps the 26 ASCII letters and leaves every other
  character alone.
\<close>

definition toUpperCase :: "string \<Rightarrow> string" where
  "toUpperCase s =
     map (\<lambda>c. case map_of (zip ''abcdefghijklmnopqrstuvwxyz'' ''ABCDEFGHIJKLMNOPQRSTUVWXYZ'') c of
                 Some u \<Rightarrow> u | None \<Rightarrow> c) s"

definition toLowerCase :: "string \<Rightarrow> string" where
  "toLowerCase s =
     map (\<lambda>c. case map_of (zip ''ABCDEFGHIJKLMNOPQRSTUVWXYZ'' ''abcdefghijklmnopqrstuvwxyz'') c of
                 Some l \<Rightarrow> l | None \<Rightarrow> c) s"

text \<open>\<^verbatim>\<open>s.charAt(i)\<close> is the one-character string at index \<open>i\<close>, or the empty string
  when \<open>i\<close> is out of range; \<^verbatim>\<open>s.slice(i)\<close> is the rest of \<open>s\<close> from index \<open>i\<close>.\<close>

definition charAt :: "string \<Rightarrow> nat \<Rightarrow> string" where
  "charAt s i = (if i < length s then [s ! i] else [])"

definition slice :: "string \<Rightarrow> nat \<Rightarrow> string" where
  "slice s i = drop i s"

fun startsWith :: "string \<Rightarrow> string \<Rightarrow> bool" where
  "startsWith s [] = True"
| "startsWith [] (p # ps) = False"
| "startsWith (c # cs) (p # ps) = (c = p \<and> startsWith cs ps)"

text \<open>\<^verbatim>\<open>s.includes(p)\<close>: \<open>p\<close> occurs in \<open>s\<close> as a contiguous substring.\<close>

fun includesStr :: "string \<Rightarrow> string \<Rightarrow> bool" where
  "includesStr [] p = (p = [])"
| "includesStr (c # cs) p = (startsWith (c # cs) p \<or> includesStr cs p)"

subsection \<open>Numbers\<close>

text \<open>
  The tolerance \<^verbatim>\<open>this._slippage\<close> and the products of \<^verbatim>\<open>_minBuyAmount\<close> and
  \<^verbatim>\<open>_maxPayAmount\<close> are JavaScript numbers: IEEE 754 double-precision values, where every
  arithmetic result is the representable value nearest to the exact one, a tie going to
  the even significand. A finite number is held as the rational it denotes (the sign of
  a zero is not kept); the two infinities and NaN are values of their own.
\<close>

datatype number = Num rat | PosInfinity | NegInfinity | NaN

text \<open>The integer nearest to a rational, the even one of two that are equally near.\<close>

definition roundHalfEven :: "rat \<Rightarrow> int" where
  "roundHalfEven x =
     (let n = \<lfloor>x\<rfloor>; d = x - of_int n
      in if d < 1 / 2 then n
         else if 1 / 2 < d then n + 1
         else if even n then n else n + 1)"

text \<open>
  For a positive rational \<open>a\<close>, \<open>binade a\<close> is the integer \<open>k\<close> with \<open>2 ^ k \<le> a < 2 ^ (k + 1)\<close>.
  The doubles around \<open>a\<close> are the multiples of \<open>2\<close> to the power \<open>doubleExponent a\<close>:
  53 significant bits, and no exponent below that of the subnormal numbers.
\<close>

definition binade :: "rat \<Rightarrow> int" where
  "binade a = (if 1 \<le> a then bitlen \<lfloor>a\<rfloor> - 1 else - bitlen (\<lceil>1 / a\<rceil> - 1))"

definition doubleExponent :: "rat \<Rightarrow> int" where
  "doubleExponent a = max (binade a - 52) (- 1074)"

definition roundMagnitude :: "rat \<Rightarrow> rat" where
  "roundMagnitude a =
     of_int (roundHalfEven (a / 2 powi doubleExponent a)) * 2 powi doubleExponent a"

text \<open>The number nearest to a rational; a magnitude that rounds to \<open>2 ^ 1024\<close> or more
  overflows to an infinity.\<close>

definition roundToDouble :: "rat \<Rightarrow> number" where
  "roundToDouble x =
     (if x = 0 then Num 0
      else
        let r = roundMagnitude \<bar>x\<bar>
        in if 2 powi 1024 \<le> r then (if 0 < x then PosInfinity else NegInfinity)
           else Num (if 0 < x then r else - r))"

text \<open>The operators \<^verbatim>\<open>-\<close>, \<^verbatim>\<open>+\<close> and \<^verbatim>\<open>*\<close> on numbers.\<close>

fun jsNegate :: "number \<Rightarrow> number" where
  "jsNegate (Num a) = Num (- a)"
| "jsNegate PosInfinity = NegInfinity"
| "jsNegate NegInfinity = PosInfinity"
| "jsNegate NaN = NaN"

fun jsAdd :: "number \<Rightarrow> number \<Rightarrow> number" where
  "jsAdd NaN y = NaN"
| "jsAdd x NaN = NaN"
| "jsAdd (Num a) (Num b) = roundToDouble (a + b)"
| "jsAdd PosInfinity NegInfinity = NaN"
| "jsAdd NegInfinity PosInfinity = NaN"
| "jsAdd PosInfinity y = PosInfinity"
| "jsAdd x PosInfinity = PosInfinity"
| "jsAdd NegInfinity y = NegInfinity"
| "jsAdd x NegInfinity = NegInfinity"

definition jsSub :: "number \<Rightarrow> number \<Rightarrow> number" where
  "jsSub x y = jsAdd x (jsNegate y)"

fun jsMul :: "number \<Rightarrow> number \<Rightarrow> number" where
  "jsMul NaN y = NaN"
| "jsMul x NaN = NaN"
| "jsMul (Num a) (Num b) = roundToDouble (a * b)"
| "jsMul (Num a) y =
     (if a = 0 then NaN else if (0 < a) = (y = PosInfinity) then PosInfinity else NegInfinity)"
| "jsMul x (Num b) =
     (if b = 0 then NaN else if (0 < b) = (x = PosInfinity) then PosInfinity else NegInfinity)"
| "jsMul x y = (if x = y then PosInfinity else NegInfinity)"

text \<open>
  A quote is a big-number object holding a nonnegative integer. As the left operand of
  \<^verbatim>\<open>*\<close> it is first converted to a number: the one nearest to the integer.
\<close>

definition toNumber :: "nat \<Rightarrow> number" where
  "toNumber q = roundToDouble (of_nat q)"

subsection \<open>Values, tokens, contracts\<close>

type_synonym symbol = string
type_synonym address = string

text \<open>
  The proxy handle is whatever the proxy service answers: an address string, or
  \<^verbatim>\<open>null\<close>/\<^verbatim>\<open>undefined\<close> when there is none; \<^verbatim>\<open>_checkProxy\<close> itself can answer
  \<^verbatim>\<open>false\<close>. The source only ever tests a handle for truthiness.
\<close>

datatype jsval = Undefined | Null | JBool bool | JStr string

fun truthy :: "jsval \<Rightarrow> bool" where
  "truthy Undefined = False"
| "truthy Null = False"
| "truthy (JBool b) = b"
| "truthy (JStr s) = (s \<noteq> [])"

record token =
  token_address :: address
  token_decimals :: nat

record contract =
  contract_name :: string
  contract_address :: address

text \<open>The currency units the source imports from \<^verbatim>\<open>./Currency\<close>.\<close>

datatype currency = DAI | WETH | ETH

text \<open>
  The ways a method fails: the four error kinds of the services, and an amount that is
  not a finite number where the slippage computation needs its integer units.
\<close>

datatype error =
    UnresolvedAsset symbol
  | ProxyCreationFailed
  | QuoteUnavailable
  | AllowanceFailed
  | AmountNotFinite

text \<open>
  Modelled from the spec: the unit conversion of \<^verbatim>\<open>./Currency\<close> (\<^verbatim>\<open>getCurrency\<close>,
  \<^verbatim>\<open>ETH.wei\<close>, \<^verbatim>\<open>toFixed('wei')\<close>), which is not among the sources. The spec describes it
  as an asset-specific conversion between human units and the contract's integer unit
  that truncates (rounds toward zero) and never fails. A currency amount is held as its
  exact number of integer units; \<^verbatim>\<open>toFixed('wei')\<close> prints the integer part.
  \<^verbatim>\<open>ETH.wei\<close> receives a JavaScript number, and the amount it makes holds the value
  of that number. The spec speaks of amounts that are numeric quantities; an infinity
  or NaN has no integer units, and there \<^verbatim>\<open>ETH.wei\<close> ends with the error
  \<open>AmountNotFinite\<close>, so that no integer is made up for it.
\<close>

datatype currency_amount = CurrencyAmount rat

definition trunc :: "rat \<Rightarrow> int" where
  "trunc x = (if 0 \<le> x then \<lfloor>x\<rfloor> else \<lceil>x\<rceil>)"

definition getCurrency :: "rat \<Rightarrow> token \<Rightarrow> currency_amount" where
  "getCurrency amount tok = CurrencyAmount (amount * 10 ^ token_decimals tok)"

fun ETH_wei :: "number \<Rightarrow> error + currency_amount" where
  "ETH_wei (Num w) = Inr (CurrencyAmount w)"
| "ETH_wei x = Inl AmountNotFinite"

fun toFixed_wei :: "currency_amount \<Rightarrow> int" where
  "toFixed_wei (CurrencyAmount w) = trunc w"

text \<open>The inverse direction of the same conversion: integer units read in human units.\<close>

definition humanUnits :: "token \<Rightarrow> nat \<Rightarrow> rat" where
  "humanUnits tok n = of_nat n / 10 ^ token_decimals tok"

subsection \<open>Orders\<close>

datatype param = PAddr address | PAmount int

record options =
  opt_otc :: contract
  opt_dsProxy :: "bool option"
  opt_value :: "int option"

text \<open>
  \<^verbatim>\<open>OtcSellOrder.build\<close> and \<^verbatim>\<open>OtcBuyOrder.build\<close> live in \<^verbatim>\<open>./OtcOrder\<close>; an order is
  modelled as the arguments the service hands to them (the transaction manager, a
  service reference that is the same in every call, is left out). A sell order is built
  with a currency unit, a buy order is not.
\<close>

datatype order =
    OtcSellOrder contract string "param list" currency options
  | OtcBuyOrder contract string "param list" options

fun orderMethod :: "order \<Rightarrow> string" where
  "orderMethod (OtcSellOrder c m ps u os) = m"
| "orderMethod (OtcBuyOrder c m ps os) = m"

fun orderParams :: "order \<Rightarrow> param list" where
  "orderParams (OtcSellOrder c m ps u os) = ps"
| "orderParams (OtcBuyOrder c m ps os) = ps"

fun orderOptions :: "order \<Rightarrow> options" where
  "orderOptions (OtcSellOrder c m ps u os) = os"
| "orderOptions (OtcBuyOrder c m ps os) = os"

fun settlementAsset :: "order \<Rightarrow> currency option" where
  "settlementAsset (OtcSellOrder c m ps u os) = Some u"
| "settlementAsset (OtcBuyOrder c m ps os) = None"

subsection \<open>Services and instance state\<close>

text \<open>Every call that leaves the class, with its arguments.\<close>

datatype call =
    CurrentProxy
  | EnsureProxy
  | OtcGetBuyAmount address address int
  | OtcGetPayAmount address address int
  | RequireAllowance symbol jsval
  | Build order

text \<open>
  The services, as their answers during one call of a public method. An asynchronous
  call answers with a value or fails (the promise rejects); the token lookup fails for a
  symbol it does not know.
\<close>

record env =
  currentProxy :: "error + jsval"
  ensureProxy :: "error + jsval"
  getToken :: "symbol \<Rightarrow> token option"
  getContractByName :: "string \<Rightarrow> contract"
  otc_getBuyAmount :: "address \<Rightarrow> address \<Rightarrow> int \<Rightarrow> error + nat"
  otc_getPayAmount :: "address \<Rightarrow> address \<Rightarrow> int \<Rightarrow> error + nat"
  requireAllowance :: "symbol \<Rightarrow> jsval \<Rightarrow> error + unit"

text \<open>
  The instance: \<^verbatim>\<open>this._slippage\<close>, \<^verbatim>\<open>this._buyAmount\<close>, \<^verbatim>\<open>this._payAmount\<close> (\<open>None\<close>
  while the field is still undefined; the exchange answers with a big-number object,
  which is truthy whatever its value), and the log of calls, oldest first. A quote is
  a nonnegative integer, counted in integer units. The tolerance is a JavaScript
  number: whatever number the caller last passed to \<^verbatim>\<open>setSlippageLimit\<close>, or the 0.02
  of the constructor.
\<close>

record state =
  this_slippage :: number
  this_buyAmount :: "nat option"
  this_payAmount :: "nat option"
  calls :: "call list"

subsection \<open>Sequencing\<close>

text \<open>
  A method is a function from the instance state to an outcome and the state it leaves
  behind. \<open>andThen\<close> is the source's statement sequencing: an exception of the first
  part, or the rejection of a promise it awaits, ends the method there with the state
  reached so far.
\<close>

type_synonym 'a action = "state \<Rightarrow> (error + 'a) \<times> state"

definition resolve :: "'a \<Rightarrow> 'a action" where
  "resolve x = (\<lambda>s. (Inr x, s))"

definition andThen :: "'a action \<Rightarrow> ('a \<Rightarrow> 'b action) \<Rightarrow> 'b action" where
  "andThen m f = (\<lambda>s. case m s of (Inl e, s') \<Rightarrow> (Inl e, s') | (Inr x, s') \<Rightarrow> f x s')"

definition sync :: "error + 'a \<Rightarrow> 'a action" where
  "sync r = (\<lambda>s. (r, s))"

definition external :: "call \<Rightarrow> error + 'a \<Rightarrow> 'a action" where
  "external c r = (\<lambda>s. (r, s\<lparr>calls := calls s @ [c]\<rparr>))"

definition field :: "(state \<Rightarrow> 'a) \<Rightarrow> 'a action" where
  "field f = (\<lambda>s. (Inr (f s), s))"

definition assign :: "(state \<Rightarrow> state) \<Rightarrow> unit action" where
  "assign upd = (\<lambda>s. (Inr (), upd s))"

definition bindE :: "error + 'a \<Rightarrow> ('a \<Rightarrow> error + 'b) \<Rightarrow> error + 'b" where
  "bindE r f = (case r of Inl e \<Rightarrow> Inl e | Inr x \<Rightarrow> f x)"

subsection \<open>The service\<close>

definition getTokenAddress :: "env \<Rightarrow> symbol \<Rightarrow> error + address" where
  "getTokenAddress e tok =
     (case getToken e tok of
        None \<Rightarrow> Inl (UnresolvedAsset tok)
      | Some t \<Rightarrow> Inr (token_address t))"

definition otcProxy :: "env \<Rightarrow> contract" where
  "otcProxy e = getContractByName e ''OASIS_PROXY''"

definition otc :: "env \<Rightarrow> contract" where
  "otc e = getContractByName e ''MAKER_OTC''"

definition valueForContract :: "env \<Rightarrow> rat \<Rightarrow> symbol \<Rightarrow> error + int" where
  "valueForContract e amount symb =
     (case getToken e symb of
        None \<Rightarrow> Inl (UnresolvedAsset symb)
      | Some tok \<Rightarrow> Inr (toFixed_wei (getCurrency amount tok)))"

definition setSlippageLimit :: "number \<Rightarrow> unit action" where
  "setSlippageLimit limit = assign (\<lambda>s. s\<lparr>this_slippage := limit\<rparr>)"

definition getBuyAmount :: "env \<Rightarrow> symbol \<Rightarrow> symbol \<Rightarrow> rat \<Rightarrow> nat action" where
  "getBuyAmount e buyToken payToken sellAmount =
     andThen (sync (getTokenAddress e buyToken)) (\<lambda>buyAddress.
     andThen (sync (getTokenAddress e payToken)) (\<lambda>payAddress.
     andThen (sync (valueForContract e sellAmount buyToken)) (\<lambda>v.
     andThen (external (OtcGetBuyAmount buyAddress payAddress v)
                (otc_getBuyAmount e buyAddress payAddress v)) (\<lambda>q.
     andThen (assign (\<lambda>s. s\<lparr>this_buyAmount := Some q\<rparr>)) (\<lambda>_.
     resolve q)))))"

definition getPayAmount :: "env \<Rightarrow> symbol \<Rightarrow> symbol \<Rightarrow> rat \<Rightarrow> nat action" where
  "getPayAmount e payToken buyToken buyAmount =
     andThen (sync (getTokenAddress e payToken)) (\<lambda>payAddress.
     andThen (sync (getTokenAddress e buyToken)) (\<lambda>buyAddress.
     andThen (sync (valueForContract e buyAmount buyToken)) (\<lambda>v.
     andThen (external (OtcGetPayAmount payAddress buyAddress v)
                (otc_getPayAmount e payAddress buyAddress v)) (\<lambda>q.
     andThen (assign (\<lambda>s. s\<lparr>this_payAmount := Some q\<rparr>)) (\<lambda>_.
     resolve q)))))"

definition minBuyAmount :: "env \<Rightarrow> symbol \<Rightarrow> symbol \<Rightarrow> rat \<Rightarrow> int action" where
  "minBuyAmount e buyToken payToken payAmount =
     andThen (field this_buyAmount) (\<lambda>memo.
     andThen (case memo of
                Some q \<Rightarrow> resolve q
              | None \<Rightarrow> getBuyAmount e buyToken payToken payAmount) (\<lambda>buyAmount.
     andThen (field this_slippage) (\<lambda>slippage.
     let adjustedAmount = jsMul (toNumber buyAmount) (jsSub (Num 1) slippage)
     in andThen (sync (ETH_wei adjustedAmount)) (\<lambda>wei.
        resolve (toFixed_wei wei)))))"

definition maxPayAmount :: "env \<Rightarrow> symbol \<Rightarrow> symbol \<Rightarrow> rat \<Rightarrow> int action" where
  "maxPayAmount e payToken buyToken buyAmount =
     andThen (field this_payAmount) (\<lambda>memo.
     andThen (case memo of
                Some q \<Rightarrow> resolve q
              | None \<Rightarrow> getPayAmount e payToken buyToken buyAmount) (\<lambda>payAmount.
     andThen (field this_slippage) (\<lambda>slippage.
     let adjustedAmount = jsMul (toNumber payAmount) (jsAdd (Num 1) slippage)
     in andThen (sync (ETH_wei adjustedAmount)) (\<lambda>wei.
        resolve (toFixed_wei wei)))))"

definition checkProxy :: "env \<Rightarrow> symbol \<Rightarrow> jsval action" where
  "checkProxy e sellCurrency =
     andThen (external CurrentProxy (currentProxy e)) (\<lambda>proxy.
     if truthy proxy then resolve proxy
     else if sellCurrency \<noteq> ''ETH'' then external EnsureProxy (ensureProxy e)
     else resolve (JBool False))"

definition setMethod :: "symbol \<Rightarrow> symbol \<Rightarrow> string \<Rightarrow> jsval \<Rightarrow> string" where
  "setMethod sellToken buyToken method proxy =
     (if buyToken = ''ETH'' then method @ ''BuyEth''
      else if sellToken = ''ETH'' \<and> \<not> truthy proxy then
        ''createAnd'' @ toUpperCase (charAt method 0) @ slice method 1 @ ''PayEth''
      else if sellToken = ''ETH'' then method @ ''PayEth''
      else method)"

definition buildParams ::
  "env \<Rightarrow> symbol \<Rightarrow> rat \<Rightarrow> symbol \<Rightarrow> int \<Rightarrow> string \<Rightarrow> error + param list" where
  "buildParams e sendToken amount buyToken limit method =
     (let otcAddress = contract_address (otc e) in
      bindE (getTokenAddress e ''DAI'') (\<lambda>daiAddress.
      bindE (getTokenAddress e ''WETH'') (\<lambda>wethAddress.
      bindE (valueForContract e amount sendToken) (\<lambda>orderAmount.
      let registryAddress = contract_address (getContractByName e ''PROXY_REGISTRY'') in
      if method = ''sellAllAmountPayEth'' then
        Inr [PAddr otcAddress, PAddr wethAddress, PAddr daiAddress, PAmount limit]
      else if method = ''createAndSellAllAmountPayEth'' then
        Inr [PAddr registryAddress, PAddr otcAddress, PAddr daiAddress, PAmount limit]
      else if method = ''buyAllAmountPayEth'' then
        Inr [PAddr otcAddress, PAddr daiAddress, PAmount orderAmount, PAddr wethAddress]
      else if method = ''createAndBuyAllAmountPayEth'' then
        Inr [PAddr registryAddress, PAddr otcAddress, PAddr daiAddress, PAmount orderAmount]
      else
        bindE (getTokenAddress e sendToken) (\<lambda>sendAddress.
        bindE (getTokenAddress e buyToken) (\<lambda>buyAddress.
        Inr [PAddr otcAddress, PAddr sendAddress, PAmount orderAmount,
             PAddr buyAddress, PAmount limit]))))))"

text \<open>The fourth parameter, \<^verbatim>\<open>maxPayAmount\<close> in the source, is written \<open>maxPay\<close>; it is
  \<open>None\<close> when the caller passes no fourth argument, as \<^verbatim>\<open>sell\<close> does.\<close>

definition buildOptions ::
  "env \<Rightarrow> rat \<Rightarrow> symbol \<Rightarrow> string \<Rightarrow> int option \<Rightarrow> error + options" where
  "buildOptions e amount sellToken method maxPay =
     (let options = \<lparr>opt_otc = otc e, opt_dsProxy = None, opt_value = None\<rparr>;
          options = (if \<not> includesStr method ''create''
                     then options\<lparr>opt_dsProxy := Some True\<rparr> else options)
      in if includesStr (toLowerCase method) ''buyallamountpayeth'' then
           Inr (options\<lparr>opt_value := maxPay\<rparr>)
         else if sellToken = ''ETH'' then
           bindE (valueForContract e amount ''WETH'') (\<lambda>v.
           Inr (options\<lparr>opt_value := Some v\<rparr>))
         else Inr options)"

text \<open>The parameters \<^verbatim>\<open>sell\<close> and \<^verbatim>\<open>buy\<close> of the two public methods are written
  \<open>sell'\<close> and \<open>buy'\<close>.\<close>

definition sell :: "env \<Rightarrow> symbol \<Rightarrow> symbol \<Rightarrow> rat \<Rightarrow> order action" where
  "sell e sell' buy' amount =
     andThen (checkProxy e sell') (\<lambda>proxy.
     let method = setMethod sell' buy' ''sellAllAmount'' proxy;
         sellToken = (if sell' = ''ETH'' then ''WETH'' else sell');
         buyToken = (if buy' = ''ETH'' then ''WETH'' else buy')
     in
     andThen (minBuyAmount e buyToken sellToken amount) (\<lambda>minFillAmount.
     andThen (sync (buildParams e sellToken amount buyToken minFillAmount method)) (\<lambda>params.
     andThen (sync (buildOptions e amount sell' method None)) (\<lambda>options.
     andThen (if truthy proxy
              then external (RequireAllowance sellToken proxy)
                     (requireAllowance e sellToken proxy)
              else resolve ()) (\<lambda>_.
     let ord = OtcSellOrder (otcProxy e) method params
                 (if buyToken = ''DAI'' then DAI else WETH) options
     in external (Build ord) (Inr ord))))))"

definition buy :: "env \<Rightarrow> symbol \<Rightarrow> symbol \<Rightarrow> rat \<Rightarrow> order action" where
  "buy e buy' sell' amount =
     andThen (checkProxy e sell') (\<lambda>proxy.
     let method = setMethod sell' buy' ''buyAllAmount'' proxy;
         buyToken = (if buy' = ''ETH'' then ''WETH'' else buy');
         sellToken = (if sell' = ''ETH'' then ''WETH'' else sell')
     in
     andThen (maxPayAmount e sellToken buyToken amount) (\<lambda>maxPay.
     andThen (sync (buildParams e buyToken amount sellToken maxPay method)) (\<lambda>params.
     andThen (sync (buildOptions e amount sell' method (Some maxPay))) (\<lambda>options.
     andThen (if truthy proxy
              then external (RequireAllowance sellToken proxy)
                     (requireAllowance e sellToken proxy)
              else resolve ()) (\<lambda>_.
     let ord = OtcBuyOrder (otcProxy e) method params options
     in external (Build ord) (Inr ord))))))"

subsection \<open>Vocabulary of the properties\<close>

text \<open>The base name with its first letter in upper case, as the decision table of the
  method selector writes it.\<close>

definition capitalized :: "string \<Rightarrow> string" where
  "capitalized m = (case m of [] \<Rightarrow> [] | c # cs \<Rightarrow> toUpperCase [c] @ cs)"

text \<open>The five argument shapes of \<^verbatim>\<open>_buildParams\<close>: the four case labels of its switch
  and the default.\<close>

datatype shape =
    SellAllAmountPayEth
  | CreateAndSellAllAmountPayEth
  | BuyAllAmountPayEth
  | CreateAndBuyAllAmountPayEth
  | DefaultShape

definition shapeOf :: "string \<Rightarrow> shape" where
  "shapeOf method =
     (if method = ''sellAllAmountPayEth'' then SellAllAmountPayEth
      else if method = ''createAndSellAllAmountPayEth'' then CreateAndSellAllAmountPayEth
      else if method = ''buyAllAmountPayEth'' then BuyAllAmountPayEth
      else if method = ''createAndBuyAllAmountPayEth'' then CreateAndBuyAllAmountPayEth
      else DefaultShape)"

text \<open>
  The two slippage bounds as functions of the tolerance and the quote: the quote as a
  number, times one minus (one plus) the tolerance, in the arithmetic of numbers, and
  of a finite product the integer part.
\<close>

definition minLimit :: "number \<Rightarrow> nat \<Rightarrow> error + int" where
  "minLimit tolerance q =
     (case jsMul (toNumber q) (jsSub (Num 1) tolerance) of
        Num w \<Rightarrow> Inr (trunc w)
      | PosInfinity \<Rightarrow> Inl AmountNotFinite
      | NegInfinity \<Rightarrow> Inl AmountNotFinite
      | NaN \<Rightarrow> Inl AmountNotFinite)"

definition maxLimit :: "number \<Rightarrow> nat \<Rightarrow> error + int" where
  "maxLimit tolerance q =
     (case jsMul (toNumber q) (jsAdd (Num 1) tolerance) of
        Num w \<Rightarrow> Inr (trunc w)
      | PosInfinity \<Rightarrow> Inl AmountNotFinite
      | NegInfinity \<Rightarrow> Inl AmountNotFinite
      | NaN \<Rightarrow> Inl AmountNotFinite)"

text \<open>Observers of the call log.\<close>

fun isBuyQuery :: "call \<Rightarrow> bool" where
  "isBuyQuery (OtcGetBuyAmount buyAddress payAddress v) = True"
| "isBuyQuery c = False"

fun isPayQuery :: "call \<Rightarrow> bool" where
  "isPayQuery (OtcGetPayAmount payAddress buyAddress v) = True"
| "isPayQuery c = False"

fun isRequireAllowance :: "call \<Rightarrow> bool" where
  "isRequireAllowance (RequireAllowance tok proxy) = True"
| "isRequireAllowance c = False"

fun isBuild :: "call \<Rightarrow> bool" where
  "isBuild (Build ord) = True"
| "isBuild c = False"

subsection \<open>A sample deployment\<close>

text \<open>
  Four tokens, contracts addressed by their names, no proxy yet for the caller, an
  exchange that quotes 2 and 3 units of an 18-decimals token, and the instance as the
  constructor leaves it: the number 0.02 as tolerance and no quote stored.
\<close>

definition tokens0 :: "symbol \<Rightarrow> token option" where
  "tokens0 = map_of
     [(''DAI'', \<lparr>token_address = ''0xDA1'', token_decimals = 18\<rparr>),
      (''WETH'', \<lparr>token_address = ''0xE78'', token_decimals = 18\<rparr>),
      (''MKR'', \<lparr>token_address = ''0x3C2'', token_decimals = 18\<rparr>),
      (''USDC'', \<lparr>token_address = ''0x05D'', token_decimals = 6\<rparr>)]"

definition contracts0 :: "string \<Rightarrow> contract" where
  "contracts0 name = \<lparr>contract_name = name, contract_address = ''0x'' @ name\<rparr>"

definition env0 :: env where
  "env0 = \<lparr>currentProxy = Inr Null,
           ensureProxy = Inr (JStr ''0x9A0''),
           getToken = tokens0,
           getContractByName = contracts0,
           otc_getBuyAmount = (\<lambda>buyAddress payAddress v. Inr 2000000000000000000),
           otc_getPayAmount = (\<lambda>payAddress buyAddress v. Inr 3000000000000000000),
           requireAllowance = (\<lambda>tok proxy. Inr ())\<rparr>"

definition state0 :: state where
  "state0 = \<lparr>this_slippage = roundToDouble (2 / 100), this_buyAmount = None, this_payAmount = None,
             calls = []\<rparr>"

text \<open>The same deployment once the caller has a proxy and the exchange has moved to a
  quote of 7 units; the instance after a first sell order; an instance with a tolerance
  of one half and stored quotes of 0 and 1 integer units.\<close>

definition env1 :: env where
  "env1 = env0\<lparr>currentProxy := Inr (JStr ''0x9A0''),
               otc_getBuyAmount := (\<lambda>buyAddress payAddress v. Inr 7000000000000000000)\<rparr>"

definition state1 :: state where
  "state1 = snd (sell env0 ''ETH'' ''DAI'' 1 state0)"

definition stateHalf :: state where
  "stateHalf = \<lparr>this_slippage = Num (1 / 2), this_buyAmount = Some 0, this_payAmount = Some 1,
                calls = []\<rparr>"

text \<open>The deployment with a proxy, where the allowance service refuses.\<close>

definition envRefused :: env where
  "envRefused = env1\<lparr>requireAllowance := (\<lambda>tok proxy. Inl AllowanceFailed)\<rparr>"

section \<open>Properties\<close>

subsection \<open>Running an action\<close>

lemma bindE_simps [simp]:
  "bindE (Inr x) f = f x"
  "bindE (Inl err) f = Inl err"
  by (simp_all add: bindE_def)

lemma andThen_apply:
  "andThen m f s = (case m s of (Inl err, s') \<Rightarrow> (Inl err, s') | (Inr x, s') \<Rightarrow> f x s')"
  by (simp add: andThen_def)

lemma resolve_apply: "resolve x s = (Inr x, s)"
  by (simp add: resolve_def)

lemma sync_apply: "sync r s = (r, s)"
  by (simp add: sync_def)

lemma external_apply: "external c r s = (r, s\<lparr>calls := calls s @ [c]\<rparr>)"
  by (simp add: external_def)

lemma field_apply: "field g s = (Inr (g s), s)"
  by (simp add: field_def)

lemma assign_apply: "assign upd s = (Inr (), upd s)"
  by (simp add: assign_def)

lemmas run_simps = andThen_apply resolve_apply sync_apply external_apply field_apply
  assign_apply


subsection \<open>Rounding to the nearest number\<close>

text \<open>
  Rounding is monotone, leaves a number as it is, and is exact on the integers below
  \<open>2 ^ 53\<close>; in the normal range it moves a value by at most one part in \<open>2 ^ 53\<close>.
\<close>

lemma roundHalfEven_of_int [simp]: "roundHalfEven (of_int k) = k"
  by (simp add: roundHalfEven_def)

lemma roundHalfEven_near:
  assumes "\<bar>x - of_int m\<bar> < 1 / 2"
  shows "roundHalfEven x = m"
proof (cases "of_int m \<le> x")
  case True
  with assms have "\<lfloor>x\<rfloor> = m" by (intro floor_unique) auto
  with assms True show ?thesis by (simp add: roundHalfEven_def)
next
  case False
  with assms have fl: "\<lfloor>x\<rfloor> = m - 1" by (intro floor_unique) auto
  with assms False show ?thesis by (auto simp: roundHalfEven_def Let_def)
qed

lemma roundHalfEven_bounds:
  "of_int \<lfloor>x\<rfloor> \<le> (of_int (roundHalfEven x) :: rat)"
  "roundHalfEven x \<le> \<lfloor>x\<rfloor> + 1"
  by (auto simp: roundHalfEven_def Let_def)

lemma roundHalfEven_ge: "of_int k \<le> x \<Longrightarrow> k \<le> roundHalfEven x"
proof -
  assume "of_int k \<le> x"
  then have "k \<le> \<lfloor>x\<rfloor>" by (simp add: le_floor_iff)
  also have "\<lfloor>x\<rfloor> \<le> roundHalfEven x" by (auto simp: roundHalfEven_def Let_def)
  finally show ?thesis .
qed

lemma roundHalfEven_le: "x \<le> of_int k \<Longrightarrow> roundHalfEven x \<le> k"
proof (cases "x = of_int k")
  case True
  then show ?thesis by simp
next
  case False
  assume "x \<le> of_int k"
  with False have "x < of_int k" by simp
  then have "\<lfloor>x\<rfloor> < k" by (simp add: floor_less_iff)
  with roundHalfEven_bounds(2) [of x] show ?thesis by linarith
qed

lemma roundHalfEven_mono: "x \<le> y \<Longrightarrow> roundHalfEven x \<le> roundHalfEven y"
proof -
  assume xy: "x \<le> y"
  then have fl: "\<lfloor>x\<rfloor> \<le> \<lfloor>y\<rfloor>" by (rule floor_mono)
  show ?thesis
  proof (cases "\<lfloor>x\<rfloor> = \<lfloor>y\<rfloor>")
    case True
    with xy show ?thesis by (auto simp: roundHalfEven_def Let_def)
  next
    case False
    with fl have "\<lfloor>x\<rfloor> + 1 \<le> \<lfloor>y\<rfloor>" by simp
    moreover have "\<lfloor>y\<rfloor> \<le> roundHalfEven y" by (auto simp: roundHalfEven_def Let_def)
    ultimately show ?thesis using roundHalfEven_bounds(2) [of x] by linarith
  qed
qed

lemma pow2_less_iff: "(2::rat) powi m < 2 powi n \<longleftrightarrow> m < n"
proof
  assume "(2::rat) powi m < 2 powi n"
  show "m < n"
  proof (rule ccontr)
    assume "\<not> m < n"
    then have "n \<le> m" by simp
    then have "(2::rat) powi n \<le> 2 powi m" by (rule power_int_increasing) simp
    with \<open>(2::rat) powi m < 2 powi n\<close> show False by simp
  qed
next
  assume "m < n"
  then show "(2::rat) powi m < 2 powi n" by (rule power_int_strict_increasing) simp
qed

lemma pow2_le_iff: "(2::rat) powi m \<le> 2 powi n \<longleftrightarrow> m \<le> n"
  using pow2_less_iff [of n m] by (auto simp: not_less [symmetric])

lemma pow2_pos [simp]: "0 < (2::rat) powi n"
  by simp

lemma pow2_neg: "(2::rat) powi (- int n) = 1 / 2 ^ n"
  by (simp add: power_int_minus inverse_eq_divide)

lemma binade_bounds:
  assumes "0 < a"
  shows "2 powi (binade a) \<le> a" and "a < 2 powi (binade a + 1)"
proof -
  have "2 powi (binade a) \<le> a \<and> a < 2 powi (binade a + 1)"
  proof (cases "1 \<le> a")
    case True
    define n where "n = \<lfloor>a\<rfloor>"
    from True have n: "0 < n" by (simp add: n_def)
    from bitlen_bounds [OF n] have lo: "2 ^ nat (bitlen n - 1) \<le> n"
      and hi: "n < 2 ^ nat (bitlen n)" by simp_all
    from n have b1: "1 \<le> bitlen n" by (simp add: bitlen_alt_def)
    have k: "binade a = bitlen n - 1" using True by (simp add: binade_def n_def)
    have "(2::rat) powi (bitlen n - 1) = 2 ^ nat (bitlen n - 1)"
      using b1 by (simp add: power_int_def)
    also have "\<dots> = of_int (2 ^ nat (bitlen n - 1))" by simp
    also have "\<dots> \<le> of_int n" using lo by (simp only: of_int_le_iff)
    also have "\<dots> \<le> a" by (simp add: n_def)
    finally have l: "2 powi (binade a) \<le> a" by (simp add: k)
    from hi have "n + 1 \<le> 2 ^ nat (bitlen n)" by simp
    then have "(of_int (n + 1) :: rat) \<le> of_int (2 ^ nat (bitlen n))"
      by (simp only: of_int_le_iff)
    moreover have "a < of_int (n + 1)" using floor_correct [of a] by (simp add: n_def)
    ultimately have "a < of_int (2 ^ nat (bitlen n))" by simp
    also have "\<dots> = 2 powi (bitlen n)" using b1 by (simp add: power_int_def)
    finally have "a < 2 powi (binade a + 1)" by (simp add: k)
    with l show ?thesis ..
  next
    case False
    define c where "c = \<lceil>1 / a\<rceil>"
    from False assms have inv: "1 < 1 / a" by (simp add: field_simps)
    then have c2: "2 \<le> c" unfolding c_def by (simp add: le_ceiling_iff)
    then have n: "0 < c - 1" by simp
    from bitlen_bounds [OF n] have lo: "2 ^ nat (bitlen (c - 1) - 1) \<le> c - 1"
      and hi: "c - 1 < 2 ^ nat (bitlen (c - 1))" by simp_all
    from n have b1: "1 \<le> bitlen (c - 1)" by (simp add: bitlen_alt_def)
    define j where "j = nat (bitlen (c - 1))"
    from b1 have j: "bitlen (c - 1) = int j" "0 < j" by (simp_all add: j_def)
    have k: "binade a = - int j" using False j(1) by (simp add: binade_def flip: c_def)
    from hi have "c \<le> 2 ^ j" by (simp add: j_def)
    then have "(of_int c :: rat) \<le> of_int (2 ^ j)" by (simp only: of_int_le_iff)
    then have cj: "(of_int c :: rat) \<le> 2 ^ j" by simp
    have "1 / a \<le> of_int c" by (simp add: c_def)
    from this cj have "1 / a \<le> 2 ^ j" by (rule order_trans)
    with assms have "1 / 2 ^ j \<le> a" by (simp add: field_simps)
    then have l: "2 powi (binade a) \<le> a" by (simp only: k pow2_neg)
    from lo have "2 ^ (j - 1) \<le> c - 1" using j by (simp add: nat_diff_distrib)
    then have "(of_int (2 ^ (j - 1)) :: rat) \<le> of_int (c - 1)" by (simp only: of_int_le_iff)
    then have jc: "(2 ^ (j - 1) :: rat) \<le> of_int (c - 1)" by simp
    have "(of_int (c - 1) :: rat) < 1 / a" unfolding c_def
      using ceiling_correct [of "1 / a"] by simp
    with jc have "2 ^ (j - 1) < 1 / a" by (rule le_less_trans)
    with assms have "a < 1 / 2 ^ (j - 1)" by (simp add: field_simps)
    also have "\<dots> = 2 powi (- int j + 1)"
    proof -
      from j(2) have "- int j + 1 = - int (j - 1)" by simp
      then show ?thesis by (simp only: pow2_neg)
    qed
    finally have "a < 2 powi (binade a + 1)" by (simp add: k)
    with l show ?thesis ..
  qed
  then show "2 powi (binade a) \<le> a" and "a < 2 powi (binade a + 1)" by simp_all
qed

lemma binade_unique:
  assumes "2 powi k \<le> a" and "a < 2 powi (k + 1)"
  shows "binade a = k"
proof -
  have pos: "0 < a" using assms(1) by (rule less_le_trans [rotated]) simp
  from binade_bounds [OF pos] assms
  have "(2::rat) powi (binade a) < 2 powi (k + 1)" and "(2::rat) powi k < 2 powi (binade a + 1)"
    by simp_all
  then have "binade a < k + 1" and "k < binade a + 1"
    by (simp_all add: pow2_less_iff)
  then show ?thesis by simp
qed

lemma pow2_add: "(2::rat) powi (m + n) = 2 powi m * 2 powi n"
  by (simp add: power_int_add)

lemma pow2_diff: "(2::rat) powi (m - n) = 2 powi m / 2 powi n"
  by (simp add: power_int_diff)

lemma pow2_nat: "0 \<le> k \<Longrightarrow> (2::rat) powi k = of_int (2 ^ nat k)"
  by (simp add: power_int_def)

lemma binade_mono:
  assumes "0 < a" and "a \<le> b"
  shows "binade a \<le> binade b"
proof -
  from assms have "0 < b" by simp
  from binade_bounds(1) [OF assms(1)] assms(2) binade_bounds(2) [OF \<open>0 < b\<close>]
  have "(2::rat) powi (binade a) < 2 powi (binade b + 1)" by simp
  then show ?thesis by (simp add: pow2_less_iff)
qed

lemma doubleExponent_mono:
  "0 < a \<Longrightarrow> a \<le> b \<Longrightarrow> doubleExponent a \<le> doubleExponent b"
  using binade_mono [of a b] by (simp add: doubleExponent_def)

lemma scaled_less:
  assumes "0 < a"
  shows "a / 2 powi doubleExponent a < of_int (2 ^ 53)"
proof -
  have "binade a + 1 \<le> doubleExponent a + 53" by (simp add: doubleExponent_def)
  then have "(2::rat) powi (binade a + 1) \<le> 2 powi (doubleExponent a + 53)"
    by (simp add: pow2_le_iff)
  with binade_bounds(2) [OF assms] have "a < 2 powi (doubleExponent a + 53)" by simp
  also have "\<dots> = 2 powi doubleExponent a * 2 ^ 53" by (simp add: pow2_add)
  finally have "a / 2 powi doubleExponent a < 2 ^ 53"
    by (simp add: pos_divide_less_eq mult.commute)
  then show ?thesis by simp
qed

lemma roundMagnitude_nonneg: "0 < a \<Longrightarrow> 0 \<le> roundMagnitude a"
proof -
  assume "0 < a"
  then have "(of_int 0 :: rat) \<le> a / 2 powi doubleExponent a" by simp
  then have "0 \<le> roundHalfEven (a / 2 powi doubleExponent a)" by (rule roundHalfEven_ge)
  then show ?thesis by (simp add: roundMagnitude_def)
qed

lemma roundMagnitude_mono:
  assumes "0 < a" and "a \<le> b"
  shows "roundMagnitude a \<le> roundMagnitude b"
proof -
  from assms have b: "0 < b" by simp
  define ea where "ea = doubleExponent a"
  define eb where "eb = doubleExponent b"
  have le: "ea \<le> eb" unfolding ea_def eb_def by (rule doubleExponent_mono [OF assms])
  show ?thesis
  proof (cases "ea = eb")
    case True
    from assms(2) have "a / 2 powi ea \<le> b / 2 powi ea" by (simp add: divide_right_mono)
    then have "roundHalfEven (a / 2 powi ea) \<le> roundHalfEven (b / 2 powi ea)"
      by (rule roundHalfEven_mono)
    then have "(of_int (roundHalfEven (a / 2 powi ea)) :: rat) * 2 powi ea \<le>
        of_int (roundHalfEven (b / 2 powi ea)) * 2 powi ea"
      by (simp add: mult_right_mono)
    with True show ?thesis by (simp add: roundMagnitude_def ea_def eb_def)
  next
    case False
    with le have lt: "ea < eb" by simp
    have ea_lo: "binade a - 52 \<le> ea" and ea_min: "- 1074 \<le> ea"
      by (simp_all add: ea_def doubleExponent_def)
    from lt ea_min have eb: "eb = binade b - 52"
      by (simp add: eb_def doubleExponent_def max_def split: if_splits)
    define B :: rat where "B = 2 powi (binade b)"
    from ea_lo lt eb have "binade a + 1 \<le> binade b" by simp
    then have "(2::rat) powi (binade a + 1) \<le> B" by (simp add: B_def pow2_le_iff)
    with binade_bounds(2) [OF assms(1)] have aB: "a \<le> B" by simp
    from lt eb have k: "0 \<le> binade b - ea" by simp
    have "B / 2 powi ea = 2 powi (binade b - ea)" by (simp add: B_def pow2_diff)
    also have "\<dots> = of_int (2 ^ nat (binade b - ea))" using k by (rule pow2_nat)
    finally have Bs: "B / 2 powi ea = of_int (2 ^ nat (binade b - ea))" .
    from aB have "a / 2 powi ea \<le> B / 2 powi ea" by (simp add: divide_right_mono)
    with Bs have "roundHalfEven (a / 2 powi ea) \<le> 2 ^ nat (binade b - ea)"
      by (simp add: roundHalfEven_le)
    then have "(of_int (roundHalfEven (a / 2 powi ea)) :: rat) \<le> of_int (2 ^ nat (binade b - ea))"
      by (simp only: of_int_le_iff)
    then have "of_int (roundHalfEven (a / 2 powi ea)) * 2 powi ea \<le>
        (of_int (2 ^ nat (binade b - ea)) :: rat) * 2 powi ea"
      by (simp add: mult_right_mono)
    also have "\<dots> = B / 2 powi ea * 2 powi ea" by (simp only: Bs)
    also have "\<dots> = B" by simp
    finally have one: "roundMagnitude a \<le> B" by (simp add: roundMagnitude_def ea_def)
    have "B / 2 powi eb = 2 powi 52" by (simp add: B_def eb pow2_diff [symmetric])
    also have "\<dots> = of_int (2 ^ 52)" by simp
    finally have Bb: "B / 2 powi eb = of_int (2 ^ 52)" .
    from binade_bounds(1) [OF b] have "B \<le> b" by (simp add: B_def)
    then have "B / 2 powi eb \<le> b / 2 powi eb" by (simp add: divide_right_mono)
    with Bb have "of_int (2 ^ 52) \<le> b / 2 powi eb" by (simp only:)
    then have mb: "2 ^ 52 \<le> roundHalfEven (b / 2 powi eb)" by (rule roundHalfEven_ge)
    have "B = B / 2 powi eb * 2 powi eb" by simp
    also have "\<dots> = of_int (2 ^ 52) * 2 powi eb" by (simp only: Bb)
    also have "\<dots> \<le> of_int (roundHalfEven (b / 2 powi eb)) * 2 powi eb"
      using mb by (intro mult_right_mono) (simp_all only: of_int_le_iff, simp)
    also have "\<dots> = roundMagnitude b" by (simp add: roundMagnitude_def eb_def)
    finally have "B \<le> roundMagnitude b" .
    with one show ?thesis by simp
  qed
qed

lemma roundMagnitude_exact:
  assumes "0 < m" and "m < 2 ^ 53" and "- 1074 \<le> e" and "a = of_int m * 2 powi e"
  shows "roundMagnitude a = a"
proof -
  from assms(1,4) have pos: "0 < a" by simp
  from assms(2) have "(of_int m :: rat) < of_int (2 ^ 53)" by (simp only: of_int_less_iff)
  then have "of_int m * 2 powi e < (of_int (2 ^ 53) :: rat) * 2 powi e"
    by (simp add: mult_strict_right_mono)
  also have "\<dots> = 2 powi (53 + e)" by (simp add: pow2_add)
  finally have "a < 2 powi (53 + e)" by (simp add: assms(4))
  with binade_bounds(1) [OF pos] have "(2::rat) powi (binade a) < 2 powi (53 + e)" by simp
  then have "binade a < 53 + e" by (simp add: pow2_less_iff)
  with assms(3) have le: "doubleExponent a \<le> e" by (simp add: doubleExponent_def)
  define d where "d = doubleExponent a"
  from le have k: "0 \<le> e - d" by (simp add: d_def)
  have "a / 2 powi d = of_int m * (2 powi e / 2 powi d)" by (simp add: assms(4))
  also have "2 powi e / 2 powi d = (2::rat) powi (e - d)" by (simp add: pow2_diff)
  also have "\<dots> = of_int (2 ^ nat (e - d))" using k by (rule pow2_nat)
  finally have sc: "a / 2 powi d = of_int (m * 2 ^ nat (e - d))" by simp
  have "roundMagnitude a = of_int (roundHalfEven (a / 2 powi d)) * 2 powi d"
    by (simp add: roundMagnitude_def d_def)
  also have "\<dots> = a / 2 powi d * 2 powi d" by (simp only: sc roundHalfEven_of_int)
  also have "\<dots> = a" by simp
  finally show ?thesis .
qed

lemma roundMagnitude_near:
  assumes "2 powi k \<le> a" and "a < 2 powi (k + 1)" and "e = max (k - 52) (- 1074)"
    and "\<bar>a / 2 powi e - of_int m\<bar> < 1 / 2"
  shows "roundMagnitude a = of_int m * 2 powi e"
proof -
  from binade_unique [OF assms(1,2)] assms(3) have "doubleExponent a = e"
    by (simp add: doubleExponent_def)
  with roundHalfEven_near [OF assms(4)] show ?thesis by (simp add: roundMagnitude_def)
qed

lemma roundMagnitude_form:
  assumes "0 < a"
  shows "\<exists>m. roundMagnitude a = of_int m * 2 powi doubleExponent a \<and> 0 \<le> m \<and> m \<le> 2 ^ 53"
proof -
  define m where "m = roundHalfEven (a / 2 powi doubleExponent a)"
  from assms have "(of_int 0 :: rat) \<le> a / 2 powi doubleExponent a" by simp
  then have "0 \<le> m" unfolding m_def by (rule roundHalfEven_ge)
  moreover from scaled_less [OF assms] have "m \<le> 2 ^ 53"
    unfolding m_def by (intro roundHalfEven_le) simp
  moreover have "roundMagnitude a = of_int m * 2 powi doubleExponent a"
    by (simp add: roundMagnitude_def m_def)
  ultimately show ?thesis by blast
qed

lemma roundMagnitude_idem:
  assumes "0 < a"
  shows "roundMagnitude a = 0 \<or> roundMagnitude (roundMagnitude a) = roundMagnitude a"
proof -
  from roundMagnitude_form [OF assms] obtain m where
    r: "roundMagnitude a = of_int m * 2 powi doubleExponent a" and m: "0 \<le> m" "m \<le> 2 ^ 53"
    by blast
  have e: "- 1074 \<le> doubleExponent a" by (simp add: doubleExponent_def)
  show ?thesis
  proof (cases "m = 0")
    case True
    with r show ?thesis by simp
  next
    case False
    show ?thesis
    proof (cases "m = 2 ^ 53")
      case True
      have "roundMagnitude a = of_int (2 ^ 52) * 2 powi (doubleExponent a + 1)"
        by (simp add: r True pow2_add)
      moreover have "roundMagnitude (of_int (2 ^ 52) * 2 powi (doubleExponent a + 1)) =
          of_int (2 ^ 52) * 2 powi (doubleExponent a + 1)"
        using e by (intro roundMagnitude_exact [of "2 ^ 52" "doubleExponent a + 1"]) simp_all
      ultimately show ?thesis by simp
    next
      case neq: False
      with m False have "0 < m" "m < 2 ^ 53" by simp_all
      from roundMagnitude_exact [OF this e r] show ?thesis by simp
    qed
  qed
qed

lemma roundMagnitude_of_nat:
  assumes "0 < q"
  shows "\<exists>k. roundMagnitude (of_nat q) = of_int k"
proof -
  define a :: rat where "a = of_nat q"
  define d where "d = doubleExponent a"
  from assms have pos: "0 < a" by (simp add: a_def)
  show ?thesis
  proof (cases "0 \<le> d")
    case True
    have "roundMagnitude a = of_int (roundHalfEven (a / 2 powi d)) * 2 powi d"
      by (simp add: roundMagnitude_def d_def)
    also have "\<dots> = of_int (roundHalfEven (a / 2 powi d) * 2 ^ nat d)"
      by (simp add: pow2_nat [OF True])
    finally show ?thesis unfolding a_def by blast
  next
    case False
    then have k: "0 \<le> - d" by simp
    have "a / 2 powi d = a * 2 powi (- d)" by (simp add: power_int_minus field_simps)
    also have "\<dots> = of_int (int q * 2 ^ nat (- d))" by (simp add: a_def pow2_nat [OF k])
    finally have sc: "a / 2 powi d = of_int (int q * 2 ^ nat (- d))" .
    have "roundMagnitude a = of_int (roundHalfEven (a / 2 powi d)) * 2 powi d"
      by (simp add: roundMagnitude_def d_def)
    also have "\<dots> = a / 2 powi d * 2 powi d" by (simp only: sc roundHalfEven_of_int)
    also have "\<dots> = of_int (int q)" by (simp add: a_def)
    finally show ?thesis unfolding a_def by blast
  qed
qed

lemma roundMagnitude_small_nat:
  assumes "0 < q" and "q < 2 ^ 53"
  shows "roundMagnitude (of_nat q) = of_nat q"
proof -
  from assms(2) have "int q < 2 ^ 53" by (metis of_nat_less_iff of_nat_numeral of_nat_power)
  with assms(1) show ?thesis
    by (intro roundMagnitude_exact [of "int q" 0]) simp_all
qed

lemma roundToDouble_pos:
  "0 < x \<Longrightarrow> roundToDouble x =
     (if 2 powi 1024 \<le> roundMagnitude x then PosInfinity else Num (roundMagnitude x))"
  by (simp add: roundToDouble_def Let_def)

lemma roundToDouble_neg:
  "x < 0 \<Longrightarrow> roundToDouble x =
     (if 2 powi 1024 \<le> roundMagnitude (- x) then NegInfinity else Num (- roundMagnitude (- x)))"
  by (simp add: roundToDouble_def Let_def)

lemma roundToDouble_zero [simp]: "roundToDouble 0 = Num 0"
  by (simp add: roundToDouble_def)

lemma roundToDouble_sign:
  assumes "roundToDouble x = Num r"
  shows "(0 \<le> x \<longrightarrow> 0 \<le> r) \<and> (x \<le> 0 \<longrightarrow> r \<le> 0)"
proof (cases "x = 0")
  case True
  with assms show ?thesis by simp
next
  case False
  show ?thesis
  proof (cases "0 < x")
    case True
    with assms roundMagnitude_nonneg [OF True] show ?thesis
      by (auto simp: roundToDouble_pos split: if_splits)
  next
    case neg: False
    with False have n: "x < 0" by simp
    then have "0 < - x" by simp
    from roundMagnitude_nonneg [OF this] assms n show ?thesis
      by (auto simp: roundToDouble_neg split: if_splits)
  qed
qed

lemma roundToDouble_mono:
  assumes "x \<le> y" and "roundToDouble x = Num rx" and "roundToDouble y = Num ry"
  shows "rx \<le> ry"
proof -
  consider "x \<le> 0" "0 \<le> y" | "0 < x" | "y < 0" by linarith
  then show ?thesis
  proof cases
    case 1
    with roundToDouble_sign [OF assms(2)] roundToDouble_sign [OF assms(3)] show ?thesis by simp
  next
    case 2
    with assms(1) have y: "0 < y" by simp
    from roundMagnitude_mono [OF 2 assms(1)] assms(2,3) 2 y show ?thesis
      by (auto simp: roundToDouble_pos split: if_splits)
  next
    case 3
    with assms(1) have x: "x < 0" by simp
    from 3 have "0 < - y" by simp
    moreover from assms(1) have "- y \<le> - x" by simp
    ultimately have "roundMagnitude (- y) \<le> roundMagnitude (- x)" by (rule roundMagnitude_mono)
    with assms(2,3) 3 x show ?thesis
      by (auto simp: roundToDouble_neg split: if_splits)
  qed
qed

lemma roundToDouble_idem:
  assumes "roundToDouble x = Num r"
  shows "roundToDouble r = Num r"
proof -
  consider "x = 0" | "0 < x" | "x < 0" by linarith
  then show ?thesis
  proof cases
    case 1
    with assms show ?thesis by simp
  next
    case 2
    with assms have r: "r = roundMagnitude x" and fin: "\<not> 2 powi 1024 \<le> r"
      by (auto simp: roundToDouble_pos split: if_splits)
    show ?thesis
    proof (cases "r = 0")
      case True
      then show ?thesis by simp
    next
      case False
      with roundMagnitude_nonneg [OF 2] r have pos: "0 < r" by simp
      from roundMagnitude_idem [OF 2] False r have "roundMagnitude r = r" by simp
      with pos fin show ?thesis by (simp add: roundToDouble_pos)
    qed
  next
    case 3
    then have p: "0 < - x" by simp
    from assms 3 have r: "r = - roundMagnitude (- x)"
      and fin: "\<not> 2 powi 1024 \<le> roundMagnitude (- x)"
      by (auto simp: roundToDouble_neg split: if_splits)
    show ?thesis
    proof (cases "r = 0")
      case True
      then show ?thesis by simp
    next
      case False
      with roundMagnitude_nonneg [OF p] r have neg: "r < 0" by simp
      from roundMagnitude_idem [OF p] False r
      have "roundMagnitude (- r) = - r" by simp
      with neg fin r show ?thesis by (simp add: roundToDouble_neg)
    qed
  qed
qed

lemma roundToDouble_one [simp]: "roundToDouble 1 = Num 1"
proof -
  have "roundMagnitude 1 = 1"
    by (rule roundMagnitude_exact [of 1 0]) simp_all
  then show ?thesis by (simp add: roundToDouble_pos)
qed

lemma toNumber_zero [simp]: "toNumber 0 = Num 0"
  by (simp add: toNumber_def)

lemma toNumber_Num:
  assumes "toNumber q = Num n"
  shows "0 \<le> n" and "of_int \<lfloor>n\<rfloor> = n" and "roundToDouble n = Num n"
proof -
  from assms have r: "roundToDouble (of_nat q) = Num n" by (simp add: toNumber_def)
  from roundToDouble_sign [OF r] show "0 \<le> n" by simp
  from roundToDouble_idem [OF r] show "roundToDouble n = Num n" .
  show "of_int \<lfloor>n\<rfloor> = n"
  proof (cases "q = 0")
    case True
    with assms show ?thesis by simp
  next
    case False
    then have q: "0 < q" by simp
    then have "0 < (of_nat q :: rat)" by simp
    with r have "n = roundMagnitude (of_nat q)"
      by (auto simp: roundToDouble_pos split: if_splits)
    with roundMagnitude_of_nat [OF q] obtain k where "n = of_int k" by auto
    then show ?thesis by simp
  qed
qed

lemma toNumber_small:
  assumes "q < 2 ^ 53"
  shows "toNumber q = Num (of_nat q)"
proof (cases "q = 0")
  case True
  then show ?thesis by simp
next
  case False
  then have q: "0 < q" by simp
  from roundMagnitude_small_nat [OF q assms] have rm: "roundMagnitude (of_nat q) = of_nat q" .
  from assms have "(of_nat q :: rat) < of_nat (2 ^ 53)" by (simp only: of_nat_less_iff)
  also have "\<dots> < 2 powi 1024" by simp
  finally have "\<not> 2 powi 1024 \<le> (of_nat q :: rat)" by simp
  with q rm show ?thesis by (simp add: toNumber_def roundToDouble_pos)
qed

lemma roundToDouble_near:
  assumes "2 powi k \<le> x" and "x < 2 powi (k + 1)" and "e = max (k - 52) (- 1074)"
    and "\<bar>x / 2 powi e - of_int m\<bar> < 1 / 2" and "of_int m * 2 powi e < (2::rat) powi 1024"
    and "r = of_int m * 2 powi e"
  shows "roundToDouble x = Num r"
proof -
  have pos: "0 < x" using assms(1) by (rule less_le_trans [rotated]) simp
  from roundMagnitude_near [OF assms(1-4)] assms(5,6) pos show ?thesis
    by (simp add: roundToDouble_pos)
qed

lemma roundToDouble_finite_le:
  assumes "0 \<le> x" and "x \<le> y" and "roundToDouble y = Num ry"
  shows "\<exists>rx. roundToDouble x = Num rx"
proof (cases "x = 0")
  case True
  then show ?thesis by simp
next
  case False
  with assms(1) have x: "0 < x" by simp
  with assms(2) have y: "0 < y" by simp
  from assms(3) y have "\<not> 2 powi 1024 \<le> roundMagnitude y"
    by (auto simp: roundToDouble_pos split: if_splits)
  with roundMagnitude_mono [OF x assms(2)] have "\<not> 2 powi 1024 \<le> roundMagnitude x" by simp
  with x show ?thesis by (simp add: roundToDouble_pos)
qed

lemma roundToDouble_pow2_256: "roundToDouble (2 ^ 256) = Num (2 ^ 256)"
  by (rule roundToDouble_near [where k = 256 and e = 204 and m = 4503599627370496]) simp_all

lemma roundToDouble_pow2_257: "roundToDouble (2 ^ 257) = Num (2 ^ 257)"
  by (rule roundToDouble_near [where k = 257 and e = 205 and m = 4503599627370496]) simp_all

lemma roundToDouble_two: "roundToDouble 2 = Num 2"
  by (rule roundToDouble_near [where k = 1 and e = "- 51" and m = 4503599627370496]) simp_all

lemma roundHalfEven_error: "\<bar>of_int (roundHalfEven y) - y\<bar> \<le> (1 / 2 :: rat)"
proof -
  have "of_int \<lfloor>y\<rfloor> \<le> y" "y < of_int \<lfloor>y\<rfloor> + 1" by linarith+
  then show ?thesis by (auto simp: roundHalfEven_def Let_def)
qed

lemma binade_ge:
  assumes "2 powi k \<le> a"
  shows "k \<le> binade a"
proof -
  have pos: "0 < a" using assms by (rule less_le_trans [rotated]) simp
  from assms binade_bounds(2) [OF pos] have "(2::rat) powi k < 2 powi (binade a + 1)" by simp
  then show ?thesis by (simp add: pow2_less_iff)
qed

lemma roundMagnitude_relative:
  assumes "2 powi (- 1022) \<le> a"
  shows "roundMagnitude a \<le> a + a / 2 ^ 53" and "a - a / 2 ^ 53 \<le> roundMagnitude a"
proof -
  have pos: "0 < a" using assms by (rule less_le_trans [rotated]) simp
  define d where "d = doubleExponent a"
  from binade_ge [OF assms] have d: "d = binade a - 52" by (simp add: d_def doubleExponent_def)
  have "roundMagnitude a - a = (of_int (roundHalfEven (a / 2 powi d)) - a / 2 powi d) * 2 powi d"
    by (simp add: roundMagnitude_def d_def algebra_simps)
  then have "\<bar>roundMagnitude a - a\<bar> = \<bar>of_int (roundHalfEven (a / 2 powi d)) - a / 2 powi d\<bar> * 2 powi d"
    by (simp add: abs_mult)
  also have "\<dots> \<le> 1 / 2 * 2 powi d"
    by (rule mult_right_mono [OF roundHalfEven_error]) simp
  also have "\<dots> = 2 powi (binade a) / 2 ^ 53"
    by (simp add: d pow2_diff)
  also have "\<dots> \<le> a / 2 ^ 53"
    using binade_bounds(1) [OF pos] by (simp add: divide_right_mono)
  finally have "\<bar>roundMagnitude a - a\<bar> \<le> a / 2 ^ 53" .
  then have "roundMagnitude a - a \<le> a / 2 ^ 53" and "- (a / 2 ^ 53) \<le> roundMagnitude a - a"
    by (simp_all only: abs_le_iff) linarith+
  then show "roundMagnitude a \<le> a + a / 2 ^ 53" and "a - a / 2 ^ 53 \<le> roundMagnitude a"
    by linarith+
qed

lemma round_below:
  assumes "1 \<le> n"
  shows "roundMagnitude (n * (1 - 1 / 2 ^ 53)) < n"
proof -
  define x where "x = n * (1 - 1 / 2 ^ 53)"
  from assms have "1 * (1 - 1 / 2 ^ 53) \<le> x" unfolding x_def by (intro mult_right_mono) simp_all
  then have half: "1 / 2 \<le> x" by simp
  have "(2::rat) powi (- 1022) \<le> 2 powi (- 1)" by (simp only: pow2_le_iff)
  also have "\<dots> = 1 / 2" by simp
  finally have "2 powi (- 1022) \<le> x" using half by simp
  from roundMagnitude_relative(1) [OF this] have "roundMagnitude x \<le> x + x / 2 ^ 53" .
  also have "\<dots> = n * ((1 - 1 / 2 ^ 53) * (1 + 1 / 2 ^ 53))" by (simp add: x_def algebra_simps)
  also have "\<dots> < n * 1" using assms by (intro mult_strict_left_mono) simp_all
  finally show ?thesis by (simp add: x_def)
qed

lemma round_above:
  assumes "1 \<le> n"
  shows "n < roundMagnitude (n * (1 + 1 / 2 ^ 52))"
proof -
  define x where "x = n * (1 + 1 / 2 ^ 52)"
  from assms have "1 * (1 + 1 / 2 ^ 52) \<le> x" unfolding x_def by (intro mult_right_mono) simp_all
  then have one: "1 \<le> x" by simp
  have "(2::rat) powi (- 1022) \<le> 2 powi 0" by (simp only: pow2_le_iff)
  then have "2 powi (- 1022) \<le> x" using one by simp
  from roundMagnitude_relative(2) [OF this] have "x - x / 2 ^ 53 \<le> roundMagnitude x" .
  moreover have "x - x / 2 ^ 53 = n * ((1 + 1 / 2 ^ 52) * (1 - 1 / 2 ^ 53))"
    by (simp add: x_def algebra_simps)
  moreover have "n * 1 < n * ((1 + 1 / 2 ^ 52) * (1 - 1 / 2 ^ 53))"
    using assms by (intro mult_strict_left_mono) simp_all
  ultimately show ?thesis by (simp add: x_def)
qed

lemma roundToDouble_below_one: "roundToDouble (1 - 1 / 2 ^ 53) = Num (1 - 1 / 2 ^ 53)"
  by (rule roundToDouble_near [where k = "- 1" and e = "- 53" and m = 9007199254740991]) simp_all

lemma roundToDouble_above_one: "roundToDouble (1 + 1 / 2 ^ 52) = Num (1 + 1 / 2 ^ 52)"
  by (rule roundToDouble_near [where k = 0 and e = "- 52" and m = 4503599627370497]) simp_all


subsection \<open>Truncation and the two bounds\<close>

text \<open>
  What rounding and truncation leave of the comparison between a bound and its quote.
\<close>

lemma jsMul_Num:
  assumes "jsMul x y = Num w"
  shows "\<exists>a b. x = Num a \<and> y = Num b \<and> roundToDouble (a * b) = Num w"
  using assms by (cases x; cases y) (auto split: if_splits)

lemma trunc_le_self: "0 \<le> n \<Longrightarrow> w \<le> n \<Longrightarrow> of_int (trunc w) \<le> n"
proof -
  assume n: "0 \<le> n" and wn: "w \<le> n"
  show ?thesis
  proof (cases "0 \<le> w")
    case True
    have "of_int \<lfloor>w\<rfloor> \<le> w" by simp
    from this wn have "of_int \<lfloor>w\<rfloor> \<le> n" by (rule order_trans)
    with True show ?thesis by (simp add: trunc_def)
  next
    case False
    then have "\<lceil>w\<rceil> \<le> 0" by (simp add: ceiling_le_iff)
    then have "(of_int \<lceil>w\<rceil> :: rat) \<le> 0" by simp
    from this n have "of_int \<lceil>w\<rceil> \<le> n" by (rule order_trans)
    with False show ?thesis by (simp add: trunc_def)
  qed
qed

lemma trunc_ge_int: "of_int \<lfloor>n\<rfloor> = n \<Longrightarrow> 0 \<le> n \<Longrightarrow> n \<le> w \<Longrightarrow> n \<le> of_int (trunc w)"
proof -
  assume i: "of_int \<lfloor>n\<rfloor> = n" and n: "0 \<le> n" and nw: "n \<le> w"
  then have "0 \<le> w" by simp
  moreover from nw have "\<lfloor>n\<rfloor> \<le> \<lfloor>w\<rfloor>" by (rule floor_mono)
  then have "(of_int \<lfloor>n\<rfloor> :: rat) \<le> of_int \<lfloor>w\<rfloor>" by (simp only: of_int_le_iff)
  ultimately show ?thesis using i by (simp add: trunc_def)
qed

lemma min_product_le:
  assumes "jsMul (toNumber q) (jsSub (Num 1) (Num t)) = Num w" and "0 \<le> t"
  shows "\<exists>n. toNumber q = Num n \<and> w \<le> n \<and> of_int (trunc w) \<le> n"
proof -
  from jsMul_Num [OF assms(1)] obtain n f where n: "toNumber q = Num n"
    and f: "jsSub (Num 1) (Num t) = Num f" and p: "roundToDouble (n * f) = Num w"
    by blast
  from f have rf: "roundToDouble (1 - t) = Num f" by (simp add: jsSub_def)
  from assms(2) have "1 - t \<le> 1" by simp
  from roundToDouble_mono [OF this rf roundToDouble_one] have f1: "f \<le> 1" .
  from toNumber_Num [OF n] have n0: "0 \<le> n" and rn: "roundToDouble n = Num n" by simp_all
  from f1 n0 have "n * f \<le> n" by (simp add: mult_left_le)
  from roundToDouble_mono [OF this p rn] have wn: "w \<le> n" .
  from trunc_le_self [OF n0 wn] wn n show ?thesis by simp
qed

lemma max_product_ge:
  assumes "jsMul (toNumber q) (jsAdd (Num 1) (Num t)) = Num w" and "0 \<le> t"
  shows "\<exists>n. toNumber q = Num n \<and> n \<le> w \<and> n \<le> of_int (trunc w)"
proof -
  from jsMul_Num [OF assms(1)] obtain n f where n: "toNumber q = Num n"
    and f: "jsAdd (Num 1) (Num t) = Num f" and p: "roundToDouble (n * f) = Num w"
    by blast
  from f have rf: "roundToDouble (1 + t) = Num f" by simp
  from assms(2) have "1 \<le> 1 + t" by simp
  from roundToDouble_mono [OF this roundToDouble_one rf] have f1: "1 \<le> f" .
  from toNumber_Num [OF n] have n0: "0 \<le> n" and ni: "of_int \<lfloor>n\<rfloor> = n"
    and rn: "roundToDouble n = Num n" by simp_all
  from f1 n0 have "n \<le> n * f" by (simp add: mult_le_cancel_left1)
  from roundToDouble_mono [OF this rn p] have nw: "n \<le> w" .
  from trunc_ge_int [OF ni n0 nw] nw n show ?thesis by simp
qed

lemma toNumber_ge_one:
  assumes "1 \<le> q" and "toNumber q = Num n"
  shows "1 \<le> n"
proof -
  from assms(1) have a: "(1::rat) \<le> of_nat q" by simp
  from assms(2) have rq: "roundToDouble (of_nat q) = Num n" by (simp add: toNumber_def)
  from roundToDouble_mono [OF a roundToDouble_one rq] show ?thesis .
qed

lemma trunc_le_max: "of_int (trunc w) \<le> max w 0"
proof (cases "0 \<le> w")
  case True
  have "of_int \<lfloor>w\<rfloor> \<le> w" by simp
  with True show ?thesis by (simp add: trunc_def)
next
  case False
  then have "\<lceil>w\<rceil> \<le> 0" by (simp add: ceiling_le_iff)
  then have "(of_int \<lceil>w\<rceil> :: rat) \<le> 0" by simp
  with False show ?thesis by (simp add: trunc_def)
qed

lemma min_product_strict:
  assumes "jsMul (toNumber q) (jsSub (Num 1) (Num t)) = Num w" and "1 / 2 ^ 53 \<le> t"
    and "1 \<le> q"
  shows "w < of_nat q \<and> trunc w < int q"
proof -
  from jsMul_Num [OF assms(1)] obtain n f where n: "toNumber q = Num n"
    and f: "jsSub (Num 1) (Num t) = Num f" and p: "roundToDouble (n * f) = Num w"
    by blast
  from f have rf: "roundToDouble (1 - t) = Num f" by (simp add: jsSub_def)
  from n have rq: "roundToDouble (of_nat q) = Num n" by (simp add: toNumber_def)
  from toNumber_ge_one [OF assms(3) n] have n1: "1 \<le> n" .
  from toNumber_Num [OF n] have rn: "roundToDouble n = Num n" by simp
  from assms(2) have "1 - t \<le> 1 - 1 / 2 ^ 53" by simp
  from roundToDouble_mono [OF this rf roundToDouble_below_one] have fp: "f \<le> 1 - 1 / 2 ^ 53" .
  define x where "x = n * (1 - 1 / 2 ^ 53)"
  from n1 have x0: "0 < x" by (simp add: x_def)
  from n1 have xn: "x \<le> n" by (simp add: x_def mult_left_le)
  from roundToDouble_finite_le [OF _ xn rn] x0 obtain rx where rx: "roundToDouble x = Num rx"
    by auto
  with x0 have "rx = roundMagnitude x" by (auto simp: roundToDouble_pos split: if_splits)
  with round_below [OF n1] have rxn: "rx < n" by (simp add: x_def)
  from fp n1 have "n * f \<le> x" unfolding x_def by (intro mult_left_mono) simp_all
  from roundToDouble_mono [OF this p rx] rxn have wn: "w < n" by simp
  have wq: "w < of_nat q"
  proof (rule ccontr)
    assume "\<not> w < of_nat q"
    then have "of_nat q \<le> w" by simp
    from roundToDouble_mono [OF this rq roundToDouble_idem [OF p]] wn show False by simp
  qed
  from assms(3) have "(0::rat) < of_nat q" by simp
  with wq have "max w 0 < of_nat q" by simp
  with trunc_le_max [of w] have "of_int (trunc w) < (of_nat q :: rat)" by (rule le_less_trans)
  then have "(of_int (trunc w) :: rat) < of_int (int q)" by simp
  then have "trunc w < int q" by (simp only: of_int_less_iff)
  with wq show ?thesis ..
qed

lemma max_product_strict:
  assumes "jsMul (toNumber q) (jsAdd (Num 1) (Num t)) = Num w" and "1 / 2 ^ 52 \<le> t"
    and "1 \<le> q"
  shows "of_nat q < w \<and> int q \<le> trunc w"
proof -
  from jsMul_Num [OF assms(1)] obtain n g where n: "toNumber q = Num n"
    and g: "jsAdd (Num 1) (Num t) = Num g" and p: "roundToDouble (n * g) = Num w"
    by blast
  from g have rg: "roundToDouble (1 + t) = Num g" by simp
  from n have rq: "roundToDouble (of_nat q) = Num n" by (simp add: toNumber_def)
  from toNumber_ge_one [OF assms(3) n] have n1: "1 \<le> n" .
  from assms(2) have "1 + 1 / 2 ^ 52 \<le> 1 + t" by simp
  from roundToDouble_mono [OF this roundToDouble_above_one rg] have gp: "1 + 1 / 2 ^ 52 \<le> g" .
  define x where "x = n * (1 + 1 / 2 ^ 52)"
  from n1 have x0: "0 < x" by (simp add: x_def)
  from gp n1 have xg: "x \<le> n * g" unfolding x_def by (intro mult_left_mono) simp_all
  from roundToDouble_finite_le [OF _ xg p] x0 obtain rx where rx: "roundToDouble x = Num rx"
    by auto
  with x0 have "rx = roundMagnitude x" by (auto simp: roundToDouble_pos split: if_splits)
  with round_above [OF n1] have rxn: "n < rx" by (simp add: x_def)
  from roundToDouble_mono [OF xg rx p] rxn have nw: "n < w" by simp
  have qw: "of_nat q < w"
  proof (rule ccontr)
    assume "\<not> of_nat q < w"
    then have "w \<le> of_nat q" by simp
    from roundToDouble_mono [OF this roundToDouble_idem [OF p] rq] nw show False by simp
  qed
  have "(0::rat) \<le> of_nat q" by simp
  from this qw have "0 < w" by (rule le_less_trans)
  then have w0: "0 \<le> w" by simp
  from qw have "(of_int (int q) :: rat) \<le> w" by simp
  then have "int q \<le> \<lfloor>w\<rfloor>" by (simp only: le_floor_iff)
  with w0 have "int q \<le> trunc w" by (simp add: trunc_def)
  with qw show ?thesis ..
qed

lemma limit_zero_tolerance:
  assumes "toNumber q = Num n"
  shows "minLimit (Num 0) q = Inr \<lfloor>n\<rfloor>" and "maxLimit (Num 0) q = Inr \<lfloor>n\<rfloor>"
proof -
  from toNumber_Num [OF assms] have n0: "0 \<le> n" and rn: "roundToDouble n = Num n" by simp_all
  from assms rn n0 show "minLimit (Num 0) q = Inr \<lfloor>n\<rfloor>" "maxLimit (Num 0) q = Inr \<lfloor>n\<rfloor>"
    by (simp_all add: minLimit_def maxLimit_def jsSub_def trunc_def)
qed

lemma limits_defined:
  assumes "0 \<le> t" and "t \<le> 1" and "q < 2 ^ 256"
  shows "\<exists>lo hi. minLimit (Num t) q = Inr lo \<and> maxLimit (Num t) q = Inr hi"
proof -
  from assms(3) have "(of_nat q :: rat) < of_nat (2 ^ 256)" by (simp only: of_nat_less_iff)
  then have q: "(of_nat q :: rat) \<le> 2 ^ 256" by simp
  from roundToDouble_finite_le [OF _ q roundToDouble_pow2_256]
  obtain n where n: "toNumber q = Num n" by (auto simp: toNumber_def)
  then have rq: "roundToDouble (of_nat q) = Num n" by (simp add: toNumber_def)
  from roundToDouble_mono [OF q rq roundToDouble_pow2_256] have nle: "n \<le> 2 ^ 256" .
  from toNumber_Num [OF n] have n0: "0 \<le> n" and rn: "roundToDouble n = Num n" by simp_all
  from assms(1,2) have s: "0 \<le> 1 - t" "1 - t \<le> 1" by simp_all
  from roundToDouble_finite_le [OF s roundToDouble_one]
  obtain f where f: "roundToDouble (1 - t) = Num f" by blast
  from roundToDouble_sign [OF f] s(1) have f0: "0 \<le> f" by simp
  from roundToDouble_mono [OF s(2) f roundToDouble_one] have f1: "f \<le> 1" .
  from n0 f0 have nf0: "0 \<le> n * f" by simp
  from n0 f1 have nf: "n * f \<le> n" by (simp add: mult_left_le)
  from roundToDouble_finite_le [OF nf0 nf rn]
  obtain w where w: "roundToDouble (n * f) = Num w" by blast
  from assms(1,2) have a: "0 \<le> 1 + t" "1 + t \<le> 2" by simp_all
  from roundToDouble_finite_le [OF a roundToDouble_two]
  obtain g where g: "roundToDouble (1 + t) = Num g" by blast
  from roundToDouble_sign [OF g] a(1) have g0: "0 \<le> g" by simp
  from roundToDouble_mono [OF a(2) g roundToDouble_two] have g2: "g \<le> 2" .
  from n0 g0 have ng0: "0 \<le> n * g" by simp
  from n0 g2 have "n * g \<le> n * 2" by (rule mult_left_mono [rotated])
  also from nle have "n * 2 \<le> 2 ^ 256 * 2" by (rule mult_right_mono) simp
  also have "(2 ^ 256 * 2 :: rat) = 2 ^ 257" by simp
  finally have ng: "n * g \<le> 2 ^ 257" .
  from roundToDouble_finite_le [OF ng0 ng roundToDouble_pow2_257]
  obtain v where v: "roundToDouble (n * g) = Num v" by blast
  from n f w g v show ?thesis
    by (simp add: minLimit_def maxLimit_def jsSub_def)
qed


subsection \<open>Numbers of the sample deployment\<close>

text \<open>
  The numbers 0.02, 0.98 and 1.02 as doubles, and the products and bounds that the
  examples below use, each with the significand and exponent that rounding selects.
\<close>

lemma sample_tolerance: "roundToDouble (1 / 50) = Num (5764607523034235 / 288230376151711744)"
  by (rule roundToDouble_near [where k = "- 6" and e = "- 58" and m = 5764607523034235])
     simp_all

lemma sample_factors:
  "jsSub (Num 1) (Num (5764607523034235 / 288230376151711744)) =
     Num (2206763817411543 / 2251799813685248)"
  "jsAdd (Num 1) (Num (5764607523034235 / 288230376151711744)) =
     Num (2296835809958953 / 2251799813685248)"
proof -
  have "roundToDouble (1 - 5764607523034235 / 288230376151711744) =
      Num (2206763817411543 / 2251799813685248)"
    by (rule roundToDouble_near [where k = "- 1" and e = "- 53" and m = 8827055269646172])
       simp_all
  then show "jsSub (Num 1) (Num (5764607523034235 / 288230376151711744)) =
     Num (2206763817411543 / 2251799813685248)"
    by (simp add: jsSub_def)
  have "roundToDouble (1 + 5764607523034235 / 288230376151711744) =
      Num (2296835809958953 / 2251799813685248)"
    by (rule roundToDouble_near [where k = 0 and e = "- 52" and m = 4593671619917906])
       simp_all
  then show "jsAdd (Num 1) (Num (5764607523034235 / 288230376151711744)) =
     Num (2296835809958953 / 2251799813685248)"
    by simp
qed

lemma sample_quotes:
  "toNumber 2000000000000000000 = Num 2000000000000000000"
  "toNumber 3000000000000000000 = Num 3000000000000000000"
  "toNumber 7000000000000000000 = Num 7000000000000000000"
  "toNumber 1000000000000000001 = Num 1000000000000000000"
  "toNumber 1 = Num 1"
  unfolding toNumber_def
      apply (rule roundToDouble_near [where k = 60 and e = 8 and m = 7812500000000000]; simp)
     apply (rule roundToDouble_near [where k = 61 and e = 9 and m = 5859375000000000]; simp)
    apply (rule roundToDouble_near [where k = 62 and e = 10 and m = 6835937500000000]; simp)
   apply (rule roundToDouble_near [where k = 59 and e = 7 and m = 7812500000000000]; simp)
  apply simp
  done

lemma sample_products:
  "jsMul (Num 2000000000000000000) (Num (2206763817411543 / 2251799813685248)) =
     Num 1960000000000000000"
  "jsMul (Num 3000000000000000000) (Num (2296835809958953 / 2251799813685248)) =
     Num 3060000000000000000"
  "jsMul (Num 7000000000000000000) (Num (2206763817411543 / 2251799813685248)) =
     Num 6860000000000000000"
  unfolding jsMul.simps
    apply (rule roundToDouble_near [where k = 60 and e = 8 and m = 7656250000000000]; simp)
   apply (rule roundToDouble_near [where k = 61 and e = 9 and m = 5976562500000000]; simp)
  apply (rule roundToDouble_near [where k = 62 and e = 10 and m = 6699218750000000]; simp)
  done

lemma sample_limits:
  "minLimit (roundToDouble (1 / 50)) 2000000000000000000 = Inr 1960000000000000000"
  "maxLimit (roundToDouble (1 / 50)) 3000000000000000000 = Inr 3060000000000000000"
  "minLimit (roundToDouble (1 / 50)) 7000000000000000000 = Inr 6860000000000000000"
  unfolding minLimit_def maxLimit_def
  by (simp_all only: sample_tolerance sample_factors sample_quotes sample_products)
     (simp_all add: trunc_def)

lemma sample_half:
  "maxLimit (Num (1 / 2)) 1 = Inr 1"
  "minLimit (Num (1 / 2)) 0 = Inr 0"
  "minLimit (Num 0) 1000000000000000001 = Inr 1000000000000000000"
proof -
  have "roundToDouble (3 / 2) = Num (3 / 2)"
    by (rule roundToDouble_near [where k = 0 and e = "- 52" and m = 6755399441055744]) simp_all
  then have "jsMul (Num 1) (jsAdd (Num 1) (Num (1 / 2))) = Num (3 / 2)" by simp
  then show "maxLimit (Num (1 / 2)) 1 = Inr 1"
    unfolding maxLimit_def
    by (simp only: sample_quotes) (simp add: trunc_def floor_eq_iff)
  have "roundToDouble (1 / 2) = Num (1 / 2)"
    by (rule roundToDouble_near [where k = "- 1" and e = "- 53" and m = 4503599627370496])
       simp_all
  then show "minLimit (Num (1 / 2)) 0 = Inr 0"
    by (simp add: minLimit_def jsSub_def trunc_def)
  from limit_zero_tolerance(1) [OF sample_quotes(4)]
  show "minLimit (Num 0) 1000000000000000001 = Inr 1000000000000000000" by simp
qed

lemma sample_milli:
  "roundToDouble (1 / 1000) = Num (1152921504606847 / 1152921504606846976)"
  "maxLimit (Num (1152921504606847 / 1152921504606846976)) 1000 = Inr 1000"
  "trunc (of_nat 1000 * (1 + 1152921504606847 / 1152921504606846976)) = 1001"
proof -
  show "roundToDouble (1 / 1000) = Num (1152921504606847 / 1152921504606846976)"
    by (rule roundToDouble_near [where k = "- 10" and e = "- 62" and m = 4611686018427388])
       simp_all
  have f: "jsAdd (Num 1) (Num (1152921504606847 / 1152921504606846976)) =
      Num (2254051613498933 / 2251799813685248)"
    unfolding jsAdd.simps
    by (rule roundToDouble_near [where k = 0 and e = "- 52" and m = 4508103226997866]) simp_all
  have q: "toNumber 1000 = Num 1000"
    using toNumber_small [of 1000] by simp
  have p: "jsMul (Num 1000) (Num (2254051613498933 / 2251799813685248)) =
      Num (8804889115230207 / 8796093022208)"
    unfolding jsMul.simps
    by (rule roundToDouble_near [where k = 9 and e = "- 43" and m = 8804889115230207]) simp_all
  show "maxLimit (Num (1152921504606847 / 1152921504606846976)) 1000 = Inr 1000"
    unfolding maxLimit_def
    by (simp only: f q p) (simp add: trunc_def floor_eq_iff)
  show "trunc (of_nat 1000 * (1 + 1152921504606847 / 1152921504606846976)) = 1001"
    by (simp add: trunc_def floor_eq_iff)
qed

lemma sample_tiny: "minLimit (Num (1 / 2 ^ 60)) 1 = Inr 1"
proof -
  have "roundToDouble (1 - 1 / 2 ^ 60) = Num 1"
    by (rule roundToDouble_near [where k = "- 1" and e = "- 53" and m = 9007199254740992])
       simp_all
  then have "jsSub (Num 1) (Num (1 / 2 ^ 60)) = Num 1" by (simp add: jsSub_def)
  then show ?thesis
    unfolding minLimit_def by (simp only: sample_quotes) (simp add: trunc_def)
qed

subsection \<open>Quotes and their memo\<close>

lemma getBuyAmount_Inr:
  assumes "getBuyAmount e buyToken payToken sellAmount s = (Inr q, s')"
  shows "\<exists>buyAddress payAddress v.
           getTokenAddress e buyToken = Inr buyAddress \<and>
           getTokenAddress e payToken = Inr payAddress \<and>
           valueForContract e sellAmount buyToken = Inr v \<and>
           otc_getBuyAmount e buyAddress payAddress v = Inr q \<and>
           s' = s\<lparr>calls := calls s @ [OtcGetBuyAmount buyAddress payAddress v],
                   this_buyAmount := Some q\<rparr>"
  using assms
  by (auto simp: getBuyAmount_def run_simps split: sum.splits)

lemma getPayAmount_Inr:
  assumes "getPayAmount e payToken buyToken buyAmount s = (Inr q, s')"
  shows "\<exists>payAddress buyAddress v.
           getTokenAddress e payToken = Inr payAddress \<and>
           getTokenAddress e buyToken = Inr buyAddress \<and>
           valueForContract e buyAmount buyToken = Inr v \<and>
           otc_getPayAmount e payAddress buyAddress v = Inr q \<and>
           s' = s\<lparr>calls := calls s @ [OtcGetPayAmount payAddress buyAddress v],
                   this_payAmount := Some q\<rparr>"
  using assms
  by (auto simp: getPayAmount_def run_simps split: sum.splits)

lemma getBuyAmount_run:
  assumes "getTokenAddress e buyToken = Inr buyAddress"
    and "getTokenAddress e payToken = Inr payAddress"
    and "valueForContract e sellAmount buyToken = Inr v"
  shows "getBuyAmount e buyToken payToken sellAmount s =
           (case otc_getBuyAmount e buyAddress payAddress v of
              Inl err \<Rightarrow> (Inl err, s\<lparr>calls := calls s @ [OtcGetBuyAmount buyAddress payAddress v]\<rparr>)
            | Inr q \<Rightarrow> (Inr q, s\<lparr>calls := calls s @ [OtcGetBuyAmount buyAddress payAddress v],
                                   this_buyAmount := Some q\<rparr>))"
  using assms by (simp add: getBuyAmount_def run_simps split: sum.splits)

lemma getPayAmount_run:
  assumes "getTokenAddress e payToken = Inr payAddress"
    and "getTokenAddress e buyToken = Inr buyAddress"
    and "valueForContract e buyAmount buyToken = Inr v"
  shows "getPayAmount e payToken buyToken buyAmount s =
           (case otc_getPayAmount e payAddress buyAddress v of
              Inl err \<Rightarrow> (Inl err, s\<lparr>calls := calls s @ [OtcGetPayAmount payAddress buyAddress v]\<rparr>)
            | Inr q \<Rightarrow> (Inr q, s\<lparr>calls := calls s @ [OtcGetPayAmount payAddress buyAddress v],
                                   this_payAmount := Some q\<rparr>))"
  using assms by (simp add: getPayAmount_def run_simps split: sum.splits)

lemma minBuyAmount_memo:
  assumes "this_buyAmount s = Some q"
  shows "minBuyAmount e buyToken payToken payAmount s = (minLimit (this_slippage s) q, s)"
  by (cases "jsMul (toNumber q) (jsSub (Num 1) (this_slippage s))")
     (simp_all add: minBuyAmount_def run_simps Let_def minLimit_def assms)

lemma maxPayAmount_memo:
  assumes "this_payAmount s = Some q"
  shows "maxPayAmount e payToken buyToken buyAmount s = (maxLimit (this_slippage s) q, s)"
  by (cases "jsMul (toNumber q) (jsAdd (Num 1) (this_slippage s))")
     (simp_all add: maxPayAmount_def run_simps Let_def maxLimit_def assms)

lemma minBuyAmount_query:
  assumes "this_buyAmount s = None"
  shows "minBuyAmount e buyToken payToken payAmount s =
     (case getBuyAmount e buyToken payToken payAmount s of
        (Inl err, s') \<Rightarrow> (Inl err, s')
      | (Inr q, s') \<Rightarrow> (minLimit (this_slippage s') q, s'))"
proof (cases "getBuyAmount e buyToken payToken payAmount s")
  case (Pair r s')
  show ?thesis
  proof (cases r)
    case (Inl err)
    with Pair assms show ?thesis by (simp add: minBuyAmount_def run_simps Let_def)
  next
    case (Inr q)
    with Pair assms show ?thesis
      by (cases "jsMul (toNumber q) (jsSub (Num 1) (this_slippage s'))")
         (simp_all add: minBuyAmount_def run_simps Let_def minLimit_def)
  qed
qed

lemma maxPayAmount_query:
  assumes "this_payAmount s = None"
  shows "maxPayAmount e payToken buyToken buyAmount s =
     (case getPayAmount e payToken buyToken buyAmount s of
        (Inl err, s') \<Rightarrow> (Inl err, s')
      | (Inr q, s') \<Rightarrow> (maxLimit (this_slippage s') q, s'))"
proof (cases "getPayAmount e payToken buyToken buyAmount s")
  case (Pair r s')
  show ?thesis
  proof (cases r)
    case (Inl err)
    with Pair assms show ?thesis by (simp add: maxPayAmount_def run_simps Let_def)
  next
    case (Inr q)
    with Pair assms show ?thesis
      by (cases "jsMul (toNumber q) (jsAdd (Num 1) (this_slippage s'))")
         (simp_all add: maxPayAmount_def run_simps Let_def maxLimit_def)
  qed
qed

lemma minBuyAmount_run:
  "minBuyAmount e buyToken payToken payAmount s =
     (case this_buyAmount s of
        Some q \<Rightarrow> (minLimit (this_slippage s) q, s)
      | None \<Rightarrow>
          (case getBuyAmount e buyToken payToken payAmount s of
             (Inl err, s') \<Rightarrow> (Inl err, s')
           | (Inr q, s') \<Rightarrow> (minLimit (this_slippage s') q, s')))"
  by (cases "this_buyAmount s") (simp_all add: minBuyAmount_memo minBuyAmount_query)

lemma maxPayAmount_run:
  "maxPayAmount e payToken buyToken buyAmount s =
     (case this_payAmount s of
        Some q \<Rightarrow> (maxLimit (this_slippage s) q, s)
      | None \<Rightarrow>
          (case getPayAmount e payToken buyToken buyAmount s of
             (Inl err, s') \<Rightarrow> (Inl err, s')
           | (Inr q, s') \<Rightarrow> (maxLimit (this_slippage s') q, s')))"
  by (cases "this_payAmount s") (simp_all add: maxPayAmount_memo maxPayAmount_query)

lemma minBuyAmount_Inr:
  assumes "minBuyAmount e buyToken payToken payAmount s = (Inr lo, s')"
  shows "\<exists>q. this_buyAmount s' = Some q \<and> this_slippage s' = this_slippage s \<and>
             minLimit (this_slippage s) q = Inr lo \<and>
             (this_buyAmount s = Some q \<and> s' = s \<or>
              this_buyAmount s = None \<and>
              getBuyAmount e buyToken payToken payAmount s = (Inr q, s'))"
proof (cases "this_buyAmount s")
  case (Some q)
  with assms show ?thesis by (auto simp: minBuyAmount_memo)
next
  case None
  with assms obtain q where q: "getBuyAmount e buyToken payToken payAmount s = (Inr q, s')"
      and lo: "minLimit (this_slippage s') q = Inr lo"
    by (auto simp: minBuyAmount_query split: prod.splits sum.splits)
  from getBuyAmount_Inr [OF q] have "this_buyAmount s' = Some q" "this_slippage s' = this_slippage s"
    by auto
  with q lo None show ?thesis by simp
qed

lemma maxPayAmount_Inr:
  assumes "maxPayAmount e payToken buyToken buyAmount s = (Inr hi, s')"
  shows "\<exists>q. this_payAmount s' = Some q \<and> this_slippage s' = this_slippage s \<and>
             maxLimit (this_slippage s) q = Inr hi \<and>
             (this_payAmount s = Some q \<and> s' = s \<or>
              this_payAmount s = None \<and>
              getPayAmount e payToken buyToken buyAmount s = (Inr q, s'))"
proof (cases "this_payAmount s")
  case (Some q)
  with assms show ?thesis by (auto simp: maxPayAmount_memo)
next
  case None
  with assms obtain q where q: "getPayAmount e payToken buyToken buyAmount s = (Inr q, s')"
      and hi: "maxLimit (this_slippage s') q = Inr hi"
    by (auto simp: maxPayAmount_query split: prod.splits sum.splits)
  from getPayAmount_Inr [OF q] have "this_payAmount s' = Some q" "this_slippage s' = this_slippage s"
    by auto
  with q hi None show ?thesis by simp
qed

text \<open>Unfolding the model on a concrete deployment.\<close>

lemmas model_defs = getBuyAmount_def getPayAmount_def minBuyAmount_run maxPayAmount_run
  checkProxy_def buildParams_def buildOptions_def sell_def buy_def setMethod_def
  getTokenAddress_def valueForContract_def otc_def otcProxy_def
  getCurrency_def trunc_def toUpperCase_def toLowerCase_def charAt_def slice_def Let_def
lemmas sample_defs = env0_def tokens0_def contracts0_def state0_def sample_limits

subsection \<open>The two public methods, step by step\<close>

lemma checkProxy_cases:
  "checkProxy e sellCurrency s =
     (case currentProxy e of
        Inl err \<Rightarrow> (Inl err, s\<lparr>calls := calls s @ [CurrentProxy]\<rparr>)
      | Inr p \<Rightarrow>
          if truthy p then (Inr p, s\<lparr>calls := calls s @ [CurrentProxy]\<rparr>)
          else if sellCurrency \<noteq> ''ETH''
            then (ensureProxy e, s\<lparr>calls := calls s @ [CurrentProxy, EnsureProxy]\<rparr>)
          else (Inr (JBool False), s\<lparr>calls := calls s @ [CurrentProxy]\<rparr>))"
  by (simp add: checkProxy_def run_simps split: sum.splits)

lemma sell_run:
  assumes "checkProxy e sell' s = (Inr proxy, s0)"
    and "minBuyAmount e (if buy' = ''ETH'' then ''WETH'' else buy')
           (if sell' = ''ETH'' then ''WETH'' else sell') amount s0 = (Inr limit, s1)"
    and "buildParams e (if sell' = ''ETH'' then ''WETH'' else sell') amount
           (if buy' = ''ETH'' then ''WETH'' else buy') limit
           (setMethod sell' buy' ''sellAllAmount'' proxy) = Inr params"
    and "buildOptions e amount sell' (setMethod sell' buy' ''sellAllAmount'' proxy) None =
           Inr opts"
    and "ord = OtcSellOrder (otcProxy e) (setMethod sell' buy' ''sellAllAmount'' proxy) params
           (if (if buy' = ''ETH'' then ''WETH'' else buy') = ''DAI'' then DAI else WETH) opts"
    and "ra = RequireAllowance (if sell' = ''ETH'' then ''WETH'' else sell') proxy"
  shows "sell e sell' buy' amount s =
     (if truthy proxy then
        (case requireAllowance e (if sell' = ''ETH'' then ''WETH'' else sell') proxy of
           Inl err \<Rightarrow> (Inl err, s1\<lparr>calls := calls s1 @ [ra]\<rparr>)
         | Inr u \<Rightarrow> (Inr ord, s1\<lparr>calls := calls s1 @ [ra, Build ord]\<rparr>))
      else (Inr ord, s1\<lparr>calls := calls s1 @ [Build ord]\<rparr>))"
  using assms
  by (simp add: sell_def run_simps Let_def split: sum.splits)

lemma buy_run:
  assumes "checkProxy e sell' s = (Inr proxy, s0)"
    and "maxPayAmount e (if sell' = ''ETH'' then ''WETH'' else sell')
           (if buy' = ''ETH'' then ''WETH'' else buy') amount s0 = (Inr limit, s1)"
    and "buildParams e (if buy' = ''ETH'' then ''WETH'' else buy') amount
           (if sell' = ''ETH'' then ''WETH'' else sell') limit
           (setMethod sell' buy' ''buyAllAmount'' proxy) = Inr params"
    and "buildOptions e amount sell' (setMethod sell' buy' ''buyAllAmount'' proxy) (Some limit) =
           Inr opts"
    and "ord = OtcBuyOrder (otcProxy e) (setMethod sell' buy' ''buyAllAmount'' proxy) params opts"
    and "ra = RequireAllowance (if sell' = ''ETH'' then ''WETH'' else sell') proxy"
  shows "buy e buy' sell' amount s =
     (if truthy proxy then
        (case requireAllowance e (if sell' = ''ETH'' then ''WETH'' else sell') proxy of
           Inl err \<Rightarrow> (Inl err, s1\<lparr>calls := calls s1 @ [ra]\<rparr>)
         | Inr u \<Rightarrow> (Inr ord, s1\<lparr>calls := calls s1 @ [ra, Build ord]\<rparr>))
      else (Inr ord, s1\<lparr>calls := calls s1 @ [Build ord]\<rparr>))"
  using assms
  by (simp add: buy_def run_simps Let_def split: sum.splits)

lemma sell_Inr:
  assumes "sell e sell' buy' amount s = (Inr ord, s')"
  shows "\<exists>proxy s0 limit s1 params opts.
           checkProxy e sell' s = (Inr proxy, s0) \<and>
           minBuyAmount e (if buy' = ''ETH'' then ''WETH'' else buy')
             (if sell' = ''ETH'' then ''WETH'' else sell') amount s0 = (Inr limit, s1) \<and>
           buildParams e (if sell' = ''ETH'' then ''WETH'' else sell') amount
             (if buy' = ''ETH'' then ''WETH'' else buy') limit
             (setMethod sell' buy' ''sellAllAmount'' proxy) = Inr params \<and>
           buildOptions e amount sell' (setMethod sell' buy' ''sellAllAmount'' proxy) None =
             Inr opts \<and>
           ord = OtcSellOrder (otcProxy e) (setMethod sell' buy' ''sellAllAmount'' proxy) params
             (if (if buy' = ''ETH'' then ''WETH'' else buy') = ''DAI'' then DAI else WETH) opts"
  using assms
  by (auto simp: sell_def run_simps Let_def split: sum.splits prod.splits if_splits)

lemma buy_Inr:
  assumes "buy e buy' sell' amount s = (Inr ord, s')"
  shows "\<exists>proxy s0 limit s1 params opts.
           checkProxy e sell' s = (Inr proxy, s0) \<and>
           maxPayAmount e (if sell' = ''ETH'' then ''WETH'' else sell')
             (if buy' = ''ETH'' then ''WETH'' else buy') amount s0 = (Inr limit, s1) \<and>
           buildParams e (if buy' = ''ETH'' then ''WETH'' else buy') amount
             (if sell' = ''ETH'' then ''WETH'' else sell') limit
             (setMethod sell' buy' ''buyAllAmount'' proxy) = Inr params \<and>
           buildOptions e amount sell' (setMethod sell' buy' ''buyAllAmount'' proxy)
             (Some limit) = Inr opts \<and>
           ord = OtcBuyOrder (otcProxy e) (setMethod sell' buy' ''buyAllAmount'' proxy) params
             opts"
  using assms
  by (auto simp: buy_def run_simps Let_def split: sum.splits prod.splits if_splits)

subsection \<open>Invariants of the instance state\<close>

text \<open>
  A predicate on the instance that survives every step of a method survives the method,
  whether it ends with an order or with an error.
\<close>

lemma andThen_inv:
  assumes "I s"
    and "\<And>s. I s \<Longrightarrow> I (snd (m s))"
    and "\<And>x s. I s \<Longrightarrow> I (snd (f x s))"
  shows "I (snd (andThen m f s))"
proof (cases "m s")
  case (Pair r s')
  with assms(2) [OF assms(1)] have s': "I s'" by simp
  show ?thesis
  proof (cases r)
    case (Inl err)
    with Pair s' show ?thesis by (simp add: andThen_apply)
  next
    case (Inr x)
    with Pair assms(3) [OF s', of x] show ?thesis by (simp add: andThen_apply)
  qed
qed

lemma checkProxy_inv:
  assumes "I s"
    and "\<And>s. I s \<Longrightarrow> I (s\<lparr>calls := calls s @ [CurrentProxy]\<rparr>)"
    and "\<And>s. I s \<Longrightarrow> I (s\<lparr>calls := calls s @ [EnsureProxy]\<rparr>)"
  shows "I (snd (checkProxy e sellCurrency s))"
proof -
  have two: "I (s\<lparr>calls := calls s @ [CurrentProxy, EnsureProxy]\<rparr>)"
    using assms(3) [OF assms(2) [OF assms(1)]] by simp
  show ?thesis
    using assms(2) [OF assms(1)] two
    by (simp add: checkProxy_cases split: sum.splits)
qed

lemma getBuyAmount_inv:
  assumes "I s"
    and "\<And>s a b v. I s \<Longrightarrow> I (s\<lparr>calls := calls s @ [OtcGetBuyAmount a b v]\<rparr>)"
    and "\<And>s q. I s \<Longrightarrow> I (s\<lparr>this_buyAmount := Some q\<rparr>)"
  shows "I (snd (getBuyAmount e buyToken payToken sellAmount s))"
  using assms
  by (simp add: getBuyAmount_def run_simps split: sum.splits)

lemma getPayAmount_inv:
  assumes "I s"
    and "\<And>s a b v. I s \<Longrightarrow> I (s\<lparr>calls := calls s @ [OtcGetPayAmount a b v]\<rparr>)"
    and "\<And>s q. I s \<Longrightarrow> I (s\<lparr>this_payAmount := Some q\<rparr>)"
  shows "I (snd (getPayAmount e payToken buyToken buyAmount s))"
  using assms
  by (simp add: getPayAmount_def run_simps split: sum.splits)

lemma minBuyAmount_inv:
  assumes "I s"
    and "\<And>s a b v. I s \<Longrightarrow> I (s\<lparr>calls := calls s @ [OtcGetBuyAmount a b v]\<rparr>)"
    and "\<And>s q. I s \<Longrightarrow> I (s\<lparr>this_buyAmount := Some q\<rparr>)"
  shows "I (snd (minBuyAmount e buyToken payToken payAmount s))"
proof (cases "this_buyAmount s")
  case (Some q)
  with assms(1) show ?thesis by (simp add: minBuyAmount_memo)
next
  case None
  with getBuyAmount_inv [of I s e buyToken payToken payAmount, OF assms]
  show ?thesis
    by (auto simp: minBuyAmount_query split: prod.splits sum.splits)
qed

lemma maxPayAmount_inv:
  assumes "I s"
    and "\<And>s a b v. I s \<Longrightarrow> I (s\<lparr>calls := calls s @ [OtcGetPayAmount a b v]\<rparr>)"
    and "\<And>s q. I s \<Longrightarrow> I (s\<lparr>this_payAmount := Some q\<rparr>)"
  shows "I (snd (maxPayAmount e payToken buyToken buyAmount s))"
proof (cases "this_payAmount s")
  case (Some q)
  with assms(1) show ?thesis by (simp add: maxPayAmount_memo)
next
  case None
  with getPayAmount_inv [of I s e payToken buyToken buyAmount, OF assms]
  show ?thesis
    by (auto simp: maxPayAmount_query split: prod.splits sum.splits)
qed

lemma sell_inv:
  assumes "I s"
    and "\<And>s. I s \<Longrightarrow> I (s\<lparr>calls := calls s @ [CurrentProxy]\<rparr>)"
    and "\<And>s. I s \<Longrightarrow> I (s\<lparr>calls := calls s @ [EnsureProxy]\<rparr>)"
    and "\<And>s tok proxy. I s \<Longrightarrow> I (s\<lparr>calls := calls s @ [RequireAllowance tok proxy]\<rparr>)"
    and "\<And>s ord. I s \<Longrightarrow> I (s\<lparr>calls := calls s @ [Build ord]\<rparr>)"
    and "\<And>s b p a. I s \<Longrightarrow> I (snd (minBuyAmount e b p a s))"
  shows "I (snd (sell e sell' buy' amount s))"
  unfolding sell_def Let_def
  apply (rule andThen_inv [where I = I, OF assms(1)])
   apply (erule checkProxy_inv [where I = I]; erule assms)
  apply (rule andThen_inv [where I = I], assumption)
   apply (erule assms)
  apply (rule andThen_inv [where I = I], assumption)
   apply (simp add: sync_apply)
  apply (rule andThen_inv [where I = I], assumption)
   apply (simp add: sync_apply)
  apply (rule andThen_inv [where I = I], assumption)
   apply (simp add: run_simps assms(4))
  apply (simp add: run_simps assms(5))
  done

lemma buy_inv:
  assumes "I s"
    and "\<And>s. I s \<Longrightarrow> I (s\<lparr>calls := calls s @ [CurrentProxy]\<rparr>)"
    and "\<And>s. I s \<Longrightarrow> I (s\<lparr>calls := calls s @ [EnsureProxy]\<rparr>)"
    and "\<And>s tok proxy. I s \<Longrightarrow> I (s\<lparr>calls := calls s @ [RequireAllowance tok proxy]\<rparr>)"
    and "\<And>s ord. I s \<Longrightarrow> I (s\<lparr>calls := calls s @ [Build ord]\<rparr>)"
    and "\<And>s p b a. I s \<Longrightarrow> I (snd (maxPayAmount e p b a s))"
  shows "I (snd (buy e buy' sell' amount s))"
  unfolding buy_def Let_def
  apply (rule andThen_inv [where I = I, OF assms(1)])
   apply (erule checkProxy_inv [where I = I]; erule assms)
  apply (rule andThen_inv [where I = I], assumption)
   apply (erule assms)
  apply (rule andThen_inv [where I = I], assumption)
   apply (simp add: sync_apply)
  apply (rule andThen_inv [where I = I], assumption)
   apply (simp add: sync_apply)
  apply (rule andThen_inv [where I = I], assumption)
   apply (simp add: run_simps assms(4))
  apply (simp add: run_simps assms(5))
  done

lemma sell_keeps_buy_memo:
  assumes "this_buyAmount s = Some q"
  shows "this_buyAmount (snd (sell e sell' buy' amount s)) = Some q \<and>
         filter isBuyQuery (calls (snd (sell e sell' buy' amount s))) =
           filter isBuyQuery (calls s)"
  by (rule sell_inv [where I = "\<lambda>s'. this_buyAmount s' = Some q \<and>
        filter isBuyQuery (calls s') = filter isBuyQuery (calls s)"])
     (simp_all add: assms minBuyAmount_memo)

lemma buy_keeps_pay_memo:
  assumes "this_payAmount s = Some q"
  shows "this_payAmount (snd (buy e buy' sell' amount s)) = Some q \<and>
         filter isPayQuery (calls (snd (buy e buy' sell' amount s))) =
           filter isPayQuery (calls s)"
  by (rule buy_inv [where I = "\<lambda>s'. this_payAmount s' = Some q \<and>
        filter isPayQuery (calls s') = filter isPayQuery (calls s)"])
     (simp_all add: assms maxPayAmount_memo)

lemma sell_keeps_pay_memo:
  assumes "this_payAmount s = Some q"
  shows "this_payAmount (snd (sell e sell' buy' amount s)) = Some q"
proof (rule sell_inv [where I = "\<lambda>s'. this_payAmount s' = Some q"])
  fix s' :: state and b p a
  assume "this_payAmount s' = Some q"
  then show "this_payAmount (snd (minBuyAmount e b p a s')) = Some q"
    by (rule minBuyAmount_inv [where I = "\<lambda>s'. this_payAmount s' = Some q"]) simp_all
qed (simp_all add: assms)

lemma buy_keeps_buy_memo:
  assumes "this_buyAmount s = Some q"
  shows "this_buyAmount (snd (buy e buy' sell' amount s)) = Some q"
proof (rule buy_inv [where I = "\<lambda>s'. this_buyAmount s' = Some q"])
  fix s' :: state and b p a
  assume "this_buyAmount s' = Some q"
  then show "this_buyAmount (snd (maxPayAmount e p b a s')) = Some q"
    by (rule maxPayAmount_inv [where I = "\<lambda>s'. this_buyAmount s' = Some q"]) simp_all
qed (simp_all add: assms)

lemma getPayAmount_keeps_buy_memo:
  "this_buyAmount (snd (getPayAmount e payToken buyToken amount s)) = this_buyAmount s"
  by (rule getPayAmount_inv [where I = "\<lambda>s'. this_buyAmount s' = this_buyAmount s"]) simp_all

lemma getBuyAmount_keeps_pay_memo:
  "this_payAmount (snd (getBuyAmount e buyToken payToken amount s)) = this_payAmount s"
  by (rule getBuyAmount_inv [where I = "\<lambda>s'. this_payAmount s' = this_payAmount s"]) simp_all

lemma state1_eq:
  "state1 = state0\<lparr>this_buyAmount := Some 2000000000000000000,
      calls := [CurrentProxy, OtcGetBuyAmount ''0xDA1'' ''0xE78'' 1000000000000000000,
        Build (OtcSellOrder (contracts0 ''OASIS_PROXY'') ''createAndSellAllAmountPayEth''
          [PAddr ''0xPROXY_REGISTRY'', PAddr ''0xMAKER_OTC'', PAddr ''0xDA1'',
           PAmount 1960000000000000000] DAI
          \<lparr>opt_otc = contracts0 ''MAKER_OTC'', opt_dsProxy = None,
             opt_value = Some 1000000000000000000\<rparr>)]\<rparr>"
  by (simp add: state1_def model_defs run_simps sample_defs)

subsection \<open>The method selector\<close>

lemma capitalized_source:
  "toUpperCase (charAt m 0) @ slice m 1 @ rest = capitalized m @ rest"
  by (cases m) (simp_all add: capitalized_def charAt_def slice_def toUpperCase_def)

lemma setMethod_sellAllAmount:
  "setMethod sell' buy' ''sellAllAmount'' proxy =
     (if buy' = ''ETH'' then ''sellAllAmountBuyEth''
      else if sell' = ''ETH'' \<and> \<not> truthy proxy then ''createAndSellAllAmountPayEth''
      else if sell' = ''ETH'' then ''sellAllAmountPayEth''
      else ''sellAllAmount'')"
  by (simp add: setMethod_def toUpperCase_def charAt_def slice_def)

lemma setMethod_buyAllAmount:
  "setMethod sell' buy' ''buyAllAmount'' proxy =
     (if buy' = ''ETH'' then ''buyAllAmountBuyEth''
      else if sell' = ''ETH'' \<and> \<not> truthy proxy then ''createAndBuyAllAmountPayEth''
      else if sell' = ''ETH'' then ''buyAllAmountPayEth''
      else ''buyAllAmount'')"
  by (simp add: setMethod_def toUpperCase_def charAt_def slice_def)

text \<open>
  C1. The method selector follows its decision table, first match first: the base name
  followed by \<^verbatim>\<open>BuyEth\<close> when the buy asset is ETH; otherwise \<^verbatim>\<open>createAnd\<close>, the
  capitalized base name and \<^verbatim>\<open>PayEth\<close> when the sell asset is ETH and the proxy handle
  is falsy; otherwise the base name followed by \<^verbatim>\<open>PayEth\<close> when the sell asset is ETH;
  otherwise the base name unchanged. The result is always one of these four names; for
  the two base names the service uses, each selected name falls under one of the five
  argument shapes of \<^verbatim>\<open>_buildParams\<close>.
\<close>

theorem setMethod_decision_table:
  "(buy' = ''ETH'' \<longrightarrow> setMethod sell' buy' m proxy = m @ ''BuyEth'') \<and>
   (buy' \<noteq> ''ETH'' \<and> sell' = ''ETH'' \<and> \<not> truthy proxy \<longrightarrow>
      setMethod sell' buy' m proxy = ''createAnd'' @ capitalized m @ ''PayEth'') \<and>
   (buy' \<noteq> ''ETH'' \<and> sell' = ''ETH'' \<and> truthy proxy \<longrightarrow>
      setMethod sell' buy' m proxy = m @ ''PayEth'') \<and>
   (buy' \<noteq> ''ETH'' \<and> sell' \<noteq> ''ETH'' \<longrightarrow> setMethod sell' buy' m proxy = m) \<and>
   setMethod sell' buy' m proxy \<in>
     {m @ ''BuyEth'', ''createAnd'' @ capitalized m @ ''PayEth'', m @ ''PayEth'', m} \<and>
   setMethod sell' buy' ''sellAllAmount'' proxy \<in>
     {''sellAllAmountBuyEth'', ''createAndSellAllAmountPayEth'', ''sellAllAmountPayEth'',
      ''sellAllAmount''} \<and>
   setMethod sell' buy' ''buyAllAmount'' proxy \<in>
     {''buyAllAmountBuyEth'', ''createAndBuyAllAmountPayEth'', ''buyAllAmountPayEth'',
      ''buyAllAmount''} \<and>
   shapeOf (setMethod sell' buy' ''sellAllAmount'' proxy) \<in>
     {CreateAndSellAllAmountPayEth, SellAllAmountPayEth, DefaultShape} \<and>
   shapeOf (setMethod sell' buy' ''buyAllAmount'' proxy) \<in>
     {CreateAndBuyAllAmountPayEth, BuyAllAmountPayEth, DefaultShape}"
proof -
  have rows: "setMethod sell' buy' m proxy =
      (if buy' = ''ETH'' then m @ ''BuyEth''
       else if sell' = ''ETH'' \<and> \<not> truthy proxy then ''createAnd'' @ capitalized m @ ''PayEth''
       else if sell' = ''ETH'' then m @ ''PayEth''
       else m)"
    unfolding setMethod_def capitalized_source by simp
  have sells: "setMethod sell' buy' ''sellAllAmount'' proxy \<in>
     {''sellAllAmountBuyEth'', ''createAndSellAllAmountPayEth'', ''sellAllAmountPayEth'',
      ''sellAllAmount''}"
    by (simp add: setMethod_sellAllAmount)
  have buys: "setMethod sell' buy' ''buyAllAmount'' proxy \<in>
     {''buyAllAmountBuyEth'', ''createAndBuyAllAmountPayEth'', ''buyAllAmountPayEth'',
      ''buyAllAmount''}"
    by (simp add: setMethod_buyAllAmount)
  have shape_sell: "shapeOf (setMethod sell' buy' ''sellAllAmount'' proxy) \<in>
     {CreateAndSellAllAmountPayEth, SellAllAmountPayEth, DefaultShape}"
    by (simp add: setMethod_sellAllAmount shapeOf_def)
  have shape_buy: "shapeOf (setMethod sell' buy' ''buyAllAmount'' proxy) \<in>
     {CreateAndBuyAllAmountPayEth, BuyAllAmountPayEth, DefaultShape}"
    by (simp add: setMethod_buyAllAmount shapeOf_def)
  have "(buy' = ''ETH'' \<longrightarrow> setMethod sell' buy' m proxy = m @ ''BuyEth'')"
    and "(buy' \<noteq> ''ETH'' \<and> sell' = ''ETH'' \<and> \<not> truthy proxy \<longrightarrow>
      setMethod sell' buy' m proxy = ''createAnd'' @ capitalized m @ ''PayEth'')"
    and "(buy' \<noteq> ''ETH'' \<and> sell' = ''ETH'' \<and> truthy proxy \<longrightarrow>
      setMethod sell' buy' m proxy = m @ ''PayEth'')"
    and "(buy' \<noteq> ''ETH'' \<and> sell' \<noteq> ''ETH'' \<longrightarrow> setMethod sell' buy' m proxy = m)"
    and "setMethod sell' buy' m proxy \<in>
     {m @ ''BuyEth'', ''createAnd'' @ capitalized m @ ''PayEth'', m @ ''PayEth'', m}"
    unfolding rows by simp_all
  with sells buys shape_sell shape_buy show ?thesis by blast
qed

theorem setMethod_decision_table_witness:
  "setMethod ''DAI'' ''ETH'' ''sellAllAmount'' (JStr ''0xp'') = ''sellAllAmountBuyEth'' \<and>
   setMethod ''ETH'' ''DAI'' ''sellAllAmount'' (JBool False) = ''createAndSellAllAmountPayEth'' \<and>
   setMethod ''ETH'' ''DAI'' ''buyAllAmount'' (JStr ''0xp'') = ''buyAllAmountPayEth'' \<and>
   setMethod ''WETH'' ''DAI'' ''buyAllAmount'' (JStr ''0xp'') = ''buyAllAmount''"
  using setMethod_decision_table [of "''ETH''" "''DAI''" "''sellAllAmount''" "JStr ''0xp''"]
    setMethod_decision_table [of "''DAI''" "''ETH''" "''sellAllAmount''" "JBool False"]
    setMethod_decision_table [of "''DAI''" "''ETH''" "''buyAllAmount''" "JStr ''0xp''"]
    setMethod_decision_table [of "''DAI''" "''WETH''" "''buyAllAmount''" "JStr ''0xp''"]
  by (simp add: capitalized_def toUpperCase_def)

subsection \<open>Slippage bounds\<close>

text \<open>
  C2, as amended. The bound on the amount received is computed in JavaScript numbers
  from the stored quote or, when none is stored, from the quote just fetched: the quote
  converted to the nearest number, times the number nearest to one minus the tolerance,
  rounded to the nearest number and truncated; the bound on the amount paid likewise
  with one plus the tolerance; a quote query that fails makes the computation fail, and
  so does a product that is not a finite number. For a tolerance from zero to one and a
  quote below \<open>2 ^ 256\<close>, the range of the contract's unsigned integers, both bounds
  exist. For a tolerance of at least zero the first product and its bound are at most,
  the second product and its bound at least, the quote as converted to a number. For a
  quote of at least one unit, a tolerance of at least \<open>1 / 2 ^ 53\<close> puts the first product
  and its bound strictly below the quote itself, and a tolerance of at least
  \<open>1 / 2 ^ 52\<close> puts the second product strictly above the quote itself and its bound at
  or above it. With a tolerance of zero both bounds equal the quote as converted, which
  is the quote itself when it is below \<open>2 ^ 53\<close>.
\<close>

theorem slippage_bounds:
  "(this_buyAmount s = Some q \<longrightarrow>
      minBuyAmount e buyToken payToken amount s = (minLimit (this_slippage s) q, s)) \<and>
   (this_buyAmount s = None \<and> getBuyAmount e buyToken payToken amount s = (Inr q, s1) \<longrightarrow>
      minBuyAmount e buyToken payToken amount s = (minLimit (this_slippage s) q, s1)) \<and>
   (this_buyAmount s = None \<and> getBuyAmount e buyToken payToken amount s = (Inl err, s1) \<longrightarrow>
      minBuyAmount e buyToken payToken amount s = (Inl err, s1)) \<and>
   (this_payAmount s = Some q \<longrightarrow>
      maxPayAmount e payToken buyToken amount s = (maxLimit (this_slippage s) q, s)) \<and>
   (this_payAmount s = None \<and> getPayAmount e payToken buyToken amount s = (Inr q, s1) \<longrightarrow>
      maxPayAmount e payToken buyToken amount s = (maxLimit (this_slippage s) q, s1)) \<and>
   (this_payAmount s = None \<and> getPayAmount e payToken buyToken amount s = (Inl err, s1) \<longrightarrow>
      maxPayAmount e payToken buyToken amount s = (Inl err, s1)) \<and>
   minLimit tolerance q =
     (case jsMul (toNumber q) (jsSub (Num 1) tolerance) of
        Num w \<Rightarrow> Inr (trunc w)
      | PosInfinity \<Rightarrow> Inl AmountNotFinite
      | NegInfinity \<Rightarrow> Inl AmountNotFinite
      | NaN \<Rightarrow> Inl AmountNotFinite) \<and>
   maxLimit tolerance q =
     (case jsMul (toNumber q) (jsAdd (Num 1) tolerance) of
        Num w \<Rightarrow> Inr (trunc w)
      | PosInfinity \<Rightarrow> Inl AmountNotFinite
      | NegInfinity \<Rightarrow> Inl AmountNotFinite
      | NaN \<Rightarrow> Inl AmountNotFinite) \<and>
   (0 \<le> t \<and> t \<le> 1 \<and> q < 2 ^ 256 \<longrightarrow>
      (\<exists>lo hi. minLimit (Num t) q = Inr lo \<and> maxLimit (Num t) q = Inr hi)) \<and>
   (0 \<le> t \<and> jsMul (toNumber q) (jsSub (Num 1) (Num t)) = Num w \<longrightarrow>
      (\<exists>n. toNumber q = Num n \<and> w \<le> n \<and> of_int (trunc w) \<le> n)) \<and>
   (0 \<le> t \<and> jsMul (toNumber q) (jsAdd (Num 1) (Num t)) = Num w \<longrightarrow>
      (\<exists>n. toNumber q = Num n \<and> n \<le> w \<and> n \<le> of_int (trunc w))) \<and>
   (1 / 2 ^ 53 \<le> t \<and> 1 \<le> q \<and> jsMul (toNumber q) (jsSub (Num 1) (Num t)) = Num w \<longrightarrow>
      w < of_nat q \<and> trunc w < int q) \<and>
   (1 / 2 ^ 52 \<le> t \<and> 1 \<le> q \<and> jsMul (toNumber q) (jsAdd (Num 1) (Num t)) = Num w \<longrightarrow>
      of_nat q < w \<and> int q \<le> trunc w) \<and>
   (toNumber q = Num n \<longrightarrow>
      minLimit (Num 0) q = Inr \<lfloor>n\<rfloor> \<and> maxLimit (Num 0) q = Inr \<lfloor>n\<rfloor> \<and> of_int \<lfloor>n\<rfloor> = n) \<and>
   (q < 2 ^ 53 \<longrightarrow> toNumber q = Num (of_nat q))"
proof (intro conjI impI)
  assume "this_buyAmount s = Some q"
  then show "minBuyAmount e buyToken payToken amount s = (minLimit (this_slippage s) q, s)"
    by (rule minBuyAmount_memo)
next
  assume a: "this_buyAmount s = None \<and> getBuyAmount e buyToken payToken amount s = (Inr q, s1)"
  then have "this_slippage s1 = this_slippage s"
    using getBuyAmount_Inr [of e buyToken payToken amount s q s1] by auto
  with a show "minBuyAmount e buyToken payToken amount s = (minLimit (this_slippage s) q, s1)"
    by (simp add: minBuyAmount_query)
next
  assume "this_buyAmount s = None \<and> getBuyAmount e buyToken payToken amount s = (Inl err, s1)"
  then show "minBuyAmount e buyToken payToken amount s = (Inl err, s1)"
    by (simp add: minBuyAmount_query)
next
  assume "this_payAmount s = Some q"
  then show "maxPayAmount e payToken buyToken amount s = (maxLimit (this_slippage s) q, s)"
    by (rule maxPayAmount_memo)
next
  assume a: "this_payAmount s = None \<and> getPayAmount e payToken buyToken amount s = (Inr q, s1)"
  then have "this_slippage s1 = this_slippage s"
    using getPayAmount_Inr [of e payToken buyToken amount s q s1] by auto
  with a show "maxPayAmount e payToken buyToken amount s = (maxLimit (this_slippage s) q, s1)"
    by (simp add: maxPayAmount_query)
next
  assume "this_payAmount s = None \<and> getPayAmount e payToken buyToken amount s = (Inl err, s1)"
  then show "maxPayAmount e payToken buyToken amount s = (Inl err, s1)"
    by (simp add: maxPayAmount_query)
next
  show "minLimit tolerance q =
     (case jsMul (toNumber q) (jsSub (Num 1) tolerance) of
        Num w \<Rightarrow> Inr (trunc w)
      | PosInfinity \<Rightarrow> Inl AmountNotFinite
      | NegInfinity \<Rightarrow> Inl AmountNotFinite
      | NaN \<Rightarrow> Inl AmountNotFinite)"
    by (rule minLimit_def)
next
  show "maxLimit tolerance q =
     (case jsMul (toNumber q) (jsAdd (Num 1) tolerance) of
        Num w \<Rightarrow> Inr (trunc w)
      | PosInfinity \<Rightarrow> Inl AmountNotFinite
      | NegInfinity \<Rightarrow> Inl AmountNotFinite
      | NaN \<Rightarrow> Inl AmountNotFinite)"
    by (rule maxLimit_def)
next
  assume "0 \<le> t \<and> t \<le> 1 \<and> q < 2 ^ 256"
  then show "\<exists>lo hi. minLimit (Num t) q = Inr lo \<and> maxLimit (Num t) q = Inr hi"
    by (intro limits_defined) simp_all
next
  assume "0 \<le> t \<and> jsMul (toNumber q) (jsSub (Num 1) (Num t)) = Num w"
  then show "\<exists>n. toNumber q = Num n \<and> w \<le> n \<and> of_int (trunc w) \<le> n"
    by (intro min_product_le [of q t w]) simp_all
next
  assume "0 \<le> t \<and> jsMul (toNumber q) (jsAdd (Num 1) (Num t)) = Num w"
  then show "\<exists>n. toNumber q = Num n \<and> n \<le> w \<and> n \<le> of_int (trunc w)"
    by (intro max_product_ge [of q t w]) simp_all
next
  assume a: "1 / 2 ^ 53 \<le> t \<and> 1 \<le> q \<and> jsMul (toNumber q) (jsSub (Num 1) (Num t)) = Num w"
  then have "w < of_nat q \<and> trunc w < int q"
    by (intro min_product_strict [of q t w]) simp_all
  then show "w < of_nat q" and "trunc w < int q" by simp_all
next
  assume a: "1 / 2 ^ 52 \<le> t \<and> 1 \<le> q \<and> jsMul (toNumber q) (jsAdd (Num 1) (Num t)) = Num w"
  then have "of_nat q < w \<and> int q \<le> trunc w"
    by (intro max_product_strict [of q t w]) simp_all
  then show "of_nat q < w" and "int q \<le> trunc w" by simp_all
next
  assume n: "toNumber q = Num n"
  from limit_zero_tolerance [OF n] show "minLimit (Num 0) q = Inr \<lfloor>n\<rfloor>"
    and "maxLimit (Num 0) q = Inr \<lfloor>n\<rfloor>" by simp_all
  from toNumber_Num [OF n] show "of_int \<lfloor>n\<rfloor> = n" by simp
next
  assume "q < 2 ^ 53"
  then show "toNumber q = Num (of_nat q)" by (rule toNumber_small)
qed

text \<open>On the sample deployment: a fresh buy quote of 2 units gives the bound 1.96, a
  fresh pay quote of 3 units the bound 3.06, both computed in numbers; the quote stored
  by the first sell order gives the same lower bound again.\<close>

theorem slippage_bounds_witness:
  "minBuyAmount env0 ''DAI'' ''WETH'' 1 state0 =
     (Inr 1960000000000000000,
      state0\<lparr>calls := [OtcGetBuyAmount ''0xDA1'' ''0xE78'' 1000000000000000000],
              this_buyAmount := Some 2000000000000000000\<rparr>) \<and>
   maxPayAmount env0 ''WETH'' ''DAI'' 1 state0 =
     (Inr 3060000000000000000,
      state0\<lparr>calls := [OtcGetPayAmount ''0xE78'' ''0xDA1'' 1000000000000000000],
              this_payAmount := Some 3000000000000000000\<rparr>) \<and>
   minBuyAmount env0 ''XYZ'' ''WETH'' 1 state0 = (Inl (UnresolvedAsset ''XYZ''), state0) \<and>
   minBuyAmount env1 ''MKR'' ''DAI'' 5 state1 = (Inr 1960000000000000000, state1) \<and>
   toNumber 2000000000000000000 = Num 2000000000000000000 \<and>
   (1960000000000000000 :: rat) \<le> 2000000000000000000 \<and>
   trunc 1960000000000000000 < (2000000000000000000 :: int) \<and>
   toNumber 3000000000000000000 = Num 3000000000000000000 \<and>
   (3000000000000000000 :: rat) \<le> 3060000000000000000 \<and>
   (3000000000000000000 :: int) \<le> trunc 3060000000000000000 \<and>
   minLimit (Num 0) 2000000000000000000 = Inr 2000000000000000000 \<and>
   maxLimit (Num 0) 2000000000000000000 = Inr 2000000000000000000 \<and>
   toNumber 1000 = Num 1000"
proof -
  have g: "getBuyAmount env0 ''DAI'' ''WETH'' 1 state0 =
     (Inr 2000000000000000000,
      state0\<lparr>calls := [OtcGetBuyAmount ''0xDA1'' ''0xE78'' 1000000000000000000],
              this_buyAmount := Some 2000000000000000000\<rparr>)"
    by (simp add: model_defs run_simps sample_defs)
  have p: "getPayAmount env0 ''WETH'' ''DAI'' 1 state0 =
     (Inr 3000000000000000000,
      state0\<lparr>calls := [OtcGetPayAmount ''0xE78'' ''0xDA1'' 1000000000000000000],
              this_payAmount := Some 3000000000000000000\<rparr>)"
    by (simp add: model_defs run_simps sample_defs)
  have u: "getBuyAmount env0 ''XYZ'' ''WETH'' 1 state0 = (Inl (UnresolvedAsset ''XYZ''), state0)"
    by (simp add: model_defs run_simps sample_defs)
  have m: "this_buyAmount state0 = None" "this_payAmount state0 = None"
    "this_slippage state0 = Num (5764607523034235 / 288230376151711744)"
    "this_buyAmount state1 = Some 2000000000000000000"
    "this_slippage state1 = Num (5764607523034235 / 288230376151711744)"
    by (simp_all add: state1_eq state0_def sample_tolerance)
  have l: "minLimit (Num (5764607523034235 / 288230376151711744)) 2000000000000000000 =
      Inr 1960000000000000000"
    "maxLimit (Num (5764607523034235 / 288230376151711744)) 3000000000000000000 =
      Inr 3060000000000000000"
    using sample_limits by (simp_all add: sample_tolerance)
  have f: "jsMul (toNumber 2000000000000000000)
      (jsSub (Num 1) (Num (5764607523034235 / 288230376151711744))) = Num 1960000000000000000"
    "jsMul (toNumber 3000000000000000000)
      (jsAdd (Num 1) (Num (5764607523034235 / 288230376151711744))) = Num 3060000000000000000"
    by (simp_all only: sample_quotes sample_factors sample_products)
  have t: "(0::rat) \<le> 5764607523034235 / 288230376151711744"
    "(5764607523034235 / 288230376151711744 :: rat) \<le> 1"
    "(2000000000000000000 :: nat) < 2 ^ 256" "(1000 :: nat) < 2 ^ 53"
    "(1 / 2 ^ 53 :: rat) \<le> 5764607523034235 / 288230376151711744"
    "(1 / 2 ^ 52 :: rat) \<le> 5764607523034235 / 288230376151711744"
    "(1 :: nat) \<le> 2000000000000000000" "(1 :: nat) \<le> 3000000000000000000"
    by simp_all
  note q = sample_quotes(1,2)
  from slippage_bounds [where s = state0 and e = env0 and buyToken = "''DAI''"
      and payToken = "''WETH''" and amount = 1 and q = 2000000000000000000
      and ?s1.0 = "state0\<lparr>calls := [OtcGetBuyAmount ''0xDA1'' ''0xE78'' 1000000000000000000],
              this_buyAmount := Some 2000000000000000000\<rparr>"
      and tolerance = "Num (5764607523034235 / 288230376151711744)"
      and w = 1960000000000000000 and t = "5764607523034235 / 288230376151711744"
      and n = 2000000000000000000]
    slippage_bounds [where s = state0 and e = env0 and buyToken = "''DAI''"
      and payToken = "''WETH''" and amount = 1 and q = 3000000000000000000
      and ?s1.0 = "state0\<lparr>calls := [OtcGetPayAmount ''0xE78'' ''0xDA1'' 1000000000000000000],
              this_payAmount := Some 3000000000000000000\<rparr>"
      and tolerance = "Num (5764607523034235 / 288230376151711744)"
      and w = 3060000000000000000 and t = "5764607523034235 / 288230376151711744"]
    slippage_bounds [where s = state0 and e = env0 and buyToken = "''XYZ''"
      and payToken = "''WETH''" and amount = 1 and err = "UnresolvedAsset ''XYZ''"
      and ?s1.0 = state0]
    slippage_bounds [where s = state1 and e = env1 and buyToken = "''MKR''"
      and payToken = "''DAI''" and amount = 5 and q = 2000000000000000000]
    slippage_bounds [where q = 1000]
    g p u m l f t q
  show ?thesis by simp
qed

text \<open>
  With a tolerance of one half, a stored pay quote of 1 unit gives a bound of 1, not
  more, and a stored buy quote of 0 gives a bound of 0, not less. With a tolerance of
  \<open>1 / 2 ^ 60\<close>, a stored buy quote of 1 unit gives a bound of 1. With a tolerance of
  zero, a stored quote of \<open>10^18 + 1\<close> units gives the bound \<open>10^18\<close>, not the quote.
  With the number 0.001 as tolerance, a stored pay quote of 1000 units gives the bound
  1000, where 1000 times one plus that tolerance, truncated, is 1001.
\<close>

theorem slippage_bounds_counterexample:
  "this_slippage stateHalf = Num (1 / 2) \<and>
   this_payAmount stateHalf = Some 1 \<and>
   maxPayAmount env0 ''WETH'' ''DAI'' 1 stateHalf = (Inr 1, stateHalf) \<and>
   this_buyAmount stateHalf = Some 0 \<and>
   minBuyAmount env0 ''DAI'' ''WETH'' 1 stateHalf = (Inr 0, stateHalf) \<and>
   minBuyAmount env0 ''DAI'' ''WETH'' 1
       (stateHalf\<lparr>this_slippage := Num (1 / 2 ^ 60), this_buyAmount := Some 1\<rparr>) =
     (Inr 1, stateHalf\<lparr>this_slippage := Num (1 / 2 ^ 60), this_buyAmount := Some 1\<rparr>) \<and>
   minBuyAmount env0 ''DAI'' ''WETH'' 1
       (stateHalf\<lparr>this_slippage := Num 0, this_buyAmount := Some 1000000000000000001\<rparr>) =
     (Inr 1000000000000000000,
      stateHalf\<lparr>this_slippage := Num 0, this_buyAmount := Some 1000000000000000001\<rparr>) \<and>
   roundToDouble (1 / 1000) = Num (1152921504606847 / 1152921504606846976) \<and>
   maxPayAmount env0 ''WETH'' ''DAI'' 1
       (stateHalf\<lparr>this_slippage := roundToDouble (1 / 1000), this_payAmount := Some 1000\<rparr>) =
     (Inr 1000,
      stateHalf\<lparr>this_slippage := roundToDouble (1 / 1000), this_payAmount := Some 1000\<rparr>) \<and>
   trunc (of_nat 1000 * (1 + 1152921504606847 / 1152921504606846976)) = 1001"
proof -
  have h: "this_slippage stateHalf = Num (1 / 2)" "this_payAmount stateHalf = Some 1"
    "this_buyAmount stateHalf = Some 0"
    by (simp_all add: stateHalf_def)
  have a: "maxPayAmount env0 ''WETH'' ''DAI'' 1 stateHalf = (Inr 1, stateHalf)"
    using maxPayAmount_memo [OF h(2), of env0 "''WETH''" "''DAI''" 1]
    by (simp only: h sample_half)
  have b: "minBuyAmount env0 ''DAI'' ''WETH'' 1 stateHalf = (Inr 0, stateHalf)"
    using minBuyAmount_memo [OF h(3), of env0 "''DAI''" "''WETH''" 1]
    by (simp only: h sample_half)
  have c: "minBuyAmount env0 ''DAI'' ''WETH'' 1
       (stateHalf\<lparr>this_slippage := Num 0, this_buyAmount := Some 1000000000000000001\<rparr>) =
     (Inr 1000000000000000000,
      stateHalf\<lparr>this_slippage := Num 0, this_buyAmount := Some 1000000000000000001\<rparr>)"
    using minBuyAmount_memo [of
        "stateHalf\<lparr>this_slippage := Num 0, this_buyAmount := Some 1000000000000000001\<rparr>"
        1000000000000000001 env0 "''DAI''" "''WETH''" 1]
    by (simp add: sample_half)
  have d: "maxPayAmount env0 ''WETH'' ''DAI'' 1
       (stateHalf\<lparr>this_slippage := roundToDouble (1 / 1000), this_payAmount := Some 1000\<rparr>) =
     (Inr 1000,
      stateHalf\<lparr>this_slippage := roundToDouble (1 / 1000), this_payAmount := Some 1000\<rparr>)"
    using maxPayAmount_memo [of
        "stateHalf\<lparr>this_slippage := roundToDouble (1 / 1000), this_payAmount := Some 1000\<rparr>"
        1000 env0 "''WETH''" "''DAI''" 1]
    by (simp add: sample_milli(1,2))
  have i: "this_slippage (stateHalf\<lparr>this_slippage := Num (1 / 2 ^ 60),
        this_buyAmount := Some 1\<rparr>) = Num (1 / 2 ^ 60)"
    "this_buyAmount (stateHalf\<lparr>this_slippage := Num (1 / 2 ^ 60),
        this_buyAmount := Some 1\<rparr>) = Some 1"
    by simp_all
  have j: "minBuyAmount env0 ''DAI'' ''WETH'' 1
       (stateHalf\<lparr>this_slippage := Num (1 / 2 ^ 60), this_buyAmount := Some 1\<rparr>) =
     (Inr 1, stateHalf\<lparr>this_slippage := Num (1 / 2 ^ 60), this_buyAmount := Some 1\<rparr>)"
    using minBuyAmount_memo [OF i(2), of env0 "''DAI''" "''WETH''" 1]
    by (simp only: i sample_tiny)
  show ?thesis
    by (intro conjI) (fact h a b c d j sample_milli(1,3))+
qed

subsection \<open>The memo of the last quote\<close>

text \<open>
  C3, as amended. A quote fetched by \<^verbatim>\<open>getBuyAmount\<close> (\<^verbatim>\<open>getPayAmount\<close>) is stored in
  the instance and stays there: while a buy (pay) quote is stored, the slippage
  computation answers from it without a call, for any tokens, amount and exchange, and
  every later \<^verbatim>\<open>sell\<close>, \<^verbatim>\<open>buy\<close>, quote of the other kind or change of the tolerance
  leaves it in place; a \<^verbatim>\<open>sell\<close> (\<^verbatim>\<open>buy\<close>) then sends no buy (pay) query to the
  exchange.
\<close>

theorem quote_memo_reuse:
  "(getBuyAmount e buyToken payToken amount s = (Inr q, s1) \<longrightarrow> this_buyAmount s1 = Some q) \<and>
   (getPayAmount e payToken buyToken amount s = (Inr q, s1) \<longrightarrow> this_payAmount s1 = Some q) \<and>
   (this_buyAmount s = Some q \<longrightarrow>
      minBuyAmount e' b p a s = (minLimit (this_slippage s) q, s) \<and>
      this_buyAmount (snd (sell e' sell' buy' a s)) = Some q \<and>
      filter isBuyQuery (calls (snd (sell e' sell' buy' a s))) = filter isBuyQuery (calls s) \<and>
      this_buyAmount (snd (buy e' buy' sell' a s)) = Some q \<and>
      this_buyAmount (snd (getPayAmount e' p b a s)) = Some q \<and>
      this_buyAmount (snd (setSlippageLimit t s)) = Some q) \<and>
   (this_payAmount s = Some q \<longrightarrow>
      maxPayAmount e' p b a s = (maxLimit (this_slippage s) q, s) \<and>
      this_payAmount (snd (buy e' buy' sell' a s)) = Some q \<and>
      filter isPayQuery (calls (snd (buy e' buy' sell' a s))) = filter isPayQuery (calls s) \<and>
      this_payAmount (snd (sell e' sell' buy' a s)) = Some q \<and>
      this_payAmount (snd (getBuyAmount e' b p a s)) = Some q \<and>
      this_payAmount (snd (setSlippageLimit t s)) = Some q)"
proof (intro conjI impI)
  assume "getBuyAmount e buyToken payToken amount s = (Inr q, s1)"
  from getBuyAmount_Inr [OF this] show "this_buyAmount s1 = Some q" by auto
next
  assume "getPayAmount e payToken buyToken amount s = (Inr q, s1)"
  from getPayAmount_Inr [OF this] show "this_payAmount s1 = Some q" by auto
qed (simp_all add: minBuyAmount_memo maxPayAmount_memo sell_keeps_buy_memo buy_keeps_pay_memo
       sell_keeps_pay_memo buy_keeps_buy_memo getPayAmount_keeps_buy_memo
       getBuyAmount_keeps_pay_memo setSlippageLimit_def assign_apply)

theorem quote_memo_reuse_witness:
  "getBuyAmount env0 ''DAI'' ''WETH'' 1 state0 =
     (Inr 2000000000000000000,
      state0\<lparr>calls := [OtcGetBuyAmount ''0xDA1'' ''0xE78'' 1000000000000000000],
              this_buyAmount := Some 2000000000000000000\<rparr>) \<and>
   minBuyAmount env1 ''MKR'' ''DAI'' 5 state1 = (Inr 1960000000000000000, state1) \<and>
   this_buyAmount (snd (sell env1 ''DAI'' ''MKR'' 5 state1)) = Some 2000000000000000000"
proof -
  have g: "getBuyAmount env0 ''DAI'' ''WETH'' 1 state0 =
     (Inr 2000000000000000000,
      state0\<lparr>calls := [OtcGetBuyAmount ''0xDA1'' ''0xE78'' 1000000000000000000],
              this_buyAmount := Some 2000000000000000000\<rparr>)"
    by (simp add: model_defs run_simps sample_defs)
  have m: "this_buyAmount state1 = Some 2000000000000000000"
    by (simp add: state1_eq)
  have t: "minLimit (this_slippage state1) 2000000000000000000 = Inr 1960000000000000000"
    by (simp add: state1_eq state0_def sample_limits)
  from quote_memo_reuse [of env0 "''DAI''" "''WETH''" 1 state0 2000000000000000000
      "snd (getBuyAmount env0 ''DAI'' ''WETH'' 1 state0)"]
    quote_memo_reuse [of env0 "''DAI''" "''WETH''" 1 state1 2000000000000000000 state1
      env1 "''MKR''" "''DAI''" 5 "''DAI''" "''MKR''" "Num 0"]
    g m t
  show ?thesis by simp
qed

text \<open>After a first sell order (ETH for DAI, quote 2 units), a second one for other
  tokens and another amount, against an exchange that now quotes 7 units, is built from
  the limit of the first quote and asks the exchange nothing.\<close>

theorem quote_memo_counterexample:
  "this_buyAmount state1 = Some 2000000000000000000 \<and>
   otc_getBuyAmount env1 ''0x3C2'' ''0xDA1'' 5000000000000000000 = Inr 7000000000000000000 \<and>
   fst (sell env1 ''DAI'' ''MKR'' 5 state1) = Inr
     (OtcSellOrder (contracts0 ''OASIS_PROXY'') ''sellAllAmount''
        [PAddr ''0xMAKER_OTC'', PAddr ''0xDA1'', PAmount 5000000000000000000, PAddr ''0x3C2'',
         PAmount 1960000000000000000] WETH
        \<lparr>opt_otc = contracts0 ''MAKER_OTC'', opt_dsProxy = Some True, opt_value = None\<rparr>) \<and>
   filter isBuyQuery (calls (snd (sell env1 ''DAI'' ''MKR'' 5 state1))) =
     [OtcGetBuyAmount ''0xDA1'' ''0xE78'' 1000000000000000000]"
  by (simp add: state1_eq env1_def model_defs run_simps sample_defs)

subsection \<open>Proxy resolution\<close>

text \<open>
  C4. When the proxy service knows a proxy for the caller, \<^verbatim>\<open>_checkProxy\<close> answers with
  it; otherwise, when the sell asset is not ETH, it asks the proxy service to create
  one and answers with what that call gives; otherwise it answers \<^verbatim>\<open>false\<close> and creates
  nothing.
\<close>

theorem checkProxy_resolution:
  assumes "currentProxy e = Inr p"
  shows "(truthy p \<longrightarrow>
            checkProxy e sellCurrency s = (Inr p, s\<lparr>calls := calls s @ [CurrentProxy]\<rparr>)) \<and>
         (\<not> truthy p \<and> sellCurrency \<noteq> ''ETH'' \<longrightarrow>
            checkProxy e sellCurrency s =
              (ensureProxy e, s\<lparr>calls := calls s @ [CurrentProxy, EnsureProxy]\<rparr>)) \<and>
         (\<not> truthy p \<and> sellCurrency = ''ETH'' \<longrightarrow>
            checkProxy e sellCurrency s =
              (Inr (JBool False), s\<lparr>calls := calls s @ [CurrentProxy]\<rparr>))"
  using assms by (simp add: checkProxy_def run_simps)

theorem checkProxy_resolution_witness:
  "checkProxy (env0\<lparr>currentProxy := Inr (JStr ''0x111'')\<rparr>) ''DAI'' state0 =
     (Inr (JStr ''0x111''), state0\<lparr>calls := [CurrentProxy]\<rparr>) \<and>
   checkProxy env0 ''DAI'' state0 =
     (Inr (JStr ''0x9A0''), state0\<lparr>calls := [CurrentProxy, EnsureProxy]\<rparr>) \<and>
   checkProxy env0 ''ETH'' state0 =
     (Inr (JBool False), state0\<lparr>calls := [CurrentProxy]\<rparr>)"
  using checkProxy_resolution [of "env0\<lparr>currentProxy := Inr (JStr ''0x111'')\<rparr>" "JStr ''0x111''"
      "''DAI''" state0]
    checkProxy_resolution [of env0 Null "''DAI''" state0]
    checkProxy_resolution [of env0 Null "''ETH''" state0]
  by (simp add: env0_def state0_def)

subsection \<open>Call parameters\<close>

lemma valueForContract_Inr:
  "valueForContract e amount symb = Inr v \<Longrightarrow>
   \<exists>tok. getToken e symb = Some tok \<and> v = toFixed_wei (getCurrency amount tok) \<and>
     getTokenAddress e symb = Inr (token_address tok)"
  by (auto simp: valueForContract_def getTokenAddress_def split: option.splits)

lemma buildParams_cases:
  assumes "getTokenAddress e ''DAI'' = Inr daiAddress"
    and "getTokenAddress e ''WETH'' = Inr wethAddress"
    and "valueForContract e amount sendToken = Inr orderAmount"
  shows "buildParams e sendToken amount buyToken limit method =
     (if method = ''sellAllAmountPayEth'' then
        Inr [PAddr (contract_address (otc e)), PAddr wethAddress, PAddr daiAddress, PAmount limit]
      else if method = ''createAndSellAllAmountPayEth'' then
        Inr [PAddr (contract_address (getContractByName e ''PROXY_REGISTRY'')),
             PAddr (contract_address (otc e)), PAddr daiAddress, PAmount limit]
      else if method = ''buyAllAmountPayEth'' then
        Inr [PAddr (contract_address (otc e)), PAddr daiAddress, PAmount orderAmount,
             PAddr wethAddress]
      else if method = ''createAndBuyAllAmountPayEth'' then
        Inr [PAddr (contract_address (getContractByName e ''PROXY_REGISTRY'')),
             PAddr (contract_address (otc e)), PAddr daiAddress, PAmount orderAmount]
      else
        bindE (getTokenAddress e sendToken) (\<lambda>sendAddress.
        bindE (getTokenAddress e buyToken) (\<lambda>buyAddress.
        Inr [PAddr (contract_address (otc e)), PAddr sendAddress, PAmount orderAmount,
             PAddr buyAddress, PAmount limit])))"
  using assms by (simp add: buildParams_def Let_def)

text \<open>
  C10. In the four pay-ETH shapes the token slot holds the address of DAI, whatever
  tokens the caller named: the lists below mention no address of the send or the buy
  token. Only the default shape, with its five arguments, carries the addresses of the
  caller's two tokens.
\<close>

theorem buildParams_dai_slot:
  assumes "getTokenAddress e ''DAI'' = Inr daiAddress"
    and "getTokenAddress e ''WETH'' = Inr wethAddress"
    and "valueForContract e amount sendToken = Inr orderAmount"
    and "getTokenAddress e sendToken = Inr sendAddress"
    and "getTokenAddress e buyToken = Inr buyAddress"
  shows "buildParams e sendToken amount buyToken limit ''sellAllAmountPayEth'' =
           Inr [PAddr (contract_address (otc e)), PAddr wethAddress, PAddr daiAddress,
                PAmount limit] \<and>
         buildParams e sendToken amount buyToken limit ''createAndSellAllAmountPayEth'' =
           Inr [PAddr (contract_address (getContractByName e ''PROXY_REGISTRY'')),
                PAddr (contract_address (otc e)), PAddr daiAddress, PAmount limit] \<and>
         buildParams e sendToken amount buyToken limit ''buyAllAmountPayEth'' =
           Inr [PAddr (contract_address (otc e)), PAddr daiAddress, PAmount orderAmount,
                PAddr wethAddress] \<and>
         buildParams e sendToken amount buyToken limit ''createAndBuyAllAmountPayEth'' =
           Inr [PAddr (contract_address (getContractByName e ''PROXY_REGISTRY'')),
                PAddr (contract_address (otc e)), PAddr daiAddress, PAmount orderAmount] \<and>
         (shapeOf method = DefaultShape \<longrightarrow>
            buildParams e sendToken amount buyToken limit method =
              Inr [PAddr (contract_address (otc e)), PAddr sendAddress, PAmount orderAmount,
                   PAddr buyAddress, PAmount limit])"
  using assms(4,5)
  by (simp add: buildParams_cases [OF assms(1,2,3)] shapeOf_def split: if_splits)

theorem buildParams_dai_slot_witness:
  "buildParams env0 ''WETH'' 1 ''MKR'' 5 ''sellAllAmountPayEth'' =
     Inr [PAddr ''0xMAKER_OTC'', PAddr ''0xE78'', PAddr ''0xDA1'', PAmount 5] \<and>
   buildParams env0 ''WETH'' 1 ''MKR'' 5 ''createAndSellAllAmountPayEth'' =
     Inr [PAddr ''0xPROXY_REGISTRY'', PAddr ''0xMAKER_OTC'', PAddr ''0xDA1'', PAmount 5] \<and>
   buildParams env0 ''WETH'' 1 ''MKR'' 5 ''buyAllAmountPayEth'' =
     Inr [PAddr ''0xMAKER_OTC'', PAddr ''0xDA1'', PAmount 1000000000000000000, PAddr ''0xE78''] \<and>
   buildParams env0 ''WETH'' 1 ''MKR'' 5 ''createAndBuyAllAmountPayEth'' =
     Inr [PAddr ''0xPROXY_REGISTRY'', PAddr ''0xMAKER_OTC'', PAddr ''0xDA1'',
          PAmount 1000000000000000000] \<and>
   buildParams env0 ''WETH'' 1 ''MKR'' 5 ''sellAllAmount'' =
     Inr [PAddr ''0xMAKER_OTC'', PAddr ''0xE78'', PAmount 1000000000000000000, PAddr ''0x3C2'',
          PAmount 5]"
proof -
  have a: "getTokenAddress env0 ''DAI'' = Inr ''0xDA1''"
    "getTokenAddress env0 ''WETH'' = Inr ''0xE78''"
    "valueForContract env0 1 ''WETH'' = Inr 1000000000000000000"
    "getTokenAddress env0 ''MKR'' = Inr ''0x3C2''"
    by (simp_all add: getTokenAddress_def valueForContract_def getCurrency_def trunc_def
        sample_defs)
  from buildParams_dai_slot [OF a(1,2,3,2,4), of 5 "''sellAllAmount''"]
  show ?thesis by (simp add: otc_def shapeOf_def sample_defs)
qed

subsection \<open>Transaction options\<close>

lemma buildOptions_cases:
  "buildOptions e amount sellToken method maxPay =
     (if includesStr (toLowerCase method) ''buyallamountpayeth'' then
        Inr \<lparr>opt_otc = otc e,
             opt_dsProxy = (if includesStr method ''create'' then None else Some True),
             opt_value = maxPay\<rparr>
      else if sellToken = ''ETH'' then
        (case valueForContract e amount ''WETH'' of
           Inl err \<Rightarrow> Inl err
         | Inr v \<Rightarrow>
             Inr \<lparr>opt_otc = otc e,
                  opt_dsProxy = (if includesStr method ''create'' then None else Some True),
                  opt_value = Some v\<rparr>)
      else
        Inr \<lparr>opt_otc = otc e,
             opt_dsProxy = (if includesStr method ''create'' then None else Some True),
             opt_value = None\<rparr>)"
  by (simp add: buildOptions_def Let_def split: sum.splits)

lemma variant_marks:
  "includesStr (toLowerCase (setMethod sell' buy' ''buyAllAmount'' proxy)) ''buyallamountpayeth''
     = (buy' \<noteq> ''ETH'' \<and> sell' = ''ETH'')"
  "\<not> includesStr (toLowerCase (setMethod sell' buy' ''sellAllAmount'' proxy))
       ''buyallamountpayeth''"
  "includesStr (setMethod sell' buy' ''sellAllAmount'' proxy) ''create''
     = (buy' \<noteq> ''ETH'' \<and> sell' = ''ETH'' \<and> \<not> truthy proxy)"
  "includesStr (setMethod sell' buy' ''buyAllAmount'' proxy) ''create''
     = (buy' \<noteq> ''ETH'' \<and> sell' = ''ETH'' \<and> \<not> truthy proxy)"
  by (simp_all add: setMethod_sellAllAmount setMethod_buyAllAmount toLowerCase_def)

text \<open>
  C6. The options of an order, first match first: the value is the maximal pay amount
  when the lower-cased method name contains \<^verbatim>\<open>buyallamountpayeth\<close>, which among the
  selectable names holds exactly for the two buy variants that pay ETH; otherwise, when
  the sell asset is ETH, the value is the amount converted for WETH; otherwise there is
  no value. The proxy flag is set unless the name contains \<^verbatim>\<open>create\<close>, which among the
  selectable names holds exactly for the two create-and-execute variants. Every order
  that \<^verbatim>\<open>sell\<close> or \<^verbatim>\<open>buy\<close> builds carries the options so computed.
\<close>

theorem buildOptions_value_and_routing:
  "(includesStr (toLowerCase name) ''buyallamountpayeth'' \<longrightarrow>
      (\<exists>os. buildOptions e amount sellToken name maxPay = Inr os \<and> opt_value os = maxPay)) \<and>
   (\<not> includesStr (toLowerCase name) ''buyallamountpayeth'' \<and> sellToken = ''ETH'' \<and>
    valueForContract e amount ''WETH'' = Inr wei \<longrightarrow>
      (\<exists>os. buildOptions e amount sellToken name maxPay = Inr os \<and> opt_value os = Some wei)) \<and>
   (\<not> includesStr (toLowerCase name) ''buyallamountpayeth'' \<and> sellToken \<noteq> ''ETH'' \<longrightarrow>
      (\<exists>os. buildOptions e amount sellToken name maxPay = Inr os \<and> opt_value os = None)) \<and>
   (buildOptions e amount sellToken name maxPay = Inr opts \<longrightarrow>
      opt_otc opts = otc e \<and>
      opt_dsProxy opts = (if includesStr name ''create'' then None else Some True)) \<and>
   (includesStr (toLowerCase (setMethod sell' buy' ''buyAllAmount'' proxy)) ''buyallamountpayeth''
      = (buy' \<noteq> ''ETH'' \<and> sell' = ''ETH'')) \<and>
   \<not> includesStr (toLowerCase (setMethod sell' buy' ''sellAllAmount'' proxy))
       ''buyallamountpayeth'' \<and>
   (includesStr (setMethod sell' buy' ''sellAllAmount'' proxy) ''create''
      = (buy' \<noteq> ''ETH'' \<and> sell' = ''ETH'' \<and> \<not> truthy proxy)) \<and>
   (includesStr (setMethod sell' buy' ''buyAllAmount'' proxy) ''create''
      = (buy' \<noteq> ''ETH'' \<and> sell' = ''ETH'' \<and> \<not> truthy proxy)) \<and>
   (sell e sell' buy' amount s = (Inr ord, s') \<longrightarrow>
      (\<exists>proxy s0. checkProxy e sell' s = (Inr proxy, s0) \<and>
         buildOptions e amount sell' (setMethod sell' buy' ''sellAllAmount'' proxy) None =
           Inr (orderOptions ord))) \<and>
   (buy e buy' sell' amount s = (Inr ord, s') \<longrightarrow>
      (\<exists>proxy s0 limit s1. checkProxy e sell' s = (Inr proxy, s0) \<and>
         maxPayAmount e (if sell' = ''ETH'' then ''WETH'' else sell')
           (if buy' = ''ETH'' then ''WETH'' else buy') amount s0 = (Inr limit, s1) \<and>
         buildOptions e amount sell' (setMethod sell' buy' ''buyAllAmount'' proxy) (Some limit) =
           Inr (orderOptions ord)))"
proof (intro conjI impI)
  assume "sell e sell' buy' amount s = (Inr ord, s')"
  from sell_Inr [OF this]
  show "\<exists>proxy s0. checkProxy e sell' s = (Inr proxy, s0) \<and>
         buildOptions e amount sell' (setMethod sell' buy' ''sellAllAmount'' proxy) None =
           Inr (orderOptions ord)"
    by fastforce
next
  assume "buy e buy' sell' amount s = (Inr ord, s')"
  from buy_Inr [OF this]
  show "\<exists>proxy s0 limit s1. checkProxy e sell' s = (Inr proxy, s0) \<and>
         maxPayAmount e (if sell' = ''ETH'' then ''WETH'' else sell')
           (if buy' = ''ETH'' then ''WETH'' else buy') amount s0 = (Inr limit, s1) \<and>
         buildOptions e amount sell' (setMethod sell' buy' ''buyAllAmount'' proxy) (Some limit) =
           Inr (orderOptions ord)"
    by fastforce
next
  assume "buildOptions e amount sellToken name maxPay = Inr opts"
  then show "opt_otc opts = otc e"
    by (auto simp: buildOptions_cases split: if_splits sum.splits)
next
  assume "buildOptions e amount sellToken name maxPay = Inr opts"
  then show "opt_dsProxy opts = (if includesStr name ''create'' then None else Some True)"
    by (auto simp: buildOptions_cases split: if_splits sum.splits)
qed (simp_all add: buildOptions_cases variant_marks)

theorem buildOptions_value_and_routing_witness:
  "fst (buy env1 ''DAI'' ''ETH'' (3 / 2) state0) =
     Inr (OtcBuyOrder (contracts0 ''OASIS_PROXY'') ''buyAllAmountPayEth''
       [PAddr ''0xMAKER_OTC'', PAddr ''0xDA1'', PAmount 1500000000000000000, PAddr ''0xE78'']
       \<lparr>opt_otc = contracts0 ''MAKER_OTC'', opt_dsProxy = Some True,
          opt_value = Some 3060000000000000000\<rparr>) \<and>
   buildOptions env1 (3 / 2) ''ETH'' ''buyAllAmountPayEth'' (Some 3060000000000000000) =
     Inr \<lparr>opt_otc = contracts0 ''MAKER_OTC'', opt_dsProxy = Some True,
          opt_value = Some 3060000000000000000\<rparr> \<and>
   buildOptions env0 1 ''ETH'' ''createAndSellAllAmountPayEth'' None =
     Inr \<lparr>opt_otc = contracts0 ''MAKER_OTC'', opt_dsProxy = None,
          opt_value = Some 1000000000000000000\<rparr> \<and>
   buildOptions env0 1 ''DAI'' ''sellAllAmount'' None =
     Inr \<lparr>opt_otc = contracts0 ''MAKER_OTC'', opt_dsProxy = Some True, opt_value = None\<rparr>"
proof -
  have b: "fst (buy env1 ''DAI'' ''ETH'' (3 / 2) state0) =
     Inr (OtcBuyOrder (contracts0 ''OASIS_PROXY'') ''buyAllAmountPayEth''
       [PAddr ''0xMAKER_OTC'', PAddr ''0xDA1'', PAmount 1500000000000000000, PAddr ''0xE78'']
       \<lparr>opt_otc = contracts0 ''MAKER_OTC'', opt_dsProxy = Some True,
          opt_value = Some 3060000000000000000\<rparr>)"
    by (simp add: env1_def model_defs run_simps sample_defs)
  have o1: "buildOptions env1 (3 / 2) ''ETH'' ''buyAllAmountPayEth''
      (Some 3060000000000000000) =
     Inr \<lparr>opt_otc = contracts0 ''MAKER_OTC'', opt_dsProxy = Some True,
          opt_value = Some 3060000000000000000\<rparr>"
    by (simp add: env1_def model_defs sample_defs)
  have o2: "buildOptions env0 1 ''ETH'' ''createAndSellAllAmountPayEth'' None =
     Inr \<lparr>opt_otc = contracts0 ''MAKER_OTC'', opt_dsProxy = None,
          opt_value = Some 1000000000000000000\<rparr>"
    by (simp add: model_defs sample_defs)
  have o3: "buildOptions env0 1 ''DAI'' ''sellAllAmount'' None =
     Inr \<lparr>opt_otc = contracts0 ''MAKER_OTC'', opt_dsProxy = Some True, opt_value = None\<rparr>"
    by (simp add: model_defs sample_defs)
  show ?thesis
    using buildOptions_value_and_routing [where name = "''buyAllAmountPayEth''" and e = env1
      and amount = "3 / 2" and sellToken = "''ETH''" and maxPay = "Some 3060000000000000000"
      and wei = 1500000000000000000 and sell' = "''ETH''" and buy' = "''DAI''"
      and proxy = "JStr ''0x9A0''" and s = state0
      and opts = "\<lparr>opt_otc = contracts0 ''MAKER_OTC'', opt_dsProxy = Some True,
          opt_value = Some 3060000000000000000\<rparr>"
      and ord = "OtcBuyOrder (contracts0 ''OASIS_PROXY'') ''buyAllAmountPayEth''
       [PAddr ''0xMAKER_OTC'', PAddr ''0xDA1'', PAmount 1500000000000000000, PAddr ''0xE78'']
       \<lparr>opt_otc = contracts0 ''MAKER_OTC'', opt_dsProxy = Some True,
          opt_value = Some 3060000000000000000\<rparr>"
      and s' = "snd (buy env1 ''DAI'' ''ETH'' (3 / 2) state0)"]
      b o1 o2 o3
    by simp
qed

subsection \<open>Selling ETH without a proxy\<close>

text \<open>
  C5, as amended. A sale of ETH for a token, while the caller has no proxy, selects
  \<^verbatim>\<open>createAndSellAllAmountPayEth\<close>; its parameters are the address of the proxy registry,
  the address of the exchange, the address of DAI and the limit, in this order; the
  value attached is the amount converted for WETH; the proxy flag is not set.
\<close>

theorem sell_eth_without_proxy:
  assumes "currentProxy e = Inr p" and "\<not> truthy p" and "buy' \<noteq> ''ETH''"
    and "getTokenAddress e ''DAI'' = Inr daiAddress"
    and "valueForContract e amount ''WETH'' = Inr wei"
    and "minBuyAmount e buy' ''WETH'' amount (s\<lparr>calls := calls s @ [CurrentProxy]\<rparr>) =
           (Inr limit, s1)"
    and "ord = OtcSellOrder (otcProxy e) ''createAndSellAllAmountPayEth''
           [PAddr (contract_address (getContractByName e ''PROXY_REGISTRY'')),
            PAddr (contract_address (otc e)), PAddr daiAddress, PAmount limit]
           (if buy' = ''DAI'' then DAI else WETH)
           \<lparr>opt_otc = otc e, opt_dsProxy = None, opt_value = Some wei\<rparr>"
  shows "sell e ''ETH'' buy' amount s = (Inr ord, s1\<lparr>calls := calls s1 @ [Build ord]\<rparr>)"
proof -
  from assms(1,2) have cp: "checkProxy e ''ETH'' s =
      (Inr (JBool False), s\<lparr>calls := calls s @ [CurrentProxy]\<rparr>)"
    by (simp add: checkProxy_cases)
  from assms(3) have m: "setMethod ''ETH'' buy' ''sellAllAmount'' (JBool False) =
      ''createAndSellAllAmountPayEth''"
    by (simp add: setMethod_sellAllAmount)
  from valueForContract_Inr [OF assms(5)] obtain wethAddress
    where weth: "getTokenAddress e ''WETH'' = Inr wethAddress" by blast
  have ps: "buildParams e ''WETH'' amount buy' limit ''createAndSellAllAmountPayEth'' =
      Inr [PAddr (contract_address (getContractByName e ''PROXY_REGISTRY'')),
           PAddr (contract_address (otc e)), PAddr daiAddress, PAmount limit]"
    by (simp add: buildParams_cases [OF assms(4) weth assms(5)])
  have os: "buildOptions e amount ''ETH'' ''createAndSellAllAmountPayEth'' None =
      Inr \<lparr>opt_otc = otc e, opt_dsProxy = None, opt_value = Some wei\<rparr>"
    using assms(5) by (simp add: buildOptions_cases toLowerCase_def)
  from sell_run [of e "''ETH''" s "JBool False" _ buy' amount limit s1, OF cp]
    assms(3,6,7) m ps os
  show ?thesis by simp
qed

theorem sell_eth_without_proxy_witness:
  "sell env0 ''ETH'' ''DAI'' 1 state0 = (Inr
     (OtcSellOrder (contracts0 ''OASIS_PROXY'') ''createAndSellAllAmountPayEth''
        [PAddr ''0xPROXY_REGISTRY'', PAddr ''0xMAKER_OTC'', PAddr ''0xDA1'',
         PAmount 1960000000000000000] DAI
        \<lparr>opt_otc = contracts0 ''MAKER_OTC'', opt_dsProxy = None,
           opt_value = Some 1000000000000000000\<rparr>), state1)"
proof -
  have a: "currentProxy env0 = Inr Null" "\<not> truthy Null" "''DAI'' \<noteq> ''ETH''"
    "getTokenAddress env0 ''DAI'' = Inr ''0xDA1''"
    "valueForContract env0 1 ''WETH'' = Inr 1000000000000000000"
    by (simp_all add: getTokenAddress_def valueForContract_def getCurrency_def trunc_def
        sample_defs)
  have l: "minBuyAmount env0 ''DAI'' ''WETH'' 1 (state0\<lparr>calls := calls state0 @ [CurrentProxy]\<rparr>) =
     (Inr 1960000000000000000,
      state0\<lparr>calls := [CurrentProxy, OtcGetBuyAmount ''0xDA1'' ''0xE78'' 1000000000000000000],
              this_buyAmount := Some 2000000000000000000\<rparr>)"
    by (simp add: model_defs run_simps sample_defs)
  from sell_eth_without_proxy [OF a l refl]
  show ?thesis
    by (simp add: state1_eq otc_def otcProxy_def sample_defs)
qed

text \<open>Selling ETH for MKR: the third parameter is the address of DAI, not the address of
  the token bought.\<close>

theorem sell_eth_without_proxy_counterexample:
  "currentProxy env0 = Inr Null \<and>
   getTokenAddress env0 ''MKR'' = Inr ''0x3C2'' \<and>
   fst (sell env0 ''ETH'' ''MKR'' 1 state0) = Inr
     (OtcSellOrder (contracts0 ''OASIS_PROXY'') ''createAndSellAllAmountPayEth''
        [PAddr ''0xPROXY_REGISTRY'', PAddr ''0xMAKER_OTC'', PAddr ''0xDA1'',
         PAmount 1960000000000000000] WETH
        \<lparr>opt_otc = contracts0 ''MAKER_OTC'', opt_dsProxy = None,
           opt_value = Some 1000000000000000000\<rparr>)"
  by (simp add: model_defs run_simps sample_defs)

subsection \<open>Quote queries\<close>

text \<open>
  C7, as amended. \<^verbatim>\<open>getBuyAmount\<close> and \<^verbatim>\<open>getPayAmount\<close> convert the amount to integer
  units before they ask the exchange, \<^verbatim>\<open>getPayAmount\<close> with the conversion of the token
  the amount is in; what they return, and store, is the answer of the exchange as it
  is, in integer units.
\<close>

theorem quotes_query_integer_units:
  "(getBuyAmount e buyToken payToken sellAmount s = (Inr r, s1) \<longrightarrow>
      (\<exists>buyAddress payAddress symb tok.
         getTokenAddress e buyToken = Inr buyAddress \<and>
         getTokenAddress e payToken = Inr payAddress \<and>
         getToken e symb = Some tok \<and>
         calls s1 = calls s @
           [OtcGetBuyAmount buyAddress payAddress (toFixed_wei (getCurrency sellAmount tok))] \<and>
         otc_getBuyAmount e buyAddress payAddress (toFixed_wei (getCurrency sellAmount tok)) =
           Inr r \<and>
         this_buyAmount s1 = Some r)) \<and>
   (getPayAmount e payToken buyToken buyAmount s = (Inr r, s1) \<longrightarrow>
      (\<exists>payAddress buyAddress tok.
         getTokenAddress e payToken = Inr payAddress \<and>
         getTokenAddress e buyToken = Inr buyAddress \<and>
         getToken e buyToken = Some tok \<and>
         calls s1 = calls s @
           [OtcGetPayAmount payAddress buyAddress (toFixed_wei (getCurrency buyAmount tok))] \<and>
         otc_getPayAmount e payAddress buyAddress (toFixed_wei (getCurrency buyAmount tok)) =
           Inr r \<and>
         this_payAmount s1 = Some r))"
proof (intro conjI impI)
  assume "getBuyAmount e buyToken payToken sellAmount s = (Inr r, s1)"
  from getBuyAmount_Inr [OF this] obtain buyAddress payAddress v where
    g: "getTokenAddress e buyToken = Inr buyAddress" "getTokenAddress e payToken = Inr payAddress"
      "valueForContract e sellAmount buyToken = Inr v"
      "otc_getBuyAmount e buyAddress payAddress v = Inr r"
      "s1 = s\<lparr>calls := calls s @ [OtcGetBuyAmount buyAddress payAddress v],
              this_buyAmount := Some r\<rparr>"
    by blast
  from valueForContract_Inr [OF g(3)] obtain tok where
    "getToken e buyToken = Some tok" "v = toFixed_wei (getCurrency sellAmount tok)" by blast
  with g show "\<exists>buyAddress payAddress symb tok.
         getTokenAddress e buyToken = Inr buyAddress \<and>
         getTokenAddress e payToken = Inr payAddress \<and>
         getToken e symb = Some tok \<and>
         calls s1 = calls s @
           [OtcGetBuyAmount buyAddress payAddress (toFixed_wei (getCurrency sellAmount tok))] \<and>
         otc_getBuyAmount e buyAddress payAddress (toFixed_wei (getCurrency sellAmount tok)) =
           Inr r \<and>
         this_buyAmount s1 = Some r"
    by auto
next
  assume "getPayAmount e payToken buyToken buyAmount s = (Inr r, s1)"
  from getPayAmount_Inr [OF this] obtain payAddress buyAddress v where
    g: "getTokenAddress e payToken = Inr payAddress" "getTokenAddress e buyToken = Inr buyAddress"
      "valueForContract e buyAmount buyToken = Inr v"
      "otc_getPayAmount e payAddress buyAddress v = Inr r"
      "s1 = s\<lparr>calls := calls s @ [OtcGetPayAmount payAddress buyAddress v],
              this_payAmount := Some r\<rparr>"
    by blast
  from valueForContract_Inr [OF g(3)] obtain tok where
    "getToken e buyToken = Some tok" "v = toFixed_wei (getCurrency buyAmount tok)" by blast
  with g show "\<exists>payAddress buyAddress tok.
         getTokenAddress e payToken = Inr payAddress \<and>
         getTokenAddress e buyToken = Inr buyAddress \<and>
         getToken e buyToken = Some tok \<and>
         calls s1 = calls s @
           [OtcGetPayAmount payAddress buyAddress (toFixed_wei (getCurrency buyAmount tok))] \<and>
         otc_getPayAmount e payAddress buyAddress (toFixed_wei (getCurrency buyAmount tok)) =
           Inr r \<and>
         this_payAmount s1 = Some r"
    by auto
qed

theorem quotes_query_integer_units_witness:
  "getBuyAmount env0 ''DAI'' ''WETH'' (3 / 2) state0 =
     (Inr 2000000000000000000,
      state0\<lparr>calls := [OtcGetBuyAmount ''0xDA1'' ''0xE78'' 1500000000000000000],
              this_buyAmount := Some 2000000000000000000\<rparr>) \<and>
   getPayAmount env0 ''WETH'' ''USDC'' (3 / 2) state0 =
     (Inr 3000000000000000000,
      state0\<lparr>calls := [OtcGetPayAmount ''0xE78'' ''0x05D'' 1500000],
              this_payAmount := Some 3000000000000000000\<rparr>)"
proof -
  have b: "getBuyAmount env0 ''DAI'' ''WETH'' (3 / 2) state0 =
     (Inr 2000000000000000000,
      state0\<lparr>calls := [OtcGetBuyAmount ''0xDA1'' ''0xE78'' 1500000000000000000],
              this_buyAmount := Some 2000000000000000000\<rparr>)"
    by (simp add: model_defs run_simps sample_defs)
  have p: "getPayAmount env0 ''WETH'' ''USDC'' (3 / 2) state0 =
     (Inr 3000000000000000000,
      state0\<lparr>calls := [OtcGetPayAmount ''0xE78'' ''0x05D'' 1500000],
              this_payAmount := Some 3000000000000000000\<rparr>)"
    by (simp add: model_defs run_simps sample_defs)
  show ?thesis
    using quotes_query_integer_units [where e = env0 and buyToken = "''DAI''"
        and payToken = "''WETH''" and sellAmount = "3 / 2" and buyAmount = "3 / 2"
        and s = state0 and r = 2000000000000000000
        and ?s1.0 = "state0\<lparr>calls := [OtcGetBuyAmount ''0xDA1'' ''0xE78'' 1500000000000000000],
              this_buyAmount := Some 2000000000000000000\<rparr>"]
      quotes_query_integer_units [where e = env0 and buyToken = "''USDC''"
        and payToken = "''WETH''" and sellAmount = "3 / 2" and buyAmount = "3 / 2"
        and s = state0 and r = 3000000000000000000
        and ?s1.0 = "state0\<lparr>calls := [OtcGetPayAmount ''0xE78'' ''0x05D'' 1500000],
              this_payAmount := Some 3000000000000000000\<rparr>"]
      b p
    by simp
qed

text \<open>An answer of 2 units of DAI comes back as 2000000000000000000, not as 2.\<close>

theorem quotes_query_integer_units_counterexample:
  "fst (getBuyAmount env0 ''DAI'' ''WETH'' 1 state0) = Inr 2000000000000000000 \<and>
   tokens0 ''DAI'' = Some \<lparr>token_address = ''0xDA1'', token_decimals = 18\<rparr> \<and>
   humanUnits \<lparr>token_address = ''0xDA1'', token_decimals = 18\<rparr> 2000000000000000000 = 2 \<and>
   of_nat 2000000000000000000 \<noteq>
     humanUnits \<lparr>token_address = ''0xDA1'', token_decimals = 18\<rparr> 2000000000000000000"
  by (simp add: model_defs run_simps sample_defs humanUnits_def)

text \<open>\<^verbatim>\<open>getBuyAmount\<close> converts the amount sold with the conversion of the token bought:
  one USDC (6 decimals) sold for DAI (18 decimals) is sent as 10^18 units.\<close>

lemma getBuyAmount_converts_with_buyToken:
  "valueForContract env0 1 ''USDC'' = Inr 1000000 \<and>
   calls (snd (getBuyAmount env0 ''DAI'' ''USDC'' 1 state0)) =
     [OtcGetBuyAmount ''0xDA1'' ''0x05D'' 1000000000000000000]"
  by (simp add: model_defs run_simps sample_defs)

subsection \<open>Orders and their settlement asset\<close>

text \<open>
  C9, as amended. Every sell order is built with a settlement asset: DAI when the token
  bought is DAI, WETH otherwise. A buy order is built without one. A buy of ETH selects
  \<^verbatim>\<open>buyAllAmountBuyEth\<close>; a sale for ETH selects \<^verbatim>\<open>sellAllAmountBuyEth\<close> and settles in
  WETH.
\<close>

theorem orders_settlement_asset:
  "(sell e sell' buy' amount s = (Inr ord, s') \<longrightarrow>
      settlementAsset ord = Some (if buy' = ''DAI'' then DAI else WETH) \<and>
      (buy' = ''ETH'' \<longrightarrow>
         orderMethod ord = ''sellAllAmount'' @ ''BuyEth'' \<and> settlementAsset ord = Some WETH)) \<and>
   (buy e buy' sell' amount s = (Inr ord, s') \<longrightarrow>
      settlementAsset ord = None \<and>
      (buy' = ''ETH'' \<longrightarrow> orderMethod ord = ''buyAllAmount'' @ ''BuyEth''))"
proof (intro conjI impI)
  assume a: "sell e sell' buy' amount s = (Inr ord, s')"
  from sell_Inr [OF a]
  show "settlementAsset ord = Some (if buy' = ''DAI'' then DAI else WETH)"
    by auto
  assume "buy' = ''ETH''"
  with sell_Inr [OF a]
  show "orderMethod ord = ''sellAllAmount'' @ ''BuyEth''" "settlementAsset ord = Some WETH"
    by (auto simp: setMethod_def)
next
  assume a: "buy e buy' sell' amount s = (Inr ord, s')"
  from buy_Inr [OF a] show "settlementAsset ord = None"
    by auto
  assume "buy' = ''ETH''"
  with buy_Inr [OF a] show "orderMethod ord = ''buyAllAmount'' @ ''BuyEth''"
    by (auto simp: setMethod_def)
qed

lemma buy_eth_for_dai:
  "fst (buy env1 ''ETH'' ''DAI'' (3 / 2) state0) = Inr
     (OtcBuyOrder (contracts0 ''OASIS_PROXY'') ''buyAllAmountBuyEth''
        [PAddr ''0xMAKER_OTC'', PAddr ''0xE78'', PAmount 1500000000000000000, PAddr ''0xDA1'',
         PAmount 3060000000000000000]
        \<lparr>opt_otc = contracts0 ''MAKER_OTC'', opt_dsProxy = Some True, opt_value = None\<rparr>)"
  by (simp add: env1_def model_defs run_simps sample_defs)

lemma sell_dai_for_eth:
  "fst (sell env1 ''DAI'' ''ETH'' (3 / 2) state0) = Inr
     (OtcSellOrder (contracts0 ''OASIS_PROXY'') ''sellAllAmountBuyEth''
        [PAddr ''0xMAKER_OTC'', PAddr ''0xDA1'', PAmount 1500000000000000000, PAddr ''0xE78'',
         PAmount 6860000000000000000] WETH
        \<lparr>opt_otc = contracts0 ''MAKER_OTC'', opt_dsProxy = Some True, opt_value = None\<rparr>)"
  by (simp add: env1_def model_defs run_simps sample_defs)

theorem orders_settlement_asset_witness:
  "settlementAsset (projr (fst (sell env1 ''DAI'' ''ETH'' (3 / 2) state0))) = Some WETH \<and>
   orderMethod (projr (fst (sell env1 ''DAI'' ''ETH'' (3 / 2) state0))) = ''sellAllAmountBuyEth'' \<and>
   settlementAsset (projr (fst (buy env1 ''ETH'' ''DAI'' (3 / 2) state0))) = None \<and>
   orderMethod (projr (fst (buy env1 ''ETH'' ''DAI'' (3 / 2) state0))) = ''buyAllAmountBuyEth''"
  using orders_settlement_asset [where e = env1 and sell' = "''DAI''" and buy' = "''ETH''"
      and amount = "3 / 2" and s = state0
      and ord = "projr (fst (sell env1 ''DAI'' ''ETH'' (3 / 2) state0))"
      and s' = "snd (sell env1 ''DAI'' ''ETH'' (3 / 2) state0)"]
    orders_settlement_asset [where e = env1 and sell' = "''DAI''" and buy' = "''ETH''"
      and amount = "3 / 2" and s = state0
      and ord = "projr (fst (buy env1 ''ETH'' ''DAI'' (3 / 2) state0))"
      and s' = "snd (buy env1 ''ETH'' ''DAI'' (3 / 2) state0)"]
  by (simp add: sell_dai_for_eth buy_eth_for_dai)

text \<open>Buying ETH with DAI: the order carries no settlement asset.\<close>

theorem orders_settlement_asset_counterexample:
  "fst (buy env1 ''ETH'' ''DAI'' (3 / 2) state0) = Inr
     (OtcBuyOrder (contracts0 ''OASIS_PROXY'') ''buyAllAmountBuyEth''
        [PAddr ''0xMAKER_OTC'', PAddr ''0xE78'', PAmount 1500000000000000000, PAddr ''0xDA1'',
         PAmount 3060000000000000000]
        \<lparr>opt_otc = contracts0 ''MAKER_OTC'', opt_dsProxy = Some True, opt_value = None\<rparr>) \<and>
   settlementAsset (projr (fst (buy env1 ''ETH'' ''DAI'' (3 / 2) state0))) \<noteq> Some WETH"
  by (simp add: buy_eth_for_dai)

subsection \<open>The allowance requirement\<close>

lemma calls_checkProxy:
  assumes "checkProxy e sellCurrency s = (r, s0)"
  shows "\<exists>pre. calls s0 = calls s @ pre \<and>
           filter (\<lambda>c. isRequireAllowance c \<or> isBuild c) pre = []"
proof -
  from assms have "calls s0 = calls s @ [CurrentProxy] \<or>
      calls s0 = calls s @ [CurrentProxy, EnsureProxy]"
    by (auto simp: checkProxy_cases split: sum.splits if_splits)
  then show ?thesis
  proof
    assume "calls s0 = calls s @ [CurrentProxy]"
    then show ?thesis by (intro exI [of _ "[CurrentProxy]"]) simp
  next
    assume "calls s0 = calls s @ [CurrentProxy, EnsureProxy]"
    then show ?thesis by (intro exI [of _ "[CurrentProxy, EnsureProxy]"]) simp
  qed
qed

lemma calls_minBuyAmount:
  assumes "minBuyAmount e buyToken payToken payAmount s0 = (Inr limit, s1)"
  shows "\<exists>pre. calls s1 = calls s0 @ pre \<and>
           filter (\<lambda>c. isRequireAllowance c \<or> isBuild c) pre = []"
proof -
  from minBuyAmount_Inr [OF assms] obtain q where
    "s1 = s0 \<or> getBuyAmount e buyToken payToken payAmount s0 = (Inr q, s1)" by blast
  then show ?thesis
  proof
    assume "s1 = s0"
    then show ?thesis by (intro exI [of _ "[]"]) simp
  next
    assume "getBuyAmount e buyToken payToken payAmount s0 = (Inr q, s1)"
    from getBuyAmount_Inr [OF this] obtain a b v where
      "calls s1 = calls s0 @ [OtcGetBuyAmount a b v]" by auto
    then show ?thesis by (intro exI [of _ "[OtcGetBuyAmount a b v]"]) simp
  qed
qed

lemma calls_maxPayAmount:
  assumes "maxPayAmount e payToken buyToken buyAmount s0 = (Inr limit, s1)"
  shows "\<exists>pre. calls s1 = calls s0 @ pre \<and>
           filter (\<lambda>c. isRequireAllowance c \<or> isBuild c) pre = []"
proof -
  from maxPayAmount_Inr [OF assms] obtain q where
    "s1 = s0 \<or> getPayAmount e payToken buyToken buyAmount s0 = (Inr q, s1)" by blast
  then show ?thesis
  proof
    assume "s1 = s0"
    then show ?thesis by (intro exI [of _ "[]"]) simp
  next
    assume "getPayAmount e payToken buyToken buyAmount s0 = (Inr q, s1)"
    from getPayAmount_Inr [OF this] obtain a b v where
      "calls s1 = calls s0 @ [OtcGetPayAmount a b v]" by auto
    then show ?thesis by (intro exI [of _ "[OtcGetPayAmount a b v]"]) simp
  qed
qed

lemma sell_trace:
  assumes "sell e sell' buy' amount s = (Inr ord, s')"
  shows "\<exists>proxy s0 pre.
           checkProxy e sell' s = (Inr proxy, s0) \<and>
           filter (\<lambda>c. isRequireAllowance c \<or> isBuild c) pre = [] \<and>
           calls s' = calls s @ pre @
             (if truthy proxy
              then [RequireAllowance (if sell' = ''ETH'' then ''WETH'' else sell') proxy]
              else []) @ [Build ord] \<and>
           (truthy proxy \<longrightarrow>
              requireAllowance e (if sell' = ''ETH'' then ''WETH'' else sell') proxy = Inr ())"
proof -
  from sell_Inr [OF assms] obtain proxy s0 limit s1 params opts where
    cp: "checkProxy e sell' s = (Inr proxy, s0)"
    and mb: "minBuyAmount e (if buy' = ''ETH'' then ''WETH'' else buy')
             (if sell' = ''ETH'' then ''WETH'' else sell') amount s0 = (Inr limit, s1)"
    and bp: "buildParams e (if sell' = ''ETH'' then ''WETH'' else sell') amount
             (if buy' = ''ETH'' then ''WETH'' else buy') limit
             (setMethod sell' buy' ''sellAllAmount'' proxy) = Inr params"
    and bo: "buildOptions e amount sell' (setMethod sell' buy' ''sellAllAmount'' proxy) None =
             Inr opts"
    and ord: "ord = OtcSellOrder (otcProxy e) (setMethod sell' buy' ''sellAllAmount'' proxy) params
             (if (if buy' = ''ETH'' then ''WETH'' else buy') = ''DAI'' then DAI else WETH) opts"
    by blast
  from calls_checkProxy [OF cp] obtain pre0 where
    pre0: "calls s0 = calls s @ pre0" "filter (\<lambda>c. isRequireAllowance c \<or> isBuild c) pre0 = []"
    by blast
  from calls_minBuyAmount [OF mb] obtain pre1 where
    pre1: "calls s1 = calls s0 @ pre1" "filter (\<lambda>c. isRequireAllowance c \<or> isBuild c) pre1 = []"
    by blast
  from sell_run [OF cp mb bp bo ord refl] assms
  have run: "(Inr ord, s') =
     (if truthy proxy then
        (case requireAllowance e (if sell' = ''ETH'' then ''WETH'' else sell') proxy of
           Inl err \<Rightarrow> (Inl err, s1\<lparr>calls := calls s1 @
              [RequireAllowance (if sell' = ''ETH'' then ''WETH'' else sell') proxy]\<rparr>)
         | Inr u \<Rightarrow> (Inr ord, s1\<lparr>calls := calls s1 @
              [RequireAllowance (if sell' = ''ETH'' then ''WETH'' else sell') proxy, Build ord]\<rparr>))
      else (Inr ord, s1\<lparr>calls := calls s1 @ [Build ord]\<rparr>))"
    by simp
  have "filter (\<lambda>c. isRequireAllowance c \<or> isBuild c) (pre0 @ pre1) = []"
    using pre0(2) pre1(2) by simp
  moreover have "calls s' = calls s @ (pre0 @ pre1) @
             (if truthy proxy
              then [RequireAllowance (if sell' = ''ETH'' then ''WETH'' else sell') proxy]
              else []) @ [Build ord]"
    using run pre0(1) pre1(1) by (auto split: if_splits sum.splits)
  moreover have "truthy proxy \<longrightarrow>
              requireAllowance e (if sell' = ''ETH'' then ''WETH'' else sell') proxy = Inr ()"
    using run by (auto split: if_splits sum.splits)
  ultimately show ?thesis using cp by blast
qed

lemma buy_trace:
  assumes "buy e buy' sell' amount s = (Inr ord, s')"
  shows "\<exists>proxy s0 pre.
           checkProxy e sell' s = (Inr proxy, s0) \<and>
           filter (\<lambda>c. isRequireAllowance c \<or> isBuild c) pre = [] \<and>
           calls s' = calls s @ pre @
             (if truthy proxy
              then [RequireAllowance (if sell' = ''ETH'' then ''WETH'' else sell') proxy]
              else []) @ [Build ord] \<and>
           (truthy proxy \<longrightarrow>
              requireAllowance e (if sell' = ''ETH'' then ''WETH'' else sell') proxy = Inr ())"
proof -
  from buy_Inr [OF assms] obtain proxy s0 limit s1 params opts where
    cp: "checkProxy e sell' s = (Inr proxy, s0)"
    and mb: "maxPayAmount e (if sell' = ''ETH'' then ''WETH'' else sell')
             (if buy' = ''ETH'' then ''WETH'' else buy') amount s0 = (Inr limit, s1)"
    and bp: "buildParams e (if buy' = ''ETH'' then ''WETH'' else buy') amount
             (if sell' = ''ETH'' then ''WETH'' else sell') limit
             (setMethod sell' buy' ''buyAllAmount'' proxy) = Inr params"
    and bo: "buildOptions e amount sell' (setMethod sell' buy' ''buyAllAmount'' proxy)
             (Some limit) = Inr opts"
    and ord: "ord = OtcBuyOrder (otcProxy e) (setMethod sell' buy' ''buyAllAmount'' proxy) params
             opts"
    by blast
  from calls_checkProxy [OF cp] obtain pre0 where
    pre0: "calls s0 = calls s @ pre0" "filter (\<lambda>c. isRequireAllowance c \<or> isBuild c) pre0 = []"
    by blast
  from calls_maxPayAmount [OF mb] obtain pre1 where
    pre1: "calls s1 = calls s0 @ pre1" "filter (\<lambda>c. isRequireAllowance c \<or> isBuild c) pre1 = []"
    by blast
  from buy_run [OF cp mb bp bo ord refl] assms
  have run: "(Inr ord, s') =
     (if truthy proxy then
        (case requireAllowance e (if sell' = ''ETH'' then ''WETH'' else sell') proxy of
           Inl err \<Rightarrow> (Inl err, s1\<lparr>calls := calls s1 @
              [RequireAllowance (if sell' = ''ETH'' then ''WETH'' else sell') proxy]\<rparr>)
         | Inr u \<Rightarrow> (Inr ord, s1\<lparr>calls := calls s1 @
              [RequireAllowance (if sell' = ''ETH'' then ''WETH'' else sell') proxy, Build ord]\<rparr>))
      else (Inr ord, s1\<lparr>calls := calls s1 @ [Build ord]\<rparr>))"
    by simp
  have "filter (\<lambda>c. isRequireAllowance c \<or> isBuild c) (pre0 @ pre1) = []"
    using pre0(2) pre1(2) by simp
  moreover have "calls s' = calls s @ (pre0 @ pre1) @
             (if truthy proxy
              then [RequireAllowance (if sell' = ''ETH'' then ''WETH'' else sell') proxy]
              else []) @ [Build ord]"
    using run pre0(1) pre1(1) by (auto split: if_splits sum.splits)
  moreover have "truthy proxy \<longrightarrow>
              requireAllowance e (if sell' = ''ETH'' then ''WETH'' else sell') proxy = Inr ()"
    using run by (auto split: if_splits sum.splits)
  ultimately show ?thesis using cp by blast
qed

lemma sell_allowance_refused:
  assumes "checkProxy e sell' s = (Inr proxy, s0)" and "truthy proxy"
    and "requireAllowance e (if sell' = ''ETH'' then ''WETH'' else sell') proxy = Inl err"
  shows "(\<exists>err'. fst (sell e sell' buy' amount s) = Inl err') \<and>
         filter isBuild (calls (snd (sell e sell' buy' amount s))) = filter isBuild (calls s)"
proof -
  have "filter isBuild (calls (snd (checkProxy e sell' s))) = filter isBuild (calls s)"
    by (rule checkProxy_inv [where I = "\<lambda>s'. filter isBuild (calls s') = filter isBuild (calls s)"])
       simp_all
  with assms(1) have i0: "filter isBuild (calls s0) = filter isBuild (calls s)" by simp
  have i1: "filter isBuild (calls (snd (minBuyAmount e b p amount s0))) = filter isBuild (calls s)"
    for b p
    by (rule minBuyAmount_inv [where I = "\<lambda>s'. filter isBuild (calls s') = filter isBuild (calls s)",
          OF i0]) simp_all
  obtain r1 s1 where mb: "minBuyAmount e (if buy' = ''ETH'' then ''WETH'' else buy')
      (if sell' = ''ETH'' then ''WETH'' else sell') amount s0 = (r1, s1)"
    by (cases "minBuyAmount e (if buy' = ''ETH'' then ''WETH'' else buy')
      (if sell' = ''ETH'' then ''WETH'' else sell') amount s0")
  with i1 [of "if buy' = ''ETH'' then ''WETH'' else buy'"
      "if sell' = ''ETH'' then ''WETH'' else sell'"]
  have i: "filter isBuild (calls s1) = filter isBuild (calls s)" by simp
  show ?thesis
  proof (cases r1)
    case (Inl err1)
    with assms(1) mb i show ?thesis by (simp add: sell_def run_simps Let_def)
  next
    case limit: (Inr limit)
    show ?thesis
    proof (cases "buildParams e (if sell' = ''ETH'' then ''WETH'' else sell') amount
        (if buy' = ''ETH'' then ''WETH'' else buy') limit
        (setMethod sell' buy' ''sellAllAmount'' proxy)")
      case (Inl err2)
      with assms(1) mb limit i show ?thesis by (simp add: sell_def run_simps Let_def)
    next
      case params: (Inr params)
      show ?thesis
      proof (cases "buildOptions e amount sell'
          (setMethod sell' buy' ''sellAllAmount'' proxy) None")
        case (Inl err3)
        with assms(1) mb limit params i show ?thesis by (simp add: sell_def run_simps Let_def)
      next
        case (Inr opts)
        with assms mb limit params i show ?thesis by (simp add: sell_def run_simps Let_def)
      qed
    qed
  qed
qed

lemma buy_allowance_refused:
  assumes "checkProxy e sell' s = (Inr proxy, s0)" and "truthy proxy"
    and "requireAllowance e (if sell' = ''ETH'' then ''WETH'' else sell') proxy = Inl err"
  shows "(\<exists>err'. fst (buy e buy' sell' amount s) = Inl err') \<and>
         filter isBuild (calls (snd (buy e buy' sell' amount s))) = filter isBuild (calls s)"
proof -
  have "filter isBuild (calls (snd (checkProxy e sell' s))) = filter isBuild (calls s)"
    by (rule checkProxy_inv [where I = "\<lambda>s'. filter isBuild (calls s') = filter isBuild (calls s)"])
       simp_all
  with assms(1) have i0: "filter isBuild (calls s0) = filter isBuild (calls s)" by simp
  have i1: "filter isBuild (calls (snd (maxPayAmount e p b amount s0))) = filter isBuild (calls s)"
    for b p
    by (rule maxPayAmount_inv [where I = "\<lambda>s'. filter isBuild (calls s') = filter isBuild (calls s)",
          OF i0]) simp_all
  obtain r1 s1 where mb: "maxPayAmount e (if sell' = ''ETH'' then ''WETH'' else sell')
      (if buy' = ''ETH'' then ''WETH'' else buy') amount s0 = (r1, s1)"
    by (cases "maxPayAmount e (if sell' = ''ETH'' then ''WETH'' else sell')
      (if buy' = ''ETH'' then ''WETH'' else buy') amount s0")
  with i1 [of "if sell' = ''ETH'' then ''WETH'' else sell'"
      "if buy' = ''ETH'' then ''WETH'' else buy'"]
  have i: "filter isBuild (calls s1) = filter isBuild (calls s)" by simp
  show ?thesis
  proof (cases r1)
    case (Inl err1)
    with assms(1) mb i show ?thesis by (simp add: buy_def run_simps Let_def)
  next
    case limit: (Inr limit)
    show ?thesis
    proof (cases "buildParams e (if buy' = ''ETH'' then ''WETH'' else buy') amount
        (if sell' = ''ETH'' then ''WETH'' else sell') limit
        (setMethod sell' buy' ''buyAllAmount'' proxy)")
      case (Inl err2)
      with assms(1) mb limit i show ?thesis by (simp add: buy_def run_simps Let_def)
    next
      case params: (Inr params)
      show ?thesis
      proof (cases "buildOptions e amount sell'
          (setMethod sell' buy' ''buyAllAmount'' proxy) (Some limit)")
        case (Inl err3)
        with assms(1) mb limit params i show ?thesis by (simp add: buy_def run_simps Let_def)
      next
        case (Inr opts)
        with assms mb limit params i show ?thesis by (simp add: buy_def run_simps Let_def)
      qed
    qed
  qed
qed

lemma sell_refused:
  "sell envRefused ''DAI'' ''WETH'' 1 state0 =
     (Inl AllowanceFailed,
      state0\<lparr>this_buyAmount := Some 7000000000000000000,
        calls := [CurrentProxy, OtcGetBuyAmount ''0xE78'' ''0xDA1'' 1000000000000000000,
                  RequireAllowance ''DAI'' (JStr ''0x9A0'')]\<rparr>)"
  by (simp add: envRefused_def env1_def model_defs run_simps sample_defs)

lemma sell_granted:
  "sell env1 ''DAI'' ''WETH'' 1 state0 =
     (Inr (OtcSellOrder (contracts0 ''OASIS_PROXY'') ''sellAllAmount''
        [PAddr ''0xMAKER_OTC'', PAddr ''0xDA1'', PAmount 1000000000000000000, PAddr ''0xE78'',
         PAmount 6860000000000000000] WETH
        \<lparr>opt_otc = contracts0 ''MAKER_OTC'', opt_dsProxy = Some True, opt_value = None\<rparr>),
      state0\<lparr>this_buyAmount := Some 7000000000000000000,
        calls := [CurrentProxy, OtcGetBuyAmount ''0xE78'' ''0xDA1'' 1000000000000000000,
                  RequireAllowance ''DAI'' (JStr ''0x9A0''),
                  Build (OtcSellOrder (contracts0 ''OASIS_PROXY'') ''sellAllAmount''
        [PAddr ''0xMAKER_OTC'', PAddr ''0xDA1'', PAmount 1000000000000000000, PAddr ''0xE78'',
         PAmount 6860000000000000000] WETH
        \<lparr>opt_otc = contracts0 ''MAKER_OTC'', opt_dsProxy = Some True, opt_value = None\<rparr>)]\<rparr>)"
  by (simp add: env1_def model_defs run_simps sample_defs)

text \<open>
  C8, as amended. In every \<^verbatim>\<open>sell\<close> and \<^verbatim>\<open>buy\<close> that builds an order, the allowance
  service is called exactly when the proxy handle is truthy, once, with the token sold
  and the handle, after everything else and just before the order is built; and the
  method waits for it: the order is built only when the allowance call has succeeded,
  and when it fails the method fails and builds no order.
\<close>

theorem requireAllowance_awaited:
  "(sell e sell' buy' amount s = (Inr ord, s') \<longrightarrow>
      (\<exists>proxy s0 pre.
         checkProxy e sell' s = (Inr proxy, s0) \<and>
         filter (\<lambda>c. isRequireAllowance c \<or> isBuild c) pre = [] \<and>
         calls s' = calls s @ pre @
           (if truthy proxy
            then [RequireAllowance (if sell' = ''ETH'' then ''WETH'' else sell') proxy]
            else []) @ [Build ord] \<and>
         (truthy proxy \<longrightarrow>
            requireAllowance e (if sell' = ''ETH'' then ''WETH'' else sell') proxy = Inr ()))) \<and>
   (buy e buy' sell' amount s = (Inr ord, s') \<longrightarrow>
      (\<exists>proxy s0 pre.
         checkProxy e sell' s = (Inr proxy, s0) \<and>
         filter (\<lambda>c. isRequireAllowance c \<or> isBuild c) pre = [] \<and>
         calls s' = calls s @ pre @
           (if truthy proxy
            then [RequireAllowance (if sell' = ''ETH'' then ''WETH'' else sell') proxy]
            else []) @ [Build ord] \<and>
         (truthy proxy \<longrightarrow>
            requireAllowance e (if sell' = ''ETH'' then ''WETH'' else sell') proxy = Inr ()))) \<and>
   (checkProxy e sell' s = (Inr p, s0) \<and> truthy p \<and>
    requireAllowance e (if sell' = ''ETH'' then ''WETH'' else sell') p = Inl err \<longrightarrow>
      (\<exists>err'. fst (sell e sell' buy' amount s) = Inl err') \<and>
      filter isBuild (calls (snd (sell e sell' buy' amount s))) = filter isBuild (calls s) \<and>
      (\<exists>err'. fst (buy e buy' sell' amount s) = Inl err') \<and>
      filter isBuild (calls (snd (buy e buy' sell' amount s))) = filter isBuild (calls s))"
proof (intro conjI impI)
  assume "sell e sell' buy' amount s = (Inr ord, s')"
  then show "\<exists>proxy s0 pre.
         checkProxy e sell' s = (Inr proxy, s0) \<and>
         filter (\<lambda>c. isRequireAllowance c \<or> isBuild c) pre = [] \<and>
         calls s' = calls s @ pre @
           (if truthy proxy
            then [RequireAllowance (if sell' = ''ETH'' then ''WETH'' else sell') proxy]
            else []) @ [Build ord] \<and>
         (truthy proxy \<longrightarrow>
            requireAllowance e (if sell' = ''ETH'' then ''WETH'' else sell') proxy = Inr ())"
    by (rule sell_trace)
next
  assume "buy e buy' sell' amount s = (Inr ord, s')"
  then show "\<exists>proxy s0 pre.
         checkProxy e sell' s = (Inr proxy, s0) \<and>
         filter (\<lambda>c. isRequireAllowance c \<or> isBuild c) pre = [] \<and>
         calls s' = calls s @ pre @
           (if truthy proxy
            then [RequireAllowance (if sell' = ''ETH'' then ''WETH'' else sell') proxy]
            else []) @ [Build ord] \<and>
         (truthy proxy \<longrightarrow>
            requireAllowance e (if sell' = ''ETH'' then ''WETH'' else sell') proxy = Inr ())"
    by (rule buy_trace)
next
  assume a: "checkProxy e sell' s = (Inr p, s0) \<and> truthy p \<and>
    requireAllowance e (if sell' = ''ETH'' then ''WETH'' else sell') p = Inl err"
  from a sell_allowance_refused [of e sell' s p s0 err buy' amount]
  show "\<exists>err'. fst (sell e sell' buy' amount s) = Inl err'"
    and "filter isBuild (calls (snd (sell e sell' buy' amount s))) = filter isBuild (calls s)"
    by simp_all
  from a buy_allowance_refused [of e sell' s p s0 err buy' amount]
  show "\<exists>err'. fst (buy e buy' sell' amount s) = Inl err'"
    and "filter isBuild (calls (snd (buy e buy' sell' amount s))) = filter isBuild (calls s)"
    by simp_all
qed

theorem requireAllowance_awaited_witness:
  "calls (snd (sell env1 ''DAI'' ''WETH'' 1 state0)) =
     [CurrentProxy, OtcGetBuyAmount ''0xE78'' ''0xDA1'' 1000000000000000000,
      RequireAllowance ''DAI'' (JStr ''0x9A0''),
      Build (projr (fst (sell env1 ''DAI'' ''WETH'' 1 state0)))] \<and>
   fst (sell envRefused ''DAI'' ''WETH'' 1 state0) = Inl AllowanceFailed \<and>
   filter isBuild (calls (snd (sell envRefused ''DAI'' ''WETH'' 1 state0))) = []"
proof -
  have granted: "calls (snd (sell env1 ''DAI'' ''WETH'' 1 state0)) =
     [CurrentProxy, OtcGetBuyAmount ''0xE78'' ''0xDA1'' 1000000000000000000,
      RequireAllowance ''DAI'' (JStr ''0x9A0''),
      Build (projr (fst (sell env1 ''DAI'' ''WETH'' 1 state0)))]"
    by (simp add: sell_granted)
  have cp: "checkProxy envRefused ''DAI'' state0 =
      (Inr (JStr ''0x9A0''), state0\<lparr>calls := calls state0 @ [CurrentProxy]\<rparr>)"
    by (simp add: checkProxy_cases envRefused_def env1_def env0_def)
  have ra: "requireAllowance envRefused (if ''DAI'' = ''ETH'' then ''WETH'' else ''DAI'')
      (JStr ''0x9A0'') = Inl AllowanceFailed"
    by (simp add: envRefused_def)
  have st: "calls state0 = []"
    by (simp add: state0_def)
  from requireAllowance_awaited [where e = envRefused and sell' = "''DAI''" and buy' = "''WETH''"
      and amount = 1 and s = state0 and p = "JStr ''0x9A0''"
      and ?s0.0 = "state0\<lparr>calls := calls state0 @ [CurrentProxy]\<rparr>" and err = AllowanceFailed]
    cp ra
  have refused: "(\<exists>err'. fst (sell envRefused ''DAI'' ''WETH'' 1 state0) = Inl err') \<and>
      filter isBuild (calls (snd (sell envRefused ''DAI'' ''WETH'' 1 state0))) =
        filter isBuild (calls state0)"
    by simp
  have "fst (sell envRefused ''DAI'' ''WETH'' 1 state0) = Inl AllowanceFailed"
    by (simp add: sell_refused)
  with granted refused st show ?thesis by simp
qed

text \<open>With a proxy and an allowance service that refuses, \<^verbatim>\<open>sell\<close> ends with the
  refusal and builds nothing.\<close>

theorem requireAllowance_awaited_counterexample:
  "sell envRefused ''DAI'' ''WETH'' 1 state0 =
     (Inl AllowanceFailed,
      state0\<lparr>this_buyAmount := Some 7000000000000000000,
        calls := [CurrentProxy, OtcGetBuyAmount ''0xE78'' ''0xDA1'' 1000000000000000000,
                  RequireAllowance ''DAI'' (JStr ''0x9A0'')]\<rparr>) \<and>
   filter isBuild (calls (snd (sell envRefused ''DAI'' ''WETH'' 1 state0))) = []"
  by (simp add: sell_refused)

end

